(* ===== verification/Prelude.thy ===== *)
theory Prelude
  imports Main "HOL-Library.Word"
begin

text \<open>
  Shared vocabulary of the development: bytes as 8-bit words, the C return
  conventions, the \<open>named_theorems\<close> collections that carry the component proofs,
  and generic lemmas on lists and words that several components use.
\<close>

unbundle bit_operations_syntax

type_synonym byte = "8 word"

named_theorems usb_simps
  "evaluation rules of the libusb primitives, used to run the backends"

named_theorems frame_simps
  "lemmas on fixed-size transfer buffers (take, drop, replicate)"

subsection \<open>Lists used as C buffers\<close>

text \<open>
  A C buffer \<open>uint8_t buf[N]\<close> filled by \<open>memset\<close> and \<open>memcpy\<close> is a list of
  length \<open>N\<close>; \<open>memcpy (buf + k, src, n)\<close> with \<open>k + n \<le> N\<close> is a splice.
\<close>

definition memcpy_at :: "nat \<Rightarrow> 'a list \<Rightarrow> 'a list \<Rightarrow> 'a list" where
  "memcpy_at k src buf = take k buf @ src @ drop (k + length src) buf"

text \<open>C99 integer division of \<open>int\<close>s, truncating toward zero (for a non-zero divisor).\<close>

definition c_div :: "int \<Rightarrow> int \<Rightarrow> int" where
  "c_div a b = sgn a * sgn b * (\<bar>a\<bar> div \<bar>b\<bar>)"

text \<open>The 8-bit sum of a byte list, as C's \<open>uint8_t cksum += buf[i]\<close> computes it.\<close>

primrec byte_sum :: "byte list \<Rightarrow> byte" where
  "byte_sum [] = 0"
| "byte_sum (b # bs) = b + byte_sum bs"

lemma length_memcpy_at [frame_simps]:
  "k + length src \<le> length buf \<Longrightarrow> length (memcpy_at k src buf) = length buf"
  by (simp add: memcpy_at_def)

lemma take_memcpy_at [frame_simps]:
  "k \<le> length buf \<Longrightarrow> take k (memcpy_at k src buf) = take k buf"
  by (simp add: memcpy_at_def)

lemma take_drop_memcpy_at [frame_simps]:
  "k \<le> length buf \<Longrightarrow> take (length src) (drop k (memcpy_at k src buf)) = src"
  by (simp add: memcpy_at_def)

lemma drop_memcpy_at [frame_simps]:
  "k \<le> length buf \<Longrightarrow> drop (k + length src) (memcpy_at k src buf) = drop (k + length src) buf"
  by (simp add: memcpy_at_def)

lemma take_append_replicate [frame_simps]:
  "take (length xs) (xs @ replicate n c) = xs"
  by simp

lemma drop_append_replicate [frame_simps]:
  "drop (length xs) (xs @ replicate n c) = replicate n c"
  by simp

subsection \<open>Bytes\<close>

lemma unat_byte_of_nat [simp]:
  "n < 256 \<Longrightarrow> unat (word_of_nat n :: byte) = n"
  by (simp add: unat_of_nat)

lemma unat_byte_less: "unat (b :: byte) < 256"
  using unsigned_less [of b] by simp

lemma byte_sum_append: "byte_sum (xs @ ys) = byte_sum xs + byte_sum ys"
  by (induction xs) (simp_all add: add.assoc)

lemma unat_byte_sum: "unat (byte_sum bs) = (\<Sum>b\<leftarrow>bs. unat b) mod 256"
proof (induction bs)
  case Nil
  then show ?case by simp
next
  case (Cons b bs)
  have "unat (b + byte_sum bs) = (unat b + unat (byte_sum bs)) mod 256"
    by (simp add: unat_word_ariths)
  also have "\<dots> = (unat b + (\<Sum>b\<leftarrow>bs. unat b)) mod 256"
    using Cons.IH by (simp add: mod_add_right_eq)
  finally show ?case by simp
qed

text \<open>A 16-bit value stored as two bytes, low byte first (\<open>v & 0xff\<close>, \<open>v >> 8\<close>).\<close>

lemma unat_low_byte: "unat (ucast (x AND 0xff) :: byte) = unat (x :: 16 word) mod 256"
proof -
  have "x AND (0xff :: 16 word) = take_bit 8 x"
    by (simp add: take_bit_eq_mask mask_eq_exp_minus_1)
  then show ?thesis
    by (simp add: unsigned_ucast_eq unsigned_take_bit_eq take_bit_eq_mod unat_mod)
qed

lemma unat_high_byte: "unat (ucast (drop_bit 8 x) :: byte) = unat (x :: 16 word) div 256"
proof -
  have "unat x < 65536" using unsigned_less [of x] by simp
  then show ?thesis
    by (simp add: unsigned_ucast_eq unat_drop_bit_eq take_bit_eq_mod drop_bit_eq_div unat_div)
qed

lemma unat_le16_bytes:
  "unat (ucast (x AND 0xff) :: byte) + 256 * unat (ucast (drop_bit 8 x) :: byte) = unat (x :: 16 word)"
  by (simp add: unat_low_byte unat_high_byte)

text \<open>A 32-bit value stored as four bytes, low byte first.\<close>

lemma unat_byte_of_word32:
  "unat (ucast (drop_bit n x AND 0xff) :: byte) = unat (x :: 32 word) div 2 ^ n mod 256"
proof -
  have "drop_bit n x AND (0xff :: 32 word) = take_bit 8 (drop_bit n x)"
    by (simp add: take_bit_eq_mask mask_eq_exp_minus_1)
  then have "unat (ucast (drop_bit n x AND 0xff) :: byte) = take_bit 8 (take_bit 8 (drop_bit n (unat x)))"
    by (simp only: unsigned_ucast_eq unsigned_take_bit_eq unat_drop_bit_eq) simp
  then show ?thesis
    by (simp add: take_bit_eq_mod drop_bit_eq_div)
qed

lemma nat_le_bytes32:
  "(x::nat) < 4294967296 \<Longrightarrow>
     x mod 256 + 256 * (x div 256 mod 256) + 65536 * (x div 65536 mod 256) + 16777216 * (x div 16777216 mod 256) = x"
proof -
  assume x: "x < 4294967296"
  have a: "x mod 65536 = 256 * (x div 256 mod 256) + x mod 256"
    using mod_mult2_eq [of x 256 256] by simp
  have b: "x mod 16777216 = 65536 * (x div 65536 mod 256) + x mod 65536"
    using mod_mult2_eq [of x 65536 256] by simp
  have c: "x mod 4294967296 = 16777216 * (x div 16777216 mod 256) + x mod 16777216"
    using mod_mult2_eq [of x 16777216 256] by simp
  from x have "x mod 4294967296 = x" by simp
  with a b c show ?thesis by linarith
qed

lemma eq_char_of_iff: "c = char_of n \<longleftrightarrow> take_bit 8 n = of_char c"
  by (metis char_of_eq_iff)

end
