(* ===== verification/Usb.thy ===== *)
theory Usb
  imports Prelude
begin

text \<open>
  The libusb-1.0 boundary every backend calls. The host side is the code under
  \<open>src/\<close>; the device side and libusb itself are outside it and are modelled here from
  libusb's documented behaviour, as an explicit world passed through every call:
  \<^item> \<open>script\<close>: the device's answers, consumed in order by every call whose result the
    code inspects (open, claim, set_configuration, clear_halt, control and bulk
    transfers, the serial string request). When the script is exhausted the device is gone: every further such
    call returns \<open>LIBUSB_ERROR_NO_DEVICE\<close>.
  \<^item> \<open>trace\<close>: every call the host issues, in order (the observable wire behaviour).
  \<^item> \<open>clock\<close>: milliseconds; a transfer that times out takes its timeout.
  \<^item> \<open>devices\<close>: the bus as the locator sees it, and \<open>devices_after_reset\<close>, the
    bus after a device reset (a TI3410 re-enumerates after its firmware download).
  \<^item> \<open>open_handles\<close>, \<open>claimed\<close>: the OS-level resources the host holds.
  \<^item> \<open>fw_env\<close>, \<open>files\<close>: the environment variable and the readable Intel-HEX files
    for the TI3410 firmware search (the external decoder's chunk list, or \<open>None\<close> when
    the file is not valid Intel-HEX).
\<close>

subsection \<open>libusb constants\<close>

definition LIBUSB_ERROR_IO :: int where "LIBUSB_ERROR_IO = -1"
definition LIBUSB_ERROR_INVALID_PARAM :: int where "LIBUSB_ERROR_INVALID_PARAM = -2"
definition LIBUSB_ERROR_NO_DEVICE :: int where "LIBUSB_ERROR_NO_DEVICE = -4"
definition LIBUSB_ERROR_TIMEOUT :: int where "LIBUSB_ERROR_TIMEOUT = -7"
definition LIBUSB_ERROR_OVERFLOW :: int where "LIBUSB_ERROR_OVERFLOW = -8"

text \<open>Endpoint descriptor masks of \<open>usb.h\<close>.\<close>

definition USB_ENDPOINT_TYPE_MASK :: byte where "USB_ENDPOINT_TYPE_MASK = 0x03"
definition USB_ENDPOINT_TYPE_BULK :: byte where "USB_ENDPOINT_TYPE_BULK = 2"
definition USB_ENDPOINT_DIR_MASK :: byte where "USB_ENDPOINT_DIR_MASK = 0x80"

text \<open>Request-type bits of a control transfer (\<open>usb.h\<close>).\<close>

definition USB_TYPE_VENDOR :: byte where "USB_TYPE_VENDOR = 0x40"
definition USB_RECIP_DEVICE :: byte where "USB_RECIP_DEVICE = 0x00"

subsection \<open>Descriptors\<close>

text \<open>
  The configuration descriptor as libusb returns it; an interface stands for its
  alternate setting 0 (\<open>intf->altsetting[0]\<close>), which is the one the code reads.
\<close>

record ep_desc =
  bmAttributes :: byte
  bEndpointAddress :: byte

record intf_desc =
  bInterfaceClass :: byte
  bInterfaceNumber :: nat
  endpoints :: "ep_desc list"

record config_desc =
  bConfigurationValue :: nat
  interfaces :: "intf_desc list"

record usb_device =
  dev_bus :: nat
  dev_addr :: nat
  idVendor :: "16 word"
  idProduct :: "16 word"
  dev_serial :: "string option"
  bNumConfigurations :: nat
  dev_config :: "config_desc option"
  dev_kernel_driver :: bool

subsection \<open>The device's answers and the host's calls\<close>

datatype reply =
    Ack
  | Fail int
  | Part int nat
  | Data int "byte list"

datatype usb_call =
    Open nat nat
  | Close
  | Claim nat
  | Release nat
  | Detach nat
  | SetConfig nat
  | Control byte byte "16 word" "16 word" "byte list"
  | BulkOut int "byte list"
  | BulkIn int nat
  | IntrIn int nat
  | ClearHalt int
  | ResetDevice
  | GetStringDesc

type_synonym handle = nat

record usb_world =
  script :: "reply list"
  trace :: "usb_call list"
  clock :: nat
  devices :: "usb_device list"
  devices_after_reset :: "usb_device list"
  next_handle :: handle
  open_handles :: "handle list"
  claimed :: "(handle \<times> nat) list"
  fw_env :: "string option"
  files :: "(string \<times> (nat \<times> byte list) list option) list"

subsection \<open>Primitives\<close>

definition log_call :: "usb_call \<Rightarrow> usb_world \<Rightarrow> usb_world" where
  "log_call c w = w\<lparr>trace := trace w @ [c]\<rparr>"

definition take_reply :: "usb_world \<Rightarrow> reply option \<times> usb_world" where
  "take_reply w = (case script w of [] \<Rightarrow> (None, w) | r # rs \<Rightarrow> (Some r, w\<lparr>script := rs\<rparr>))"

text \<open>A call that timed out has waited for its whole timeout.\<close>

definition elapse :: "int \<Rightarrow> nat \<Rightarrow> usb_world \<Rightarrow> usb_world" where
  "elapse rc tmo w = (if rc = LIBUSB_ERROR_TIMEOUT then w\<lparr>clock := clock w + tmo\<rparr> else w)"

text \<open>
  Status of a call with an \<open>n\<close>-byte data stage: libusb returns the number of bytes
  transferred on success (0 for open, claim and the other status calls).
\<close>

definition reply_status :: "nat \<Rightarrow> reply option \<Rightarrow> int" where
  "reply_status n r = (case r of
      None \<Rightarrow> LIBUSB_ERROR_NO_DEVICE
    | Some Ack \<Rightarrow> int n
    | Some (Fail rc) \<Rightarrow> rc
    | Some _ \<Rightarrow> LIBUSB_ERROR_IO)"

definition status_call :: "usb_call \<Rightarrow> nat \<Rightarrow> usb_world \<Rightarrow> int \<times> usb_world" where
  "status_call c tmo w =
     (case take_reply (log_call c w) of (r, w') \<Rightarrow>
        (reply_status 0 r, elapse (reply_status 0 r) tmo w'))"

definition libusb_control_transfer ::
  "byte \<Rightarrow> byte \<Rightarrow> 16 word \<Rightarrow> 16 word \<Rightarrow> byte list \<Rightarrow> nat \<Rightarrow> usb_world \<Rightarrow> int \<times> usb_world" where
  "libusb_control_transfer rt req val idx data tmo w =
     (case take_reply (log_call (Control rt req val idx data) w) of (r, w') \<Rightarrow>
        (reply_status (length data) r, elapse (reply_status (length data) r) tmo w'))"

text \<open>\<open>libusb_bulk_transfer\<close> to an OUT endpoint: status and bytes accepted.\<close>

definition libusb_bulk_out ::
  "int \<Rightarrow> byte list \<Rightarrow> nat \<Rightarrow> usb_world \<Rightarrow> (int \<times> nat) \<times> usb_world" where
  "libusb_bulk_out ep data tmo w =
     (case take_reply (log_call (BulkOut ep data) w) of
        (None, w') \<Rightarrow> ((LIBUSB_ERROR_NO_DEVICE, 0), w')
      | (Some Ack, w') \<Rightarrow> ((0, length data), w')
      | (Some (Fail rc), w') \<Rightarrow> ((rc, 0), elapse rc tmo w')
      | (Some (Part rc n), w') \<Rightarrow> ((rc, min n (length data)), elapse rc tmo w')
      | (Some (Data _ _), w') \<Rightarrow> ((LIBUSB_ERROR_IO, 0), w'))"

text \<open>
  \<open>libusb_bulk_transfer\<close> from an IN endpoint into a buffer of \<open>len\<close> bytes: status
  and the bytes received. A device that offers more than \<open>len\<close> bytes makes the
  transfer fail with \<open>LIBUSB_ERROR_OVERFLOW\<close> after filling the buffer.
\<close>

definition libusb_bulk_in ::
  "int \<Rightarrow> nat \<Rightarrow> nat \<Rightarrow> usb_world \<Rightarrow> (int \<times> byte list) \<times> usb_world" where
  "libusb_bulk_in ep len tmo w =
     (case take_reply (log_call (BulkIn ep len) w) of
        (None, w') \<Rightarrow> ((LIBUSB_ERROR_NO_DEVICE, []), w')
      | (Some Ack, w') \<Rightarrow> ((0, []), w')
      | (Some (Fail rc), w') \<Rightarrow> ((rc, []), elapse rc tmo w')
      | (Some (Part _ _), w') \<Rightarrow> ((LIBUSB_ERROR_IO, []), w')
      | (Some (Data rc d), w') \<Rightarrow>
          (if len < length d then ((LIBUSB_ERROR_OVERFLOW, take len d), w')
           else ((rc, d), elapse rc tmo w')))"

definition libusb_open :: "usb_device \<Rightarrow> usb_world \<Rightarrow> (int \<times> handle option) \<times> usb_world" where
  "libusb_open dev w =
     (case take_reply (log_call (Open (dev_bus dev) (dev_addr dev)) w) of
        (Some Ack, w') \<Rightarrow>
          ((0, Some (next_handle w')),
           w'\<lparr>next_handle := Suc (next_handle w'), open_handles := next_handle w' # open_handles w'\<rparr>)
      | (r, w') \<Rightarrow> ((reply_status 0 r, None), w'))"

text \<open>Closing a handle releases, at the OS level, every interface claimed on it.\<close>

definition libusb_close :: "handle \<Rightarrow> usb_world \<Rightarrow> usb_world" where
  "libusb_close h w =
     (let w' = log_call Close w
      in w'\<lparr>open_handles := removeAll h (open_handles w'),
            claimed := filter (\<lambda>c. fst c \<noteq> h) (claimed w')\<rparr>)"

definition libusb_claim_interface :: "handle \<Rightarrow> nat \<Rightarrow> usb_world \<Rightarrow> int \<times> usb_world" where
  "libusb_claim_interface h i w =
     (case status_call (Claim i) 0 w of (rc, w') \<Rightarrow>
        (rc, if rc = 0 then w'\<lparr>claimed := (h, i) # claimed w'\<rparr> else w'))"

definition libusb_release_interface :: "handle \<Rightarrow> nat \<Rightarrow> usb_world \<Rightarrow> usb_world" where
  "libusb_release_interface h i w =
     (let w' = log_call (Release i) w in w'\<lparr>claimed := removeAll (h, i) (claimed w')\<rparr>)"

definition libusb_set_configuration :: "nat \<Rightarrow> usb_world \<Rightarrow> int \<times> usb_world" where
  "libusb_set_configuration c w = status_call (SetConfig c) 0 w"

definition libusb_clear_halt :: "int \<Rightarrow> usb_world \<Rightarrow> int \<times> usb_world" where
  "libusb_clear_halt ep w = status_call (ClearHalt ep) 0 w"

text \<open>
  Calls whose result the code ignores (or only prints) are logged and consume no
  answer: detaching the kernel driver, the TI3410 interrupt flush, the device reset.
\<close>

definition kernel_detach :: "usb_device \<Rightarrow> nat \<Rightarrow> usb_world \<Rightarrow> usb_world" where
  "kernel_detach dev i w = (if dev_kernel_driver dev then log_call (Detach i) w else w)"

definition libusb_interrupt_in :: "int \<Rightarrow> nat \<Rightarrow> usb_world \<Rightarrow> usb_world" where
  "libusb_interrupt_in ep len w = log_call (IntrIn ep len) w"

definition libusb_reset_device :: "usb_world \<Rightarrow> usb_world" where
  "libusb_reset_device w = (log_call ResetDevice w)\<lparr>devices := devices_after_reset w\<rparr>"

definition delay_ms :: "nat \<Rightarrow> usb_world \<Rightarrow> usb_world" where
  "delay_ms n w = w\<lparr>clock := clock w + n\<rparr>"

text \<open>
  \<open>libusb_get_string_descriptor_ascii\<close> for the serial-number string: a device
  without one (\<open>iSerialNumber = 0\<close>) is refused before any transfer; otherwise one
  request, whose answer \<open>Ack\<close> delivers the device's string, at most \<open>len - 1\<close>
  characters of it with the terminator, and its length as the result. Characters are
  single bytes, so the ASCII conversion never substitutes \<open>?\<close>.
\<close>

definition libusb_get_string_descriptor_ascii ::
  "usb_device \<Rightarrow> handle \<Rightarrow> nat \<Rightarrow> usb_world \<Rightarrow> (int \<times> string) \<times> usb_world" where
  "libusb_get_string_descriptor_ascii dev h len w =
     (case dev_serial dev of
        None \<Rightarrow> ((LIBUSB_ERROR_INVALID_PARAM, []), w)
      | Some s \<Rightarrow>
          (case take_reply (log_call GetStringDesc w) of
             (None, w') \<Rightarrow> ((LIBUSB_ERROR_NO_DEVICE, []), w')
           | (Some Ack, w') \<Rightarrow> ((int (length (take (len - 1) s)), take (len - 1) s), w')
           | (Some (Fail rc), w') \<Rightarrow> ((rc, []), w')
           | (Some _, w') \<Rightarrow> ((LIBUSB_ERROR_IO, []), w')))"

definition time_now :: "usb_world \<Rightarrow> nat" where
  "time_now w = clock w div 1000"

subsection \<open>Errors\<close>

text \<open>
  Every failing return of the backends, with the message the source prints. The
  spec's taxonomy groups them: discovery (\<open>E_not_found\<close>), configuration
  (\<open>E_config\<close>, \<open>E_no_interface\<close>, \<open>E_open\<close>, \<open>E_claim\<close>, \<open>E_set_config\<close>), protocol
  (\<open>E_short_transfer\<close>, \<open>E_bad_header\<close>, \<open>E_bad_length\<close>, \<open>E_fw_gap\<close>,
  \<open>E_fw_size\<close>), transfer (\<open>E_transfer\<close>, \<open>E_control\<close>), timeout (\<open>E_timeout\<close>),
  unsupported (\<open>E_unsupported\<close>). \<open>E_null_deref\<close> stands for a path on which the C
  code dereferences a null pointer, \<open>E_uninit\<close> for one on which it branches on an
  uninitialised variable, \<open>E_div_zero\<close> for an integer division by zero: undefined
  behaviour in each case.
\<close>

datatype usb_error =
    E_not_found
  | E_config
  | E_no_interface
  | E_open int
  | E_claim int
  | E_set_config int
  | E_suspended
  | E_mtu nat
  | E_transfer int
  | E_short_transfer
  | E_bad_header
  | E_bad_length nat nat
  | E_timeout
  | E_unsupported
  | E_control int
  | E_clear_halt
  | E_fw_not_found
  | E_fw_not_ihex
  | E_fw_gap nat nat
  | E_fw_size
  | E_null_deref
  | E_uninit
  | E_div_zero

subsection \<open>What a transfer leaves alone\<close>

text \<open>
  Transfers change only the script, the trace and the clock: the handles, the claims,
  the bus and the files are as before.
\<close>

definition io_frame :: "usb_world \<Rightarrow> usb_world \<Rightarrow> bool" where
  "io_frame w w' \<longleftrightarrow>
     open_handles w' = open_handles w \<and> claimed w' = claimed w \<and> devices w' = devices w \<and>
     devices_after_reset w' = devices_after_reset w \<and> next_handle w' = next_handle w \<and>
     fw_env w' = fw_env w \<and> files w' = files w"

definition fresh_handles :: "usb_world \<Rightarrow> bool" where
  "fresh_handles w \<longleftrightarrow>
     (\<forall>h\<in>set (open_handles w). h < next_handle w) \<and> (\<forall>c\<in>set (claimed w). fst c < next_handle w)"

text \<open>
  A step that may open and close handles of its own but leaves the process holding
  what it held: the same handles and claims, the bus and the files untouched.
\<close>

definition handles_kept :: "usb_world \<Rightarrow> usb_world \<Rightarrow> bool" where
  "handles_kept w w' \<longleftrightarrow>
     open_handles w' = open_handles w \<and> claimed w' = claimed w \<and> devices w' = devices w \<and>
     devices_after_reset w' = devices_after_reset w \<and> next_handle w \<le> next_handle w' \<and>
     fw_env w' = fw_env w \<and> files w' = files w"

text \<open>A process that has not touched the bus yet: no handle open, nothing claimed.\<close>

definition empty_world :: "usb_device list \<Rightarrow> reply list \<Rightarrow> usb_world" where
  "empty_world devs rs = \<lparr>script = rs, trace = [], clock = 0, devices = devs, devices_after_reset = devs,
     next_handle = 0, open_handles = [], claimed = [], fw_env = None, files = []\<rparr>"

text \<open>
  Sequencing of fallible steps, the shape of the C idiom
  \<open>if (step (tr) < 0) return -1; rest\<close>: the first failure is returned with the world
  it left, and the rest runs only after a success.
\<close>

definition usb_seq ::
  "('s \<Rightarrow> ('e + unit) \<times> 's) \<Rightarrow> ('s \<Rightarrow> ('e + 'a) \<times> 's) \<Rightarrow> 's \<Rightarrow> ('e + 'a) \<times> 's" where
  "usb_seq f g s = (case f s of (Inl e, s') \<Rightarrow> (Inl e, s') | (Inr _, s') \<Rightarrow> g s')"

subsection \<open>Evaluation rules\<close>

lemma usb_seq_Inl [simp]: "f s = (Inl e, s') \<Longrightarrow> usb_seq f g s = (Inl e, s')"
  by (simp add: usb_seq_def)

lemma usb_seq_Inr [simp]: "f s = (Inr u, s') \<Longrightarrow> usb_seq f g s = g s'"
  by (simp add: usb_seq_def)

lemma usb_seq_cases:
  "usb_seq f g s = r \<Longrightarrow>
     (\<exists>e s'. f s = (Inl e, s') \<and> r = (Inl e, s')) \<or> (\<exists>u s'. f s = (Inr u, s') \<and> g s' = r)"
  by (cases "f s" rule: prod.exhaust, rename_tac a b, case_tac a) (auto simp: usb_seq_def)

lemmas usb_masks [simp] =
  USB_ENDPOINT_TYPE_MASK_def USB_ENDPOINT_TYPE_BULK_def USB_ENDPOINT_DIR_MASK_def

lemmas usb_request_types [simp] = USB_TYPE_VENDOR_def USB_RECIP_DEVICE_def

lemmas libusb_codes [simp] =
  LIBUSB_ERROR_IO_def LIBUSB_ERROR_NO_DEVICE_def LIBUSB_ERROR_TIMEOUT_def
  LIBUSB_ERROR_OVERFLOW_def LIBUSB_ERROR_INVALID_PARAM_def

lemma take_reply_simps [usb_simps]:
  "script w = [] \<Longrightarrow> take_reply w = (None, w)"
  "script w = r # rs \<Longrightarrow> take_reply w = (Some r, w\<lparr>script := rs\<rparr>)"
  by (simp_all add: take_reply_def)

lemma script_log_call [simp]: "script (log_call c w) = script w"
  by (simp add: log_call_def)

lemma clock_log_call [simp]: "clock (log_call c w) = clock w"
  by (simp add: log_call_def)

lemma trace_log_call [simp]: "trace (log_call c w) = trace w @ [c]"
  by (simp add: log_call_def)

lemma script_elapse [simp]: "script (elapse rc tmo w) = script w"
  by (simp add: elapse_def)

lemma trace_elapse [simp]: "trace (elapse rc tmo w) = trace w"
  by (simp add: elapse_def)

lemmas usb_primitive_defs [usb_simps] =
  libusb_control_transfer_def libusb_bulk_out_def libusb_bulk_in_def libusb_open_def
  libusb_close_def libusb_claim_interface_def libusb_release_interface_def
  libusb_set_configuration_def libusb_clear_halt_def status_call_def reply_status_def
  kernel_detach_def libusb_interrupt_in_def libusb_reset_device_def delay_ms_def
  elapse_def time_now_def log_call_def take_reply_def libusb_get_string_descriptor_ascii_def

text \<open>Every transfer consumes at most one answer of the script.\<close>

lemma bulk_out_script:
  "libusb_bulk_out ep data tmo w = (r, w') \<Longrightarrow>
     script w' = drop 1 (script w)"
  by (auto simp: libusb_bulk_out_def take_reply_def split: list.splits reply.splits)

lemma bulk_in_script:
  "libusb_bulk_in ep len tmo w = (r, w') \<Longrightarrow>
     script w' = drop 1 (script w)"
  by (auto simp: libusb_bulk_in_def take_reply_def split: list.splits reply.splits if_splits)

lemma bulk_out_sent_le:
  "libusb_bulk_out ep data tmo w = ((rc, n), w') \<Longrightarrow> n \<le> length data"
  by (auto simp: libusb_bulk_out_def take_reply_def split: list.splits reply.splits)

lemma bulk_in_length:
  "libusb_bulk_in ep len tmo w = ((rc, d), w') \<Longrightarrow> length d \<le> len"
  by (auto simp: libusb_bulk_in_def take_reply_def split: list.splits reply.splits if_splits)

lemma bulk_out_no_device:
  "script w = [] \<Longrightarrow> libusb_bulk_out ep data tmo w = ((LIBUSB_ERROR_NO_DEVICE, 0), log_call (BulkOut ep data) w)"
  by (simp add: libusb_bulk_out_def take_reply_def)

lemma bulk_in_no_device:
  "script w = [] \<Longrightarrow> libusb_bulk_in ep len tmo w = ((LIBUSB_ERROR_NO_DEVICE, []), log_call (BulkIn ep len) w)"
  by (simp add: libusb_bulk_in_def take_reply_def)

lemma bulk_out_trace: "libusb_bulk_out ep data tmo w = (r, w') \<Longrightarrow> trace w' = trace w @ [BulkOut ep data]"
  by (auto simp: libusb_bulk_out_def take_reply_def elapse_def log_call_def split: list.splits reply.splits)

lemma io_frame_refl [simp]: "io_frame w w"
  by (simp add: io_frame_def)

lemma io_frame_trans [trans]: "io_frame w1 w2 \<Longrightarrow> io_frame w2 w3 \<Longrightarrow> io_frame w1 w3"
  by (simp add: io_frame_def)

lemma io_frame_resources:
  "io_frame w w' \<Longrightarrow> open_handles w' = open_handles w \<and> claimed w' = claimed w \<and> devices w' = devices w"
  by (simp add: io_frame_def)

lemma bulk_out_io_frame: "libusb_bulk_out ep data tmo w = (r, w') \<Longrightarrow> io_frame w w'"
  by (auto simp: libusb_bulk_out_def take_reply_def elapse_def log_call_def io_frame_def
           split: list.splits reply.splits)

lemma bulk_in_io_frame: "libusb_bulk_in ep len tmo w = (r, w') \<Longrightarrow> io_frame w w'"
  by (auto simp: libusb_bulk_in_def take_reply_def elapse_def log_call_def io_frame_def
           split: list.splits reply.splits if_splits)

lemma control_io_frame: "libusb_control_transfer rt req v i data tmo w = (r, w') \<Longrightarrow> io_frame w w'"
  by (auto simp: libusb_control_transfer_def take_reply_def elapse_def log_call_def io_frame_def
           split: list.splits)

subsection \<open>Handles and claims\<close>

lemma libusb_open_Some:
  "libusb_open dev w = ((rc, Some h), w') \<Longrightarrow>
     rc = 0 \<and> h = next_handle w \<and> open_handles w' = h # open_handles w \<and> claimed w' = claimed w \<and>
     next_handle w' = Suc h"
  by (auto simp: libusb_open_def take_reply_def log_call_def split: list.splits reply.splits option.splits)

lemma libusb_open_None:
  "libusb_open dev w = ((rc, None), w') \<Longrightarrow>
     open_handles w' = open_handles w \<and> claimed w' = claimed w \<and> next_handle w' = next_handle w"
  by (auto simp: libusb_open_def take_reply_def log_call_def split: list.splits reply.splits option.splits)

lemma resources_kernel_detach [simp]:
  "open_handles (kernel_detach d i w) = open_handles w"
  "claimed (kernel_detach d i w) = claimed w"
  "next_handle (kernel_detach d i w) = next_handle w"
  by (simp_all add: kernel_detach_def log_call_def)

lemma libusb_claim_effect:
  "libusb_claim_interface h i w = (rc, w') \<Longrightarrow>
     open_handles w' = open_handles w \<and> next_handle w' = next_handle w \<and>
     claimed w' = (if rc = 0 then (h, i) # claimed w else claimed w)"
  by (auto simp: libusb_claim_interface_def status_call_def take_reply_def log_call_def elapse_def
           split: list.splits prod.splits)

lemma resources_close [simp]:
  "open_handles (libusb_close h w) = removeAll h (open_handles w)"
  "claimed (libusb_close h w) = filter (\<lambda>c. fst c \<noteq> h) (claimed w)"
  "next_handle (libusb_close h w) = next_handle w"
  by (simp_all add: libusb_close_def log_call_def Let_def)

lemma resources_release [simp]:
  "open_handles (libusb_release_interface h i w) = open_handles w"
  "claimed (libusb_release_interface h i w) = removeAll (h, i) (claimed w)"
  "next_handle (libusb_release_interface h i w) = next_handle w"
  by (simp_all add: libusb_release_interface_def log_call_def Let_def)

lemma fresh_removeAll:
  "fresh_handles w \<Longrightarrow> removeAll (next_handle w) (open_handles w) = open_handles w"
  by (auto simp: fresh_handles_def intro: removeAll_id)

lemma fresh_filter:
  "fresh_handles w \<Longrightarrow> filter (\<lambda>c. fst c \<noteq> next_handle w) (claimed w) = claimed w"
  by (auto simp: fresh_handles_def filter_id_conv)

text \<open>Handles numbered from \<open>next_handle\<close> on were never handed out before.\<close>

lemma fresh_removeAll_ge:
  "fresh_handles w \<Longrightarrow> next_handle w \<le> h \<Longrightarrow> removeAll h (open_handles w) = open_handles w"
  by (rule removeAll_id) (auto simp: fresh_handles_def)

lemma fresh_filter_ge:
  "fresh_handles w \<Longrightarrow> next_handle w \<le> h \<Longrightarrow> filter (\<lambda>c. fst c \<noteq> h) (claimed w) = claimed w"
  by (auto simp: fresh_handles_def filter_id_conv)

lemma fresh_release_close:
  assumes "fresh_handles w" and "next_handle w \<le> h"
  shows "filter (\<lambda>c. fst c \<noteq> h) (removeAll (h, i) (claimed w)) = claimed w"
proof -
  have "(h, i) \<notin> set (claimed w)" using assms by (auto simp: fresh_handles_def)
  then show ?thesis using fresh_filter_ge [OF assms] by (simp add: removeAll_id)
qed

lemma string_desc_io_frame: "libusb_get_string_descriptor_ascii dev h len w = (r, w') \<Longrightarrow> io_frame w w'"
  by (auto simp: libusb_get_string_descriptor_ascii_def take_reply_def log_call_def io_frame_def
           split: option.splits list.splits reply.splits)

lemma handles_kept_refl [simp]: "handles_kept w w"
  by (simp add: handles_kept_def)

lemma handles_kept_trans [trans]: "handles_kept w1 w2 \<Longrightarrow> handles_kept w2 w3 \<Longrightarrow> handles_kept w1 w3"
  by (auto simp: handles_kept_def)

lemma io_frame_handles_kept: "io_frame w w' \<Longrightarrow> handles_kept w w'"
  by (simp add: io_frame_def handles_kept_def)

lemma handles_kept_fresh: "handles_kept w w' \<Longrightarrow> fresh_handles w \<Longrightarrow> fresh_handles w'"
  by (fastforce simp: handles_kept_def fresh_handles_def)

text \<open>A handle opened on a consistent world and closed again leaves what the process held.\<close>

lemma open_close_handles_kept:
  assumes "libusb_open dev w = ((rc, Some h), w1)" and "io_frame w1 w2" and "fresh_handles w"
  shows "handles_kept w (libusb_close h w2)"
proof -
  note o = libusb_open_Some [OF assms(1)]
  have "h \<notin> set (open_handles w)" using o assms(3) by (auto simp: fresh_handles_def)
  moreover have "devices w1 = devices w \<and> devices_after_reset w1 = devices_after_reset w \<and>
      fw_env w1 = fw_env w \<and> files w1 = files w"
    using assms(1) by (auto simp: libusb_open_def take_reply_def log_call_def split: list.splits reply.splits)
  moreover have "libusb_close h w2 = (log_call Close w2)\<lparr>open_handles := removeAll h (open_handles w2),
      claimed := filter (\<lambda>c. fst c \<noteq> h) (claimed w2)\<rparr>" by (simp add: libusb_close_def Let_def log_call_def)
  ultimately show ?thesis
    using o assms(2) fresh_filter [OF assms(3)] by (simp add: handles_kept_def io_frame_def log_call_def)
qed

subsection \<open>The clock\<close>

lemma time_now_elapse:
  "time_now (elapse rc (s * 1000) w) = (if rc = LIBUSB_ERROR_TIMEOUT then time_now w + s else time_now w)"
  by (simp add: elapse_def time_now_def)

lemma time_now_script [simp]: "time_now (w\<lparr>script := rs\<rparr>) = time_now w"
  by (simp add: time_now_def)

lemma time_now_log_call [simp]: "time_now (log_call c w) = time_now w"
  by (simp add: time_now_def)

subsection \<open>Sequencing keeps the frame\<close>

lemma usb_seq_io_frame:
  assumes "\<And>s. io_frame s (snd (f s))" and "\<And>s. io_frame s (snd (g s))"
  shows "io_frame s (snd (usb_seq f g s))"
proof (cases "f s")
  case (Pair r s1)
  with assms(1) [of s] have f1: "io_frame s s1" by simp
  show ?thesis
  proof (cases r)
    case (Inl e)
    with Pair f1 show ?thesis by simp
  next
    case (Inr u)
    with Pair f1 assms(2) [of s1] show ?thesis by (auto intro: io_frame_trans)
  qed
qed

end
