(* ===== verification/Usbutil.thy ===== *)
theory Usbutil
  imports Usb "HOL-Library.Sublist"
begin

text \<open>
  The device locator, \<open>usbutil.c\<close> (\<open>src/unnamed/part_000\<close>): the lookup of a
  device by a \<open>"bus:device"\<close> location string (\<open>usbutil_find_by_loc\<close>, with the C
  library's \<open>strtok\<close> and \<open>atoi\<close> written out) and by vendor, product and optional
  serial number (\<open>usbutil_find_by_id\<close>, with \<open>strcasecmp\<close>), the table of known
  adapters (\<open>device_help\<close>) and the listing \<open>usbutil_list\<close> prints (as the text it
  writes). Both lookups scan the whole bus and keep the last match. \<open>read_serial\<close>
  opens the device, reads its serial-number string and closes it again: those calls
  consume answers of the device and appear in the trace, so the lookup by serial and
  the listing thread the world. \<open>find_by_id_ref\<close> is what the lookup by identifiers
  promises, the last device with those identifiers whose serial matches; the
  lookup refines it whenever the devices answer the serial reads.
\<close>

subsection \<open>C string functions\<close>

definition loc_delim :: "char \<Rightarrow> bool" where
  "loc_delim c \<longleftrightarrow> c \<in> {CHR '':'', CHR 0x09, CHR 0x0D, CHR 0x0A}"

text \<open>
  Successive \<open>strtok (_, ":\t\r\n")\<close> calls: skip delimiters, take the token up to
  the next delimiter, continue after it.
\<close>

function strtok_all :: "string \<Rightarrow> string list" where
  "strtok_all s =
     (let s' = dropWhile loc_delim s
      in if s' = [] then []
         else takeWhile (\<lambda>c. \<not> loc_delim c) s' # strtok_all (dropWhile (\<lambda>c. \<not> loc_delim c) s'))"
  by pat_completeness auto
termination
proof (relation "measure length")
  fix s s'
  assume s': "s' = dropWhile loc_delim s" and ne: "s' \<noteq> []"
  then have nd: "\<not> loc_delim (hd s')"
    using hd_dropWhile by blast
  have "length (dropWhile (\<lambda>c. \<not> loc_delim c) s') < length s'"
    using ne nd by (cases s') (auto simp: le_imp_less_Suc length_dropWhile_le)
  also have "\<dots> \<le> length s"
    using s' by (simp add: length_dropWhile_le)
  finally show "(dropWhile (\<lambda>c. \<not> loc_delim c) s', s) \<in> measure length"
    by simp
qed simp

declare strtok_all.simps [simp del]

definition c_isspace :: "char \<Rightarrow> bool" where
  "c_isspace c \<longleftrightarrow> c \<in> {CHR '' '', CHR 0x09, CHR 0x0A, CHR 0x0B, CHR 0x0C, CHR 0x0D}"

definition c_isdigit :: "char \<Rightarrow> bool" where
  "c_isdigit c \<longleftrightarrow> 48 \<le> (of_char c :: nat) \<and> (of_char c :: nat) \<le> 57"

definition digit_value :: "char \<Rightarrow> int" where
  "digit_value c = int (of_char c) - 48"

fun atoi_digits :: "int \<Rightarrow> string \<Rightarrow> int" where
  "atoi_digits acc [] = acc"
| "atoi_digits acc (c # cs) = (if c_isdigit c then atoi_digits (10 * acc + digit_value c) cs else acc)"

text \<open>\<open>atoi\<close>: leading white space, an optional sign, then decimal digits.\<close>

definition atoi :: "string \<Rightarrow> int" where
  "atoi s = (case dropWhile c_isspace s of
      c # r \<Rightarrow> (if c = CHR ''-'' then - atoi_digits 0 r
                else if c = CHR ''+'' then atoi_digits 0 r
                else atoi_digits 0 (c # r))
    | [] \<Rightarrow> 0)"

definition c_tolower :: "char \<Rightarrow> char" where
  "c_tolower c = (if 65 \<le> (of_char c :: nat) \<and> (of_char c :: nat) \<le> 90 then char_of (of_char c + (32::nat)) else c)"

definition strcasecmp_eq :: "string \<Rightarrow> string \<Rightarrow> bool" where
  "strcasecmp_eq a b \<longleftrightarrow> map c_tolower a = map c_tolower b"

subsection \<open>Lookups\<close>

text \<open>
  \<open>usbutil_find_by_loc\<close>: copy at most 63 characters into the local buffer, take two
  tokens, convert them with \<open>atoi\<close> and keep the last device at that bus and address.
\<close>

definition usbutil_find_by_loc :: "string option \<Rightarrow> usb_world \<Rightarrow> usb_device option" where
  "usbutil_find_by_loc loc w = (case loc of
      None \<Rightarrow> None
    | Some l \<Rightarrow>
        (case strtok_all (take 63 l) of
           bus_text # dev_text # _ \<Rightarrow>
             find (\<lambda>d. int (dev_bus d) = atoi bus_text \<and> int (dev_addr d) = atoi dev_text)
               (rev (devices w))
         | _ \<Rightarrow> None))"

text \<open>
  \<open>read_serial\<close> fills a 128-byte buffer, so at most 127 characters of the serial
  number are compared; a device whose serial cannot be read never matches a
  requested serial.
\<close>

text \<open>
  \<open>read_serial\<close>: open the device, read the serial-number string into the caller's
  buffer of \<open>max_len\<close> bytes, close. \<open>libusb_open\<close> writes the handle exactly when it
  returns 0, so the test of its result is the test of the handle. The device
  descriptor is cached by libusb and its read does not fail.
\<close>

definition read_serial :: "usb_device \<Rightarrow> nat \<Rightarrow> usb_world \<Rightarrow> string option \<times> usb_world" where
  "read_serial dev max_len w =
     (case libusb_open dev w of ((rc, dh), w1) \<Rightarrow>
        (case dh of
           None \<Rightarrow> (None, w1)
         | Some h \<Rightarrow>
             (case libusb_get_string_descriptor_ascii dev h max_len w1 of ((r, buf), w2) \<Rightarrow>
                if r < 0 then (None, libusb_close h w2) else (Some buf, libusb_close h w2))))"

text \<open>
  The loop of \<open>usbutil_find_by_id\<close> over the device list, \<open>found\<close> the last match so
  far. The serial is read only when one is requested (\<open>||\<close> short-circuits), into a
  128-byte buffer, and compared with \<open>strcasecmp\<close>; a device whose serial cannot be
  read does not match.
\<close>

fun find_by_id_loop ::
  "16 word \<Rightarrow> 16 word \<Rightarrow> string option \<Rightarrow> usb_device list \<Rightarrow> usb_device option \<Rightarrow> usb_world \<Rightarrow>
     usb_device option \<times> usb_world" where
  "find_by_id_loop vendor product req [] found w = (found, w)"
| "find_by_id_loop vendor product req (d # ds) found w =
     (if idVendor d = vendor \<and> idProduct d = product then
        (case req of
           None \<Rightarrow> find_by_id_loop vendor product req ds (Some d) w
         | Some s \<Rightarrow>
             (case read_serial d 128 w of
                (Some buf, w1) \<Rightarrow>
                  if strcasecmp_eq s buf then find_by_id_loop vendor product req ds (Some d) w1
                  else find_by_id_loop vendor product req ds found w1
              | (None, w1) \<Rightarrow> find_by_id_loop vendor product req ds found w1))
      else find_by_id_loop vendor product req ds found w)"

definition usbutil_find_by_id ::
  "16 word \<Rightarrow> 16 word \<Rightarrow> string option \<Rightarrow> usb_world \<Rightarrow> usb_device option \<times> usb_world" where
  "usbutil_find_by_id vendor product req w = find_by_id_loop vendor product req (devices w) None w"

text \<open>The lookup every backend's \<open>open\<close> performs: by location when one is given.\<close>

definition find_device ::
  "string option \<Rightarrow> string option \<Rightarrow> 16 word \<Rightarrow> 16 word \<Rightarrow> usb_world \<Rightarrow> usb_device option \<times> usb_world" where
  "find_device devpath req vendor product w =
     (case devpath of
        Some _ \<Rightarrow> (usbutil_find_by_loc devpath w, w)
      | None \<Rightarrow> usbutil_find_by_id vendor product req w)"

text \<open>
  The specification of the lookup by identifiers: the last device on the bus with
  the vendor and product whose serial, as far as a 128-byte buffer holds it, matches
  the requested one.
\<close>

definition serial_matches :: "string option \<Rightarrow> usb_device \<Rightarrow> bool" where
  "serial_matches req d \<longleftrightarrow> (case req of
      None \<Rightarrow> True
    | Some s \<Rightarrow> (case dev_serial d of None \<Rightarrow> False | Some r \<Rightarrow> strcasecmp_eq s (take 127 r)))"

definition find_by_id_ref ::
  "16 word \<Rightarrow> 16 word \<Rightarrow> string option \<Rightarrow> usb_world \<Rightarrow> usb_device option" where
  "find_by_id_ref vendor product req w =
     find (\<lambda>d. idVendor d = vendor \<and> idProduct d = product \<and> serial_matches req d)
       (rev (devices w))"

subsection \<open>The adapter table and the location format\<close>

definition device_help_table :: "(16 word \<times> 16 word \<times> string) list" where
  "device_help_table =
     [(0x0451, 0xf432, ''eZ430-RF2500''),
      (0x0451, 0xf430, ''FET430UIF''),
      (0x2047, 0x0010, ''FET430UIF (V3 firmware)''),
      (0x15ba, 0x0002, ''Olimex MSP430-JTAG-TINY (v1)''),
      (0x15ba, 0x0008, ''Olimex MSP430-JTAG-ISO''),
      (0x15ba, 0x0031, ''Olimex MSP430-JTAG-TINY (v2)''),
      (0x15ba, 0x0100, ''Olimex MSP430-JTAG-ISO-MK2 (v2)''),
      (0x2047, 0x0200, ''USB bootstrap loader'')]"

definition device_help :: "usb_device \<Rightarrow> string" where
  "device_help d = (case find (\<lambda>(v, p, _). idProduct d = p \<and> idVendor d = v) device_help_table of
      Some (_, _, h) \<Rightarrow> h
    | None \<Rightarrow> '''')"

text \<open>\<open>printf ("%03d", n)\<close>: decimal digits, zero-padded to at least three.\<close>

fun dec_digits :: "nat \<Rightarrow> string" where
  "dec_digits n = (if n < 10 then [char_of (48 + n)] else dec_digits (n div 10) @ [char_of (48 + n mod 10)])"

declare dec_digits.simps [simp del]

definition fmt03 :: "nat \<Rightarrow> string" where
  "fmt03 n = replicate (3 - length (dec_digits n)) (CHR ''0'') @ dec_digits n"

definition location_text :: "usb_device \<Rightarrow> string" where
  "location_text d = fmt03 (dev_bus d) @ '':'' @ fmt03 (dev_addr d)"


text \<open>\<open>printf ("%04x", v)\<close> of a 16-bit value: four lower-case hexadecimal digits.\<close>

definition hex_digit :: "nat \<Rightarrow> char" where
  "hex_digit n = (if n < 10 then char_of (48 + n) else char_of (87 + n))"

definition fmt04x :: "16 word \<Rightarrow> string" where
  "fmt04x v = map (\<lambda>k. hex_digit (unat (drop_bit (4 * k) v AND 0xf))) [3, 2, 1, 0]"

text \<open>
  The loop of \<open>usbutil_list\<close> over the bus, with \<open>bus\<close> the number of the bus whose
  heading was printed last (\<open>-1\<close> before the first): a heading whenever the bus
  changes, then one line per device with its location, ids, adapter name and, when
  it can be read, its serial number.
\<close>

fun list_lines :: "int \<Rightarrow> usb_device list \<Rightarrow> usb_world \<Rightarrow> string \<times> usb_world" where
  "list_lines bus [] w = ([], w)"
| "list_lines bus (d # ds) w =
     (case read_serial d 128 w of (sr, w1) \<Rightarrow>
        (case list_lines (int (dev_bus d)) ds w1 of (rest, w2) \<Rightarrow>
           ((if bus \<noteq> int (dev_bus d) then ''Devices on bus '' @ fmt03 (dev_bus d) @ '':'' @ [CHR 0x0A] else []) @
            ''    '' @ location_text d @ '' '' @ fmt04x (idVendor d) @ '':'' @ fmt04x (idProduct d) @ '' '' @
            device_help d @
            (case sr of
               Some s \<Rightarrow> '' [serial: '' @ s @ '']'' @ [CHR 0x0A]
             | None \<Rightarrow> [CHR 0x0A]) @ rest, w2)))"

definition usbutil_list :: "usb_world \<Rightarrow> string \<times> usb_world" where
  "usbutil_list w = list_lines (-1) (devices w) w"

definition digits_value :: "int \<Rightarrow> string \<Rightarrow> int" where
  "digits_value acc s = foldl (\<lambda>a c. 10 * a + digit_value c) acc s"

definition loc_example_dev :: usb_device where
  "loc_example_dev = \<lparr>dev_bus = 1, dev_addr = 4, idVendor = 0x0451, idProduct = 0xf430,
     dev_serial = Some ''TUSB3410'', bNumConfigurations = 1, dev_config = None, dev_kernel_driver = False\<rparr>"

definition serial_example_dev :: "string \<Rightarrow> nat \<Rightarrow> usb_device" where
  "serial_example_dev s n = \<lparr>dev_bus = 1, dev_addr = n, idVendor = 0x2047, idProduct = 0x0200,
     dev_serial = Some s, bNumConfigurations = 1, dev_config = None, dev_kernel_driver = False\<rparr>"

subsection \<open>Evaluation\<close>

lemma strtok_all_Nil: "strtok_all [] = []"
  by (simp add: strtok_all.simps)

subsection \<open>The lookup by identifiers\<close>

lemma find_append_opt:
  "find P (xs @ ys) = (case find P xs of None \<Rightarrow> find P ys | Some x \<Rightarrow> Some x)"
  by (induction xs) simp_all

lemma libusb_open_None_frame: "libusb_open dev w = ((rc, None), w1) \<Longrightarrow> io_frame w w1"
  by (auto simp: libusb_open_def take_reply_def log_call_def io_frame_def split: list.splits reply.splits)

lemma read_serial_kept:
  assumes "read_serial d n w = (r, w')" and "fresh_handles w"
  shows "handles_kept w w'"
proof -
  obtain rc ho w1 where o: "libusb_open d w = ((rc, ho), w1)" by (metis prod.exhaust)
  show ?thesis
  proof (cases ho)
    case None
    with assms(1) o libusb_open_None_frame [OF o [unfolded None]] show ?thesis
      by (simp add: read_serial_def io_frame_handles_kept)
  next
    case (Some h)
    obtain rb w2 where g: "libusb_get_string_descriptor_ascii d h n w1 = (rb, w2)" by (metis prod.exhaust)
    from assms(1) o Some g have "w' = libusb_close h w2"
      by (auto simp: read_serial_def split: prod.splits if_splits)
    with open_close_handles_kept [OF o [unfolded Some] string_desc_io_frame [OF g] assms(2)] show ?thesis
      by simp
  qed
qed

lemma find_by_id_loop_kept:
  "find_by_id_loop v p req ds found w = (r, w') \<Longrightarrow> fresh_handles w \<Longrightarrow> handles_kept w w'"
proof (induction ds arbitrary: found w)
  case Nil
  then show ?case by simp
next
  case (Cons d ds)
  show ?case
  proof (cases "idVendor d = v \<and> idProduct d = p \<and> req \<noteq> None")
    case True
    obtain sr w1 where rs: "read_serial d 128 w = (sr, w1)" by (metis prod.exhaust)
    note k = read_serial_kept [OF rs Cons.prems(2)]
    from True Cons.prems(1) rs obtain f' where "find_by_id_loop v p req ds f' w1 = (r, w')"
      by (auto split: option.splits if_splits)
    from Cons.IH [OF this handles_kept_fresh [OF k Cons.prems(2)]] k show ?thesis
      by (blast intro: handles_kept_trans)
  next
    case False
    with Cons show ?thesis by (auto split: if_splits)
  qed
qed

lemma find_device_kept: "find_device p s v pr w = (r, w') \<Longrightarrow> fresh_handles w \<Longrightarrow> handles_kept w w'"
  by (auto simp: find_device_def usbutil_find_by_id_def split: option.splits dest: find_by_id_loop_kept)

lemma find_device_fresh: "find_device p s v pr w = (r, w') \<Longrightarrow> fresh_handles w \<Longrightarrow> fresh_handles w'"
  by (blast dest: find_device_kept handles_kept_fresh)

lemma find_by_id_loop_None:
  "find_by_id_loop v p None ds found w =
     ((case find (\<lambda>d. idVendor d = v \<and> idProduct d = p) (rev ds) of None \<Rightarrow> found | Some d \<Rightarrow> Some d), w)"
  by (induction ds arbitrary: found) (auto simp: find_append_opt split: option.splits)

lemma find_device_no_serial:
  "find_device p None v pr w =
     ((case p of Some _ \<Rightarrow> usbutil_find_by_loc p w | None \<Rightarrow> find_by_id_ref v pr None w), w)"
  by (simp add: find_device_def usbutil_find_by_id_def find_by_id_loop_None find_by_id_ref_def
                serial_matches_def split: option.splits)

text \<open>
  A device that answers the serial read: both the open and the string request are
  acknowledged, and the buffer receives at most 127 characters of the serial.
\<close>

lemma read_serial_Ack:
  assumes "list_all (\<lambda>r. r = Ack) (script w)" and "2 \<le> length (script w)"
  shows "fst (read_serial d 128 w) = map_option (take 127) (dev_serial d) \<and>
         list_all (\<lambda>r. r = Ack) (script (snd (read_serial d 128 w))) \<and>
         length (script w) \<le> length (script (snd (read_serial d 128 w))) + 2"
proof -
  obtain rs where s: "script w = Ack # Ack # rs"
    using assms by (cases "script w" rule: remdups_adj.cases) auto
  have a: "list_all (\<lambda>r. r = Ack) rs" using assms(1) s by simp
  show ?thesis
    using a by (cases "dev_serial d")
      (simp_all add: read_serial_def libusb_open_def libusb_get_string_descriptor_ascii_def
         take_reply_def log_call_def libusb_close_def Let_def s)
qed

lemma find_by_id_loop_ref:
  assumes "list_all (\<lambda>r. r = Ack) (script w)" and "2 * length ds \<le> length (script w)"
  shows "fst (find_by_id_loop v p req ds found w) =
           (case find (\<lambda>d. idVendor d = v \<and> idProduct d = p \<and> serial_matches req d) (rev ds) of
              None \<Rightarrow> found | Some d \<Rightarrow> Some d)"
  using assms
proof (induction ds arbitrary: found w)
  case Nil
  then show ?case by simp
next
  case (Cons d ds)
  show ?case
  proof (cases "idVendor d = v \<and> idProduct d = p \<and> req \<noteq> None")
    case True
    then obtain s where req: "req = Some s" by auto
    obtain sr w1 where rs: "read_serial d 128 w = (sr, w1)" by (metis prod.exhaust)
    have two: "2 \<le> length (script w)" using Cons.prems(2) by simp
    from read_serial_Ack [OF Cons.prems(1) two, of d] rs have
      sr: "sr = map_option (take 127) (dev_serial d)" and a1: "list_all (\<lambda>r. r = Ack) (script w1)"
      and "length (script w) \<le> length (script w1) + 2" by simp_all
    with Cons.prems(2) have l1: "2 * length ds \<le> length (script w1)" by simp
    note ih = Cons.IH [OF a1 l1]
    from True req rs sr ih show ?thesis
      by (cases "dev_serial d") (auto simp: find_append_opt serial_matches_def split: option.splits)
  next
    case False
    then show ?thesis
    proof (cases "idVendor d = v \<and> idProduct d = p")
      case True
      with False Cons.prems Cons.IH [of w] show ?thesis
        by (auto simp: find_append_opt serial_matches_def split: option.splits)
    next
      case False
      with Cons.prems Cons.IH [of w] show ?thesis by (auto simp: find_append_opt split: option.splits)
    qed
  qed
qed

subsection \<open>Locations round trip\<close>

lemma atoi_digits_append:
  "list_all c_isdigit xs \<Longrightarrow> atoi_digits acc (xs @ ys) = atoi_digits (digits_value acc xs) ys"
  by (induction xs arbitrary: acc) (simp_all add: digits_value_def)

lemma dec_digit_char: "n < 10 \<Longrightarrow> c_isdigit (char_of (48 + n)) \<and> digit_value (char_of (48 + n)) = int n"
  by (simp add: c_isdigit_def digit_value_def)

lemma dec_digits_props:
  "list_all c_isdigit (dec_digits n) \<and> dec_digits n \<noteq> [] \<and> digits_value 0 (dec_digits n) = int n"
proof (induction n rule: dec_digits.induct)
  case (1 n)
  show ?case
  proof (cases "n < 10")
    case True
    then have "dec_digits n = [char_of (48 + n)]" by (subst dec_digits.simps) simp
    with True show ?thesis by (simp add: dec_digit_char digits_value_def)
  next
    case False
    have "int n = 10 * int (n div 10) + int (n mod 10)"
      using div_mult_mod_eq [of n 10] by linarith
    moreover have "n mod 10 < 10" by simp
    moreover have "dec_digits n = dec_digits (n div 10) @ [char_of (48 + n mod 10)]"
      using False by (subst dec_digits.simps) simp
    ultimately show ?thesis using False 1
      by (simp add: dec_digit_char digits_value_def)
  qed
qed

lemma length_dec_digits: "n < 10 ^ k \<Longrightarrow> 0 < k \<Longrightarrow> length (dec_digits n) \<le> k"
proof (induction n arbitrary: k rule: dec_digits.induct)
  case (1 n)
  show ?case
  proof (cases "n < 10")
    case True
    with 1 show ?thesis by (subst dec_digits.simps) simp
  next
    case False
    then obtain k' where k: "k = Suc k'" using 1(3) by (cases k) auto
    have "n div 10 < 10 ^ k'" using 1(2) k by simp
    moreover have "0 < k'" using False 1(2) k by (cases k') auto
    ultimately have "length (dec_digits (n div 10)) \<le> k'" using 1(1) False by blast
    with False k show ?thesis by (subst dec_digits.simps) simp
  qed
qed

lemma fmt03_props:
  "list_all c_isdigit (fmt03 n) \<and> fmt03 n \<noteq> [] \<and> digits_value 0 (fmt03 n) = int n"
proof -
  have z: "digits_value 0 (replicate k (CHR ''0'')) = 0" for k
    by (induction k) (simp_all add: digits_value_def digit_value_def)
  have "digits_value 0 (replicate k (CHR ''0'') @ xs) = digits_value 0 xs" for k xs
    using z [of k] by (simp add: digits_value_def)
  moreover have "c_isdigit (CHR ''0'')" by (simp add: c_isdigit_def)
  ultimately show ?thesis using dec_digits_props [of n]
    by (auto simp: fmt03_def list_all_iff)
qed

lemma atoi_fmt03: "atoi (fmt03 n) = int n"
proof -
  obtain c r where cr: "fmt03 n = c # r" using fmt03_props [of n] by (cases "fmt03 n") auto
  have d: "c_isdigit c" "list_all c_isdigit r" using fmt03_props [of n] cr by simp_all
  then have "\<not> c_isspace c" "c \<noteq> CHR ''-''" "c \<noteq> CHR ''+''"
    by (auto simp: c_isdigit_def c_isspace_def)
  moreover have "atoi_digits 0 (c # r) = int n"
    using atoi_digits_append [of "c # r" 0 "[]"] d fmt03_props [of n] cr by simp
  ultimately show ?thesis by (simp add: atoi_def cr)
qed

lemma digit_not_delim: "list_all c_isdigit s \<Longrightarrow> \<not> list_ex loc_delim s"
  by (induction s) (auto simp: c_isdigit_def loc_delim_def)

lemma strtok_two:
  assumes "a \<noteq> []" "b \<noteq> []" "\<not> list_ex loc_delim a" "\<not> list_ex loc_delim b"
  shows "strtok_all (a @ CHR '':'' # b) = [a, b]"
proof -
  have da: "dropWhile loc_delim (a @ xs) = a @ xs" for xs
    using assms(1,3) by (cases a) auto
  have ta: "takeWhile (\<lambda>c. \<not> loc_delim c) (a @ CHR '':'' # b) = a"
    using assms(3) by (simp add: takeWhile_append list_ex_iff loc_delim_def)
  have ra: "dropWhile (\<lambda>c. \<not> loc_delim c) (a @ CHR '':'' # b) = CHR '':'' # b"
    using assms(3) by (simp add: dropWhile_append list_ex_iff loc_delim_def)
  have db: "dropWhile loc_delim (CHR '':'' # b) = b"
    using assms(2,4) by (cases b) (auto simp: loc_delim_def)
  have tb: "takeWhile (\<lambda>c. \<not> loc_delim c) b = b" and rb: "dropWhile (\<lambda>c. \<not> loc_delim c) b = []"
    using assms(4) by (simp_all add: list_ex_iff)
  have s2: "strtok_all (CHR '':'' # b) = [b]"
    by (subst strtok_all.simps) (simp only: db tb rb strtok_all_Nil Let_def, simp add: assms(2))
  show ?thesis
    by (subst strtok_all.simps) (simp only: da [of "CHR '':'' # b"] ta ra s2 Let_def, simp add: assms(1))
qed

lemma find_by_loc_location:
  assumes "dev_bus d < 1000" and "dev_addr d < 1000"
  shows "usbutil_find_by_loc (Some (location_text d)) w =
           find (\<lambda>d'. dev_bus d' = dev_bus d \<and> dev_addr d' = dev_addr d) (rev (devices w))"
proof -
  have l: "length (fmt03 n) \<le> 3" if "n < 1000" for n
    using length_dec_digits [of n 3] that by (simp add: fmt03_def)
  have "take 63 (location_text d) = location_text d"
    using l [OF assms(1)] l [OF assms(2)] by (simp add: location_text_def)
  moreover have "strtok_all (location_text d) = [fmt03 (dev_bus d), fmt03 (dev_addr d)]"
    unfolding location_text_def using fmt03_props digit_not_delim
    by (simp add: strtok_two)
  ultimately show ?thesis by (simp add: usbutil_find_by_loc_def atoi_fmt03)
qed

lemma sublist_extend: "sublist xs ys \<Longrightarrow> sublist xs (ps @ ys @ ss)"
  unfolding sublist_def by (metis append.assoc)

lemma list_lines_Cons_shape:
  "fst (list_lines b (d # ds) w) =
     ((if b \<noteq> int (dev_bus d) then ''Devices on bus '' @ fmt03 (dev_bus d) @ '':'' @ [CHR 0x0A] else []) @ ''    '') @
     location_text d @
     (('' '' @ fmt04x (idVendor d) @ '':'' @ fmt04x (idProduct d) @ '' '' @ device_help d @
       (case fst (read_serial d 128 w) of Some s \<Rightarrow> '' [serial: '' @ s @ '']'' @ [CHR 0x0A] | None \<Rightarrow> [CHR 0x0A])) @
      fst (list_lines (int (dev_bus d)) ds (snd (read_serial d 128 w))))"
  by (simp split: prod.splits)

lemma list_lines_location: "d \<in> set ds \<Longrightarrow> sublist (location_text d) (fst (list_lines b ds w))"
proof (induction ds arbitrary: b w)
  case Nil
  then show ?case by simp
next
  case (Cons d' ds)
  show ?case
  proof (cases "d' = d")
    case True
    then show ?thesis unfolding list_lines_Cons_shape by (rule ssubst) (rule sublist_appendI)
  next
    case False
    with Cons have "sublist (location_text d) (fst (list_lines (int (dev_bus d')) ds (snd (read_serial d' 128 w))))"
      by simp
    then show ?thesis unfolding list_lines_Cons_shape
      using sublist_extend [of _ _ _ "[]"] by (metis append.assoc append_Nil2)
  qed
qed

text \<open>C30: For every device on the bus (bus and address below 1000), usbutil_list prints its location "bus:address" and usbutil_find_by_loc, given that text, finds a device at that bus and address.\<close>

theorem usbutil_list_location_roundtrip:
  assumes "d \<in> set (devices w)" and "dev_bus d < 1000" and "dev_addr d < 1000"
  shows "sublist (location_text d) (fst (usbutil_list w)) \<and>
         (\<exists>d'. usbutil_find_by_loc (Some (location_text d)) w = Some d' \<and>
               dev_bus d' = dev_bus d \<and> dev_addr d' = dev_addr d)"
proof -
  have "find (\<lambda>d'. dev_bus d' = dev_bus d \<and> dev_addr d' = dev_addr d) (rev (devices w)) \<noteq> None"
    using assms(1) by (auto simp: find_None_iff)
  then obtain d' where "find (\<lambda>d'. dev_bus d' = dev_bus d \<and> dev_addr d' = dev_addr d) (rev (devices w)) = Some d'"
    by blast
  then show ?thesis
    using find_by_loc_location [OF assms(2,3), of w] list_lines_location [OF assms(1)]
    by (auto simp: usbutil_list_def find_Some_iff)
qed

theorem usbutil_list_location_roundtrip_witness:
  "sublist (location_text loc_example_dev) (fst (usbutil_list (empty_world [loc_example_dev] []))) \<and>
   (\<exists>d'. usbutil_find_by_loc (Some (location_text loc_example_dev)) (empty_world [loc_example_dev] []) = Some d' \<and>
         dev_bus d' = 1 \<and> dev_addr d' = 4)"
proof -
  have m: "loc_example_dev \<in> set (devices (empty_world [loc_example_dev] []))" by (simp add: empty_world_def)
  have b: "dev_bus loc_example_dev < 1000" "dev_addr loc_example_dev < 1000" by (simp_all add: loc_example_dev_def)
  from usbutil_list_location_roundtrip [OF m b] show ?thesis by (simp add: loc_example_dev_def)
qed

text \<open>C10: The lookup by vendor, product and serial refines its specification: in a process whose handles are consistent, when the devices answer every serial read (every answer is an acknowledgement, at least two per device on the bus), usbutil_find_by_id returns exactly the device find_by_id_ref specifies, the last one on the bus with those identifiers whose serial (its first 127 characters) equals the requested one ignoring case, and the temporary handles of the serial reads leave the process holding the handles and claims it held.\<close>

theorem usbutil_find_by_id_refines:
  assumes "fresh_handles w" and "list_all (\<lambda>r. r = Ack) (script w)"
    and "2 * length (devices w) \<le> length (script w)"
  shows "fst (usbutil_find_by_id v p req w) = find_by_id_ref v p req w \<and>
         handles_kept w (snd (usbutil_find_by_id v p req w))"
  using find_by_id_loop_ref [OF assms(2,3), of v p req None]
    find_by_id_loop_kept [OF prod.collapse [symmetric] assms(1), of v p req "devices w" None]
  by (simp add: usbutil_find_by_id_def find_by_id_ref_def split: option.splits)

theorem usbutil_find_by_id_refines_witness:
  "fst (usbutil_find_by_id 0x2047 0x0200 (Some ''B2'')
          (empty_world [serial_example_dev ''b2'' 3, serial_example_dev ''A1'' 4] [Ack, Ack, Ack, Ack])) =
     Some (serial_example_dev ''b2'' 3) \<and>
   handles_kept (empty_world [serial_example_dev ''b2'' 3, serial_example_dev ''A1'' 4] [Ack, Ack, Ack, Ack])
     (snd (usbutil_find_by_id 0x2047 0x0200 (Some ''B2'')
             (empty_world [serial_example_dev ''b2'' 3, serial_example_dev ''A1'' 4] [Ack, Ack, Ack, Ack])))"
proof -
  let ?w = "empty_world [serial_example_dev ''b2'' 3, serial_example_dev ''A1'' 4] [Ack, Ack, Ack, Ack]"
  have f: "fresh_handles ?w" by (simp add: fresh_handles_def empty_world_def)
  have a: "list_all (\<lambda>r. r = Ack) (script ?w)" and l: "2 * length (devices ?w) \<le> length (script ?w)"
    by (simp_all add: empty_world_def)
  have r: "find_by_id_ref 0x2047 0x0200 (Some ''B2'') ?w = Some (serial_example_dev ''b2'' 3)"
    by (simp add: find_by_id_ref_def serial_matches_def empty_world_def serial_example_dev_def
                  strcasecmp_eq_def c_tolower_def) code_simp
  from usbutil_find_by_id_refines [OF f a l, of "0x2047" "0x0200" "Some ''B2''"] r show ?thesis by simp
qed

end
