(* ===== verification/Transport.thy ===== *)
theory Transport
  imports Usbutil
begin

text \<open>
  The transport contract (\<open>transport.h\<close>, not under \<open>src/\<close>: modelled from the spec),
  the endpoint scan that \<open>bslhid.c\<close> and \<open>cdc_acm.c\<close> share, and the two transfer
  loops that every backend repeats verbatim:
  \<^item> the send loop (\<open>while (len) { libusb_bulk_transfer (...); ... }\<close>), which retries
    after a timeout and stops only when every byte is accepted or a non-timeout
    error occurs; it has no deadline of its own;
  \<^item> the drain loop of \<open>flush\<close> (\<open>while (libusb_bulk_transfer (...) != 0);\<close>), which
    keeps reading while the read \<^emph>\<open>fails\<close> and stops at the first successful read.
  The send loop terminates in the model because every iteration consumes an answer of
  the device's script (and an exhausted script is a gone device, a fatal error). The
  drain loop does not always terminate: it is a \<open>partial_function (option)\<close>, and
  \<open>None\<close> is the loop that spins for ever.
\<close>

subsection \<open>The modem-line argument\<close>

definition TRANSPORT_MODEM_DTR :: nat where "TRANSPORT_MODEM_DTR = 1"
definition TRANSPORT_MODEM_RTS :: nat where "TRANSPORT_MODEM_RTS = 2"

definition modem_dtr :: "nat \<Rightarrow> bool" where
  "modem_dtr state \<longleftrightarrow> odd state"

definition modem_rts :: "nat \<Rightarrow> bool" where
  "modem_rts state \<longleftrightarrow> odd (state div 2)"

subsection \<open>The endpoint scan\<close>

unbundle bit_operations_syntax

text \<open>
  The endpoint scan of \<open>find_interface\<close>, identical in \<open>bslhid.c\<close> and \<open>cdc_acm.c\<close>:
  the last bulk IN and the last bulk OUT endpoint of an interface.
\<close>

fun scan_endpoints :: "ep_desc list \<Rightarrow> int \<times> int \<Rightarrow> int \<times> int" where
  "scan_endpoints [] io = io"
| "scan_endpoints (ep # eps) (ie, oe) =
     (if bmAttributes ep AND USB_ENDPOINT_TYPE_MASK \<noteq> USB_ENDPOINT_TYPE_BULK
      then scan_endpoints eps (ie, oe)
      else if bEndpointAddress ep AND USB_ENDPOINT_DIR_MASK \<noteq> 0
      then scan_endpoints eps (uint (bEndpointAddress ep), oe)
      else scan_endpoints eps (ie, uint (bEndpointAddress ep)))"

subsection \<open>The send loop\<close>

function send_loop :: "int \<Rightarrow> nat \<Rightarrow> byte list \<Rightarrow> usb_world \<Rightarrow> (usb_error + unit) \<times> usb_world" where
  "send_loop ep tmo data w =
     (if data = [] then (Inr (), w)
      else (case libusb_bulk_out ep data tmo w of ((rc, sent), w') \<Rightarrow>
              if rc \<noteq> 0 \<and> rc \<noteq> LIBUSB_ERROR_TIMEOUT then (Inl (E_transfer rc), w')
              else send_loop ep tmo (drop sent data) w'))"
  by pat_completeness auto
termination
  by (relation "measure (\<lambda>(ep, tmo, data, w). length (script w))")
     (auto simp: libusb_bulk_out_def take_reply_def elapse_def split: list.splits reply.splits)

declare send_loop.simps [simp del]

subsection \<open>The drain loop\<close>

partial_function (option) drain_in :: "int \<Rightarrow> nat \<Rightarrow> nat \<Rightarrow> usb_world \<Rightarrow> usb_world option" where
  "drain_in ep len tmo w =
     (case libusb_bulk_in ep len tmo w of ((rc, _), w') \<Rightarrow>
        if rc \<noteq> 0 then drain_in ep len tmo w' else Some w')"

declare drain_in.simps [code]


text \<open>
  A read succeeds (\<open>rc = 0\<close>) on an acknowledgement, a zero status, or data with a
  zero status that fits the buffer.
\<close>

definition read_ok :: "nat \<Rightarrow> reply \<Rightarrow> bool" where
  "read_ok len r \<longleftrightarrow> (case r of
      Ack \<Rightarrow> True
    | Fail rc \<Rightarrow> rc = 0
    | Part _ _ \<Rightarrow> False
    | Data rc d \<Rightarrow> rc = 0 \<and> length d \<le> len)"

subsection \<open>Properties of the loops\<close>

lemmas transport_modem_flags [simp] = TRANSPORT_MODEM_DTR_def TRANSPORT_MODEM_RTS_def

lemma send_loop_Nil [simp]: "send_loop ep tmo [] w = (Inr (), w)"
  by (simp add: send_loop.simps)

lemma send_loop_step:
  assumes "data \<noteq> []" and "libusb_bulk_out ep data tmo w = ((rc, sent), w1)"
  shows "send_loop ep tmo data w =
           (if rc \<noteq> 0 \<and> rc \<noteq> LIBUSB_ERROR_TIMEOUT then (Inl (E_transfer rc), w1)
            else send_loop ep tmo (drop sent data) w1)"
  using assms by (simp add: send_loop.simps [of ep tmo data w])

lemma send_loop_io_frame: "send_loop ep tmo data w = (r, w') \<Longrightarrow> io_frame w w'"
proof (induction ep tmo data w arbitrary: r w' rule: send_loop.induct)
  case (1 ep tmo data w)
  show ?case
  proof (cases "data = []")
    case True
    with "1.prems" show ?thesis by simp
  next
    case False
    obtain rc sent w1 where b: "libusb_bulk_out ep data tmo w = ((rc, sent), w1)"
      by (metis prod.exhaust)
    have f1: "io_frame w w1" using b by (rule bulk_out_io_frame)
    note step = send_loop_step [OF False b]
    show ?thesis
    proof (cases "rc \<noteq> 0 \<and> rc \<noteq> LIBUSB_ERROR_TIMEOUT")
      case True
      with "1.prems" step f1 show ?thesis by simp
    next
      case ok: False
      with "1.prems" step have "send_loop ep tmo (drop sent data) w1 = (r, w')"
        by auto
      with "1.IH" [OF False b [symmetric] refl ok] have "io_frame w1 w'" by simp
      with f1 show ?thesis by (rule io_frame_trans)
    qed
  qed
qed

lemma send_loop_ack:
  assumes "data \<noteq> []" and "script w = Ack # rs"
  shows "send_loop ep tmo data w = (Inr (), w\<lparr>script := rs, trace := trace w @ [BulkOut ep data]\<rparr>)"
proof -
  from assms(2) have "libusb_bulk_out ep data tmo w = ((0, length data), w\<lparr>script := rs, trace := trace w @ [BulkOut ep data]\<rparr>)"
    by (simp add: libusb_bulk_out_def take_reply_def log_call_def)
  with assms(1) show ?thesis by (simp add: send_loop_step)
qed

text \<open>C6: Timeouts are not fatal to the send loop and it has no deadline of its own: after any number n of timed-out transfers, an acknowledgement completes the send, having issued n + 1 transfers and waited n timeouts.\<close>

theorem send_loop_timeouts:
  assumes "data \<noteq> []" and "script w = replicate n (Fail LIBUSB_ERROR_TIMEOUT) @ Ack # rs"
  shows "send_loop ep tmo data w =
           (Inr (), w\<lparr>script := rs, trace := trace w @ replicate (Suc n) (BulkOut ep data),
                      clock := clock w + n * tmo\<rparr>)"
  using assms(2)
proof (induction n arbitrary: w)
  case 0
  then have "libusb_bulk_out ep data tmo w = ((0, length data), w\<lparr>script := rs, trace := trace w @ [BulkOut ep data]\<rparr>)"
    by (simp add: libusb_bulk_out_def take_reply_def log_call_def)
  with assms(1) show ?case by (simp add: send_loop_step)
next
  case (Suc n)
  let ?w1 = "w\<lparr>script := replicate n (Fail LIBUSB_ERROR_TIMEOUT) @ Ack # rs,
                trace := trace w @ [BulkOut ep data], clock := clock w + tmo\<rparr>"
  from Suc.prems have "libusb_bulk_out ep data tmo w = ((LIBUSB_ERROR_TIMEOUT, 0), ?w1)"
    by (simp add: libusb_bulk_out_def take_reply_def log_call_def elapse_def)
  then have "send_loop ep tmo data w = send_loop ep tmo data ?w1"
    using assms(1) by (simp add: send_loop_step)
  also have "\<dots> = (Inr (), ?w1\<lparr>script := rs, trace := trace ?w1 @ replicate (Suc n) (BulkOut ep data),
                      clock := clock ?w1 + n * tmo\<rparr>)"
    by (rule Suc.IH) simp
  finally show ?case by (simp add: replicate_append_same)
qed

lemma bulk_in_rc_zero_iff:
  assumes "libusb_bulk_in ep len tmo w = ((rc, d), w')"
  shows "rc = 0 \<longleftrightarrow> (case script w of [] \<Rightarrow> False | r # _ \<Rightarrow> read_ok len r)"
  using assms
  by (auto simp: libusb_bulk_in_def take_reply_def read_ok_def elapse_def log_call_def
           split: list.splits reply.splits if_splits)

lemma drain_in_step:
  assumes "libusb_bulk_in ep len tmo w = ((rc, d), w1)"
  shows "drain_in ep len tmo w = (if rc \<noteq> 0 then drain_in ep len tmo w1 else Some w1)"
  using assms by (simp add: drain_in.simps [of ep len tmo w])

lemma drain_in_returns:
  "list_ex (read_ok len) (script w) \<Longrightarrow> \<exists>w'. drain_in ep len tmo w = Some w'"
proof (induction "script w" arbitrary: w)
  case Nil
  then show ?case by simp
next
  case (Cons r rs)
  obtain rc d w1 where b: "libusb_bulk_in ep len tmo w = ((rc, d), w1)"
    by (metis prod.exhaust)
  have s1: "script w1 = rs"
    using bulk_in_script [OF b] Cons.hyps(2) [symmetric] by simp
  have rc: "rc = 0 \<longleftrightarrow> read_ok len r"
    using bulk_in_rc_zero_iff [OF b] Cons.hyps(2) [symmetric] by simp
  show ?case
  proof (cases "read_ok len r")
    case True
    with rc b show ?thesis by (simp add: drain_in_step)
  next
    case False
    with Cons.prems Cons.hyps(2) [symmetric] have "list_ex (read_ok len) (script w1)"
      using s1 by simp
    with Cons.hyps(1) [OF s1 [symmetric]] False rc b show ?thesis
      by (simp add: drain_in_step)
  qed
qed

lemma drain_in_needs_read:
  assumes "drain_in ep len tmo w = Some w'"
  shows "list_ex (read_ok len) (script w) \<and> io_frame w w'"
proof (rule drain_in.raw_induct [where P = "\<lambda>ep len tmo w w'. list_ex (read_ok len) (script w) \<and> io_frame w w'", OF _ assms])
  fix f ep len tmo w w'
  assume IH: "\<And>ep len tmo w w'. f ep len tmo w = Some w' \<Longrightarrow> list_ex (read_ok len) (script w) \<and> io_frame w w'"
    and eq: "(case libusb_bulk_in ep len tmo w of ((rc, _), w') \<Rightarrow> if rc \<noteq> 0 then f ep len tmo w' else Some w') = Some w'"
  obtain rc d w1 where b: "libusb_bulk_in ep len tmo w = ((rc, d), w1)"
    by (metis prod.exhaust)
  have f1: "io_frame w w1" using b by (rule bulk_in_io_frame)
  have s1: "script w1 = drop 1 (script w)" using b by (rule bulk_in_script)
  show "list_ex (read_ok len) (script w) \<and> io_frame w w'"
  proof (cases "rc = 0")
    case True
    with eq b f1 bulk_in_rc_zero_iff [OF b] show ?thesis
      by (auto split: list.splits)
  next
    case False
    with eq b have "f ep len tmo w1 = Some w'" by simp
    then have "list_ex (read_ok len) (script w1) \<and> io_frame w1 w'" by (rule IH)
    with s1 f1 show ?thesis
      by (cases "script w") (auto intro: io_frame_trans)
  qed
qed

text \<open>C7: The drain loop of flush returns exactly when some answer left in the device's script is a successful read; on a device that only fails it never returns.\<close>

theorem drain_in_terminates_iff:
  "drain_in ep len tmo w \<noteq> None \<longleftrightarrow> list_ex (read_ok len) (script w)"
  using drain_in_returns drain_in_needs_read by fastforce

lemma send_loop_trace:
  "send_loop ep tmo data w = (r, w') \<Longrightarrow>
     \<exists>cs. trace w' = trace w @ cs \<and> (\<forall>c\<in>set cs. \<exists>k<length data. c = BulkOut ep (drop k data))"
proof (induction ep tmo data w arbitrary: r w' rule: send_loop.induct)
  case (1 ep tmo data w)
  show ?case
  proof (cases "data = []")
    case True
    with "1.prems" show ?thesis by simp
  next
    case False
    obtain rc sent w1 where b: "libusb_bulk_out ep data tmo w = ((rc, sent), w1)"
      by (metis prod.exhaust)
    have t1: "trace w1 = trace w @ [BulkOut ep data]" using b by (rule bulk_out_trace)
    note step = send_loop_step [OF False b]
    show ?thesis
    proof (cases "rc \<noteq> 0 \<and> rc \<noteq> LIBUSB_ERROR_TIMEOUT")
      case True
      with "1.prems" step t1 False show ?thesis by auto
    next
      case ok: False
      with "1.prems" step have "send_loop ep tmo (drop sent data) w1 = (r, w')"
        by auto
      with "1.IH" [OF False b [symmetric] refl ok] obtain cs where
        cs: "trace w' = trace w1 @ cs"
        and each: "\<forall>c\<in>set cs. \<exists>k<length (drop sent data). c = BulkOut ep (drop k (drop sent data))"
        by blast
      have "\<forall>c\<in>set (BulkOut ep data # cs). \<exists>k<length data. c = BulkOut ep (drop k data)"
      proof
        fix c assume "c \<in> set (BulkOut ep data # cs)"
        then consider "c = BulkOut ep data" | "c \<in> set cs" by auto
        then show "\<exists>k<length data. c = BulkOut ep (drop k data)"
        proof cases
          case 1
          with False show ?thesis by (intro exI [of _ 0]) simp
        next
          case 2
          with each obtain k where "k < length (drop sent data)" "c = BulkOut ep (drop (sent + k) data)"
            by (auto simp: add.commute)
          then show ?thesis by (intro exI [of _ "sent + k"]) simp
        qed
      qed
      with cs t1 show ?thesis by (intro exI [of _ "BulkOut ep data # cs"]) simp
    qed
  qed
qed

text \<open>The first transfer of a non-empty send carries the caller's whole buffer.\<close>

lemma send_loop_first:
  assumes "data \<noteq> []" and "send_loop ep tmo data w = (r, w')"
  shows "\<exists>cs. trace w' = trace w @ BulkOut ep data # cs"
proof -
  obtain rc sent w1 where b: "libusb_bulk_out ep data tmo w = ((rc, sent), w1)"
    by (metis prod.exhaust)
  have t1: "trace w1 = trace w @ [BulkOut ep data]" using b by (rule bulk_out_trace)
  show ?thesis
  proof (cases "rc \<noteq> 0 \<and> rc \<noteq> LIBUSB_ERROR_TIMEOUT")
    case True
    with assms(2) send_loop_step [OF assms(1) b] t1 show ?thesis by auto
  next
    case False
    with assms(2) send_loop_step [OF assms(1) b] have "send_loop ep tmo (drop sent data) w1 = (r, w')"
      by auto
    from send_loop_trace [OF this] obtain cs where "trace w' = trace w1 @ cs" by blast
    with t1 show ?thesis by auto
  qed
qed

lemma drain_in_first_ok [usb_simps]:
  assumes "script w \<noteq> []" and "read_ok len (hd (script w))"
  shows "drain_in ep len tmo w = Some (snd (libusb_bulk_in ep len tmo w))"
proof -
  obtain rc d w1 where b: "libusb_bulk_in ep len tmo w = ((rc, d), w1)" by (metis prod.exhaust)
  from assms have "rc = 0" using bulk_in_rc_zero_iff [OF b] by (auto split: list.splits)
  with b show ?thesis by (simp add: drain_in_step)
qed

lemma drain_in_first_fail [usb_simps]:
  assumes "script w \<noteq> []" and "\<not> read_ok len (hd (script w))"
  shows "drain_in ep len tmo w = drain_in ep len tmo (snd (libusb_bulk_in ep len tmo w))"
proof -
  obtain rc d w1 where b: "libusb_bulk_in ep len tmo w = ((rc, d), w1)" by (metis prod.exhaust)
  from assms have "rc \<noteq> 0" using bulk_in_rc_zero_iff [OF b] by (auto split: list.splits)
  with b show ?thesis by (simp add: drain_in_step)
qed

theorem send_loop_timeouts_witness:
  "[7 :: byte] \<noteq> [] \<and>
   script (empty_world [] [Fail (-7), Fail (-7), Ack]) = replicate 2 (Fail LIBUSB_ERROR_TIMEOUT) @ Ack # [] \<and>
   send_loop 1 30000 [7] (empty_world [] [Fail (-7), Fail (-7), Ack]) =
     (Inr (), (empty_world [] [])\<lparr>trace := replicate 3 (BulkOut 1 [7]), clock := 60000\<rparr>)"
proof -
  have h1: "[7 :: byte] \<noteq> []" by simp
  have h2: "script (empty_world [] [Fail (-7), Fail (-7), Ack]) = replicate 2 (Fail LIBUSB_ERROR_TIMEOUT) @ Ack # []"
    by (simp add: empty_world_def numeral_2_eq_2)
  from send_loop_timeouts [OF h1 h2, of 1 30000] h1 h2 show ?thesis
    by (simp add: empty_world_def numeral_3_eq_3)
qed

end
