(* ===== verification/Bslhid.thy ===== *)
theory Bslhid
  imports Transport
begin

unbundle bit_operations_syntax

text \<open>
  The USB-HID framing backend, \<open>src/transport/bslhid.c\<close>. The transport record is
  \<open>struct bslhid_transport\<close>; \<open>hid_handle\<close> is the C pointer \<open>tr->handle\<close> (\<open>None\<close>
  is \<open>NULL\<close>), which may point to a handle that is no longer open in the world.
  Every operation is the C function of the same name, with the Linux build's
  preprocessor branches (\<open>__linux__\<close> in, \<open>__Windows__\<close> and \<open>__APPLE__\<close> out).
\<close>

definition BSLHID_VID :: "16 word" where "BSLHID_VID = 0x2047"
definition BSLHID_PID :: "16 word" where "BSLHID_PID = 0x0200"
definition BSLHID_CLASS :: byte where "BSLHID_CLASS = 3"
definition BSLHID_XFER_SIZE :: nat where "BSLHID_XFER_SIZE = 64"
definition BSLHID_MTU :: nat where "BSLHID_MTU = BSLHID_XFER_SIZE - 2"
definition BSLHID_HEADER :: byte where "BSLHID_HEADER = 0x3F"
definition BSLHID_TIMEOUT :: nat where "BSLHID_TIMEOUT = 5000"

record bslhid_transport =
  hid_cfg_number :: nat
  hid_int_number :: nat
  hid_handle :: "handle option"
  hid_in_ep :: int
  hid_out_ep :: int
  hid_path :: string
  hid_serial :: string

text \<open>The instance after \<open>malloc\<close> and \<open>memset (tr, 0, sizeof (*tr))\<close>.\<close>

definition bslhid_zero :: bslhid_transport where
  "bslhid_zero = \<lparr>hid_cfg_number = 0, hid_int_number = 0, hid_handle = None,
                  hid_in_ep = 0, hid_out_ep = 0, hid_path = [], hid_serial = []\<rparr>"

subsection \<open>Interface discovery and open\<close>

text \<open>
  The interface loop: the first HID interface with a bulk pair wins; the interface
  number recorded is the loop index \<open>i\<close>. A HID interface without a pair leaves its
  partial scan in \<open>in_ep\<close> and \<open>out_ep\<close>.
\<close>

fun hid_find_in ::
  "nat \<Rightarrow> nat \<Rightarrow> intf_desc list \<Rightarrow> bslhid_transport \<Rightarrow> (usb_error + unit) \<times> bslhid_transport" where
  "hid_find_in cfg i [] tr = (Inl E_no_interface, tr)"
| "hid_find_in cfg i (d # ds) tr =
     (if bInterfaceClass d \<noteq> BSLHID_CLASS then hid_find_in cfg (Suc i) ds tr
      else (case scan_endpoints (endpoints d) (-1, -1) of (ie, oe) \<Rightarrow>
              if 0 \<le> ie \<and> 0 \<le> oe
              then (Inr (), tr\<lparr>hid_in_ep := ie, hid_out_ep := oe, hid_cfg_number := cfg,
                               hid_int_number := i\<rparr>)
              else hid_find_in cfg (Suc i) ds (tr\<lparr>hid_in_ep := ie, hid_out_ep := oe\<rparr>)))"

definition bslhid_find_interface ::
  "bslhid_transport \<Rightarrow> usb_device \<Rightarrow> (usb_error + unit) \<times> bslhid_transport" where
  "bslhid_find_interface tr dev = (case dev_config dev of
      None \<Rightarrow> (Inl E_config, tr)
    | Some c \<Rightarrow> hid_find_in (bConfigurationValue c) 0 (interfaces c) tr)"

text \<open>
  \<open>open_device\<close>: find the interface, open, detach a kernel driver, claim. A failed
  \<open>libusb_open\<close> does not write the handle; a failed claim closes the handle but
  leaves \<open>tr->handle\<close> pointing to it.
\<close>

definition bslhid_open_device ::
  "bslhid_transport \<Rightarrow> usb_device \<Rightarrow> usb_world \<Rightarrow> (usb_error + unit) \<times> bslhid_transport \<times> usb_world" where
  "bslhid_open_device tr dev w =
     (case bslhid_find_interface tr dev of
        (Inl e, tr1) \<Rightarrow> (Inl e, tr1, w)
      | (Inr _, tr1) \<Rightarrow>
          (case libusb_open dev w of ((rc, ho), w1) \<Rightarrow>
             let tr2 = (case ho of Some h \<Rightarrow> tr1\<lparr>hid_handle := Some h\<rparr> | None \<Rightarrow> tr1) in
             (case hid_handle tr2 of
                None \<Rightarrow> (Inl (E_open rc), tr2, w1)
              | Some h \<Rightarrow>
                  (case libusb_claim_interface h (hid_int_number tr2)
                          (kernel_detach dev (hid_int_number tr2) w1) of (rc2, w2) \<Rightarrow>
                     if rc2 \<noteq> 0 then (Inl (E_claim rc2), tr2, libusb_close h w2)
                     else (Inr (), tr2, w2)))))"

subsection \<open>Operations\<close>

definition bslhid_destroy :: "bslhid_transport \<Rightarrow> usb_world \<Rightarrow> usb_world" where
  "bslhid_destroy tr w = (case hid_handle tr of
      None \<Rightarrow> w
    | Some h \<Rightarrow> libusb_close h (libusb_release_interface h (hid_int_number tr) w))"

definition bslhid_flush :: "bslhid_transport \<Rightarrow> usb_world \<Rightarrow> usb_world option" where
  "bslhid_flush tr w = (case hid_handle tr of
      None \<Rightarrow> Some w
    | Some _ \<Rightarrow> drain_in (hid_in_ep tr) BSLHID_XFER_SIZE 100 w)"

text \<open>
  The frame \<open>bslhid_send\<close> builds in \<open>outbuf\<close>: filler \<open>0xAC\<close>, the header, the
  length byte, the payload.
\<close>

definition bslhid_frame :: "byte list \<Rightarrow> byte list" where
  "bslhid_frame data =
     memcpy_at 2 data ((replicate BSLHID_XFER_SIZE 0xAC)[0 := BSLHID_HEADER, 1 := of_nat (length data)])"

text \<open>
  \<open>bslhid_send\<close>: after the handle and MTU checks it builds \<open>outbuf\<close> and then hands
  \<open>data\<close>, not \<open>outbuf\<close>, to the send loop.
\<close>

definition bslhid_send :: "bslhid_transport \<Rightarrow> byte list \<Rightarrow> usb_world \<Rightarrow> (usb_error + unit) \<times> usb_world" where
  "bslhid_send tr data w = (case hid_handle tr of
      None \<Rightarrow> (Inl E_suspended, w)
    | Some _ \<Rightarrow>
        if BSLHID_MTU < length data then (Inl (E_mtu (length data)), w)
        else (let outbuf = bslhid_frame data
              in send_loop (hid_out_ep tr) BSLHID_TIMEOUT data w))"

text \<open>The checks \<open>bslhid_recv\<close> makes on the \<open>r\<close> bytes of one transfer.\<close>

definition hid_unframe :: "nat \<Rightarrow> byte list \<Rightarrow> usb_error + byte list" where
  "hid_unframe max_len inbuf =
     (if length inbuf < 2 then Inl E_short_transfer
      else if inbuf ! 0 \<noteq> BSLHID_HEADER then Inl E_bad_header
      else (let len = unat (inbuf ! 1) in
            if max_len < len \<or> length inbuf < len + 2 then Inl (E_bad_length len (length inbuf))
            else Inr (take len (drop 2 inbuf))))"

definition bslhid_recv :: "bslhid_transport \<Rightarrow> nat \<Rightarrow> usb_world \<Rightarrow> (usb_error + byte list) \<times> usb_world" where
  "bslhid_recv tr max_len w = (case hid_handle tr of
      None \<Rightarrow> (Inl E_suspended, w)
    | Some _ \<Rightarrow>
        (case libusb_bulk_in (hid_in_ep tr) BSLHID_XFER_SIZE BSLHID_TIMEOUT w of ((rc, inbuf), w') \<Rightarrow>
           if rc \<noteq> 0 \<and> rc \<noteq> LIBUSB_ERROR_TIMEOUT then (Inl (E_transfer rc), w')
           else (hid_unframe max_len inbuf, w')))"

definition bslhid_set_modem :: "bslhid_transport \<Rightarrow> nat \<Rightarrow> usb_world \<Rightarrow> (usb_error + unit) \<times> usb_world" where
  "bslhid_set_modem tr state w = (Inl E_unsupported, w)"

definition bslhid_suspend :: "bslhid_transport \<Rightarrow> usb_world \<Rightarrow> bslhid_transport \<times> usb_world" where
  "bslhid_suspend tr w = (case hid_handle tr of
      None \<Rightarrow> (tr, w)
    | Some h \<Rightarrow> (tr\<lparr>hid_handle := None\<rparr>, libusb_close h (libusb_release_interface h (hid_int_number tr) w)))"

text \<open>\<open>bslhid_resume\<close> relocates the device by the recorded \<open>path\<close> only.\<close>

definition bslhid_resume ::
  "bslhid_transport \<Rightarrow> usb_world \<Rightarrow> (usb_error + unit) \<times> bslhid_transport \<times> usb_world" where
  "bslhid_resume tr w = (case hid_handle tr of
      Some _ \<Rightarrow> (Inr (), tr, w)
    | None \<Rightarrow>
        (case usbutil_find_by_loc (Some (hid_path tr)) w of
           None \<Rightarrow> (Inl E_not_found, tr, w)
         | Some dev \<Rightarrow> bslhid_open_device tr dev w))"

text \<open>
  \<open>bslhid_open\<close>: record the path (at most 7 characters) or the serial (at most 127),
  locate, open, flush. With neither a path nor a serial the C code calls
  \<open>strlen (NULL)\<close>. The flush may spin for ever, hence the \<open>option\<close>.
\<close>

definition bslhid_open ::
  "string option \<Rightarrow> string option \<Rightarrow> usb_world \<Rightarrow> ((usb_error + bslhid_transport) \<times> usb_world) option" where
  "bslhid_open dev_path requested_serial w =
     (case (dev_path, requested_serial) of
        (None, None) \<Rightarrow> Some (Inl E_null_deref, w)
      | _ \<Rightarrow>
        (let tr = (case dev_path of
                     Some p \<Rightarrow> bslhid_zero\<lparr>hid_path := take 7 p\<rparr>
                   | None \<Rightarrow> bslhid_zero\<lparr>hid_serial := take 127 (the requested_serial)\<rparr>);
             dev = (case dev_path of
                      Some p \<Rightarrow> (usbutil_find_by_loc (Some p) w, w)
                    | None \<Rightarrow> usbutil_find_by_id BSLHID_VID BSLHID_PID requested_serial w)
         in case dev of
              (None, w0) \<Rightarrow> Some (Inl E_not_found, w0)
            | (Some d, w0) \<Rightarrow>
                (case bslhid_open_device tr d w0 of
                   (Inl e, _, w1) \<Rightarrow> Some (Inl e, w1)
                 | (Inr _, tr1, w1) \<Rightarrow> map_option (\<lambda>w2. (Inr tr1, w2)) (bslhid_flush tr1 w1))))"

text \<open>
  The invariant the operations keep: a non-null handle is open in the world and its
  interface is claimed on it.
\<close>

definition bslhid_ok :: "bslhid_transport \<Rightarrow> usb_world \<Rightarrow> bool" where
  "bslhid_ok tr w \<longleftrightarrow> (case hid_handle tr of
      None \<Rightarrow> True
    | Some h \<Rightarrow> h \<in> set (open_handles w) \<and> (h, hid_int_number tr) \<in> set (claimed w))"

subsection \<open>An example configuration\<close>

text \<open>
  A BSL HID device at \<open>1:2\<close> whose HID interface has a bulk IN endpoint \<open>0x81\<close>, an
  interrupt endpoint and a bulk OUT endpoint \<open>0x01\<close>; the witnesses run the backend on it.
\<close>

definition hid_example_dev :: usb_device where
  "hid_example_dev = \<lparr>dev_bus = 1, dev_addr = 2, idVendor = 0x2047, idProduct = 0x0200,
     dev_serial = Some ''BSL01'', bNumConfigurations = 1,
     dev_config = Some \<lparr>bConfigurationValue = 1, interfaces =
       [\<lparr>bInterfaceClass = 3, bInterfaceNumber = 0,
         endpoints = [\<lparr>bmAttributes = 2, bEndpointAddress = 0x81\<rparr>,
                      \<lparr>bmAttributes = 3, bEndpointAddress = 0x82\<rparr>,
                      \<lparr>bmAttributes = 2, bEndpointAddress = 0x01\<rparr>]\<rparr>]\<rparr>,
     dev_kernel_driver = True\<rparr>"

definition hid_example_w0 :: usb_world where
  "hid_example_w0 = empty_world [hid_example_dev] [Ack, Ack, Ack]"

definition hid_example_tr :: bslhid_transport where
  "hid_example_tr = bslhid_zero\<lparr>hid_cfg_number := 1, hid_handle := Some 0, hid_in_ep := 0x81,
                                 hid_out_ep := 1, hid_path := ''1:2''\<rparr>"

definition hid_example_w1 :: usb_world where
  "hid_example_w1 = hid_example_w0\<lparr>script := [], trace := [Open 1 2, Detach 0, Claim 0, BulkIn 0x81 64],
                                   next_handle := 1, open_handles := [0], claimed := [(0, 0)]\<rparr>"

definition hid_example_w2 :: usb_world where
  "hid_example_w2 = (empty_world [hid_example_dev] [])\<lparr>trace := [Open 1 2, Detach 0, Claim 0],
                                                      next_handle := 1, open_handles := [0], claimed := [(0, 0)]\<rparr>"

text \<open>The same device found by its serial number: the lookup's serial read takes two answers.\<close>

definition hid_serial_w0 :: usb_world where
  "hid_serial_w0 = empty_world [hid_example_dev] [Ack, Ack, Ack, Ack, Ack]"

subsection \<open>Frames\<close>

lemmas bslhid_consts [simp] =
  BSLHID_VID_def BSLHID_PID_def BSLHID_CLASS_def BSLHID_XFER_SIZE_def BSLHID_MTU_def
  BSLHID_HEADER_def BSLHID_TIMEOUT_def

lemma bslhid_frame_eq:
  assumes "length data \<le> BSLHID_MTU"
  shows "bslhid_frame data = BSLHID_HEADER # of_nat (length data) # data @ replicate (BSLHID_MTU - length data) 0xAC"
proof -
  have "replicate BSLHID_XFER_SIZE (0xAC::byte) = 0xAC # 0xAC # replicate BSLHID_MTU 0xAC"
    by (simp add: numeral_eq_Suc)
  then have "(replicate BSLHID_XFER_SIZE (0xAC::byte))[0 := BSLHID_HEADER, 1 := of_nat (length data)]
      = BSLHID_HEADER # of_nat (length data) # replicate BSLHID_MTU 0xAC"
    by simp
  with assms show ?thesis
    by (simp add: bslhid_frame_def memcpy_at_def)
qed

lemma hid_unframe_frame:
  assumes "length data \<le> BSLHID_MTU" "length data \<le> max_len"
  shows "hid_unframe max_len (bslhid_frame data) = Inr data"
  using assms by (simp add: bslhid_frame_eq hid_unframe_def)

lemma length_bslhid_frame: "BSLHID_XFER_SIZE \<le> length (bslhid_frame p)"
  by (simp add: bslhid_frame_def memcpy_at_def)

subsection \<open>Open, suspend and resume\<close>

lemma hid_find_in_handle:
  "hid_find_in cfg i ds tr = (r, tr') \<Longrightarrow> hid_handle tr' = hid_handle tr \<and> hid_path tr' = hid_path tr \<and> hid_serial tr' = hid_serial tr"
  by (induction cfg i ds tr rule: hid_find_in.induct) (auto split: if_splits prod.splits)

lemma bslhid_find_interface_handle:
  "bslhid_find_interface tr dev = (r, tr') \<Longrightarrow> hid_handle tr' = hid_handle tr \<and> hid_path tr' = hid_path tr \<and> hid_serial tr' = hid_serial tr"
  by (auto simp: bslhid_find_interface_def dest: hid_find_in_handle split: option.splits)

lemma bslhid_find_interface_error:
  "bslhid_find_interface tr dev = (Inl e, tr') \<Longrightarrow> e = E_config \<or> e = E_no_interface"
proof -
  have "hid_find_in cfg i ds tr = (Inl e, tr') \<Longrightarrow> e = E_no_interface" for cfg i ds tr
    by (induction cfg i ds tr rule: hid_find_in.induct) (auto split: if_splits prod.splits)
  then show "bslhid_find_interface tr dev = (Inl e, tr') \<Longrightarrow> e = E_config \<or> e = E_no_interface"
    by (auto simp: bslhid_find_interface_def split: option.splits)
qed

text \<open>The three outcomes of \<open>open_device\<close> from a null handle.\<close>

lemma bslhid_open_device_cases:
  assumes "bslhid_open_device tr dev w = (r, tr', w')" and "hid_handle tr = None"
  shows "hid_path tr' = hid_path tr \<and> hid_serial tr' = hid_serial tr \<and>
         (case r of
            Inr _ \<Rightarrow> hid_handle tr' = Some (next_handle w) \<and>
                      open_handles w' = next_handle w # open_handles w \<and>
                      claimed w' = (next_handle w, hid_int_number tr') # claimed w
          | Inl (E_claim rc) \<Rightarrow> hid_handle tr' = Some (next_handle w) \<and>
                      open_handles w' = removeAll (next_handle w) (next_handle w # open_handles w) \<and>
                      claimed w' = filter (\<lambda>c. fst c \<noteq> next_handle w) (claimed w)
          | Inl _ \<Rightarrow> hid_handle tr' = None \<and> open_handles w' = open_handles w \<and> claimed w' = claimed w)"
proof -
  obtain fr tr1 where fi: "bslhid_find_interface tr dev = (fr, tr1)" by (metis prod.exhaust)
  note h1 = bslhid_find_interface_handle [OF fi]
  show ?thesis
  proof (cases fr)
    case (Inl e)
    with assms fi have "r = Inl e" "tr' = tr1" "w' = w"
      by (simp_all add: bslhid_open_device_def)
    with h1 bslhid_find_interface_error [of tr dev e tr1] fi Inl assms(2) show ?thesis
      by auto
  next
    case (Inr u)
    obtain rc ho w1 where op: "libusb_open dev w = ((rc, ho), w1)" by (metis prod.exhaust)
    show ?thesis
    proof (cases ho)
      case None
      have "r = Inl (E_open rc) \<and> tr' = tr1 \<and> w' = w1"
        using assms fi h1 Inr op None by (simp add: bslhid_open_device_def)
      with h1 assms(2) libusb_open_None [OF op [unfolded None]] show ?thesis
        by auto
    next
      case (Some h)
      note o = libusb_open_Some [OF op [unfolded Some]]
      obtain rc2 w2 where cl: "libusb_claim_interface h (hid_int_number tr1) (kernel_detach dev (hid_int_number tr1) w1) = (rc2, w2)"
        by (metis prod.exhaust)
      note c = libusb_claim_effect [OF cl]
      have eq: "bslhid_open_device tr dev w =
          (if rc2 \<noteq> 0 then (Inl (E_claim rc2), tr1\<lparr>hid_handle := Some h\<rparr>, libusb_close h w2)
           else (Inr (), tr1\<lparr>hid_handle := Some h\<rparr>, w2))"
        using fi Inr op Some cl by (simp add: bslhid_open_device_def)
      show ?thesis
      proof (cases "rc2 = 0")
        case True
        with assms(1) eq have "r = Inr ()" "tr' = tr1\<lparr>hid_handle := Some h\<rparr>" "w' = w2" by simp_all
        with True o c h1 show ?thesis by simp
      next
        case False
        with assms(1) eq have "r = Inl (E_claim rc2)" "tr' = tr1\<lparr>hid_handle := Some h\<rparr>" "w' = libusb_close h w2" by simp_all
        with False o c h1 show ?thesis by simp
      qed
    qed
  qed
qed

lemma bslhid_ok_io_frame: "io_frame w w' \<Longrightarrow> bslhid_ok tr w' = bslhid_ok tr w"
  by (auto simp: bslhid_ok_def io_frame_def split: option.splits)

lemma bslhid_flush_io_frame: "bslhid_flush tr w = Some w' \<Longrightarrow> io_frame w w'"
  by (auto simp: bslhid_flush_def dest: drain_in_needs_read split: option.splits)

lemma bslhid_send_io_frame: "bslhid_send tr data w = (r, w') \<Longrightarrow> io_frame w w'"
  by (auto simp: bslhid_send_def simp del: bslhid_consts dest: send_loop_io_frame split: option.splits if_splits)

lemma bslhid_recv_io_frame: "bslhid_recv tr m w = (r, w') \<Longrightarrow> io_frame w w'"
  by (auto simp: bslhid_recv_def simp del: bslhid_consts dest: bulk_in_io_frame split: option.splits prod.splits if_splits)

lemma bslhid_open_find:
  "(case p of Some q \<Rightarrow> (usbutil_find_by_loc (Some q) w, w) | None \<Rightarrow> usbutil_find_by_id BSLHID_VID BSLHID_PID s w) =
     find_device p s BSLHID_VID BSLHID_PID w"
  by (simp add: find_device_def split: option.splits)

lemma bslhid_open_Inr:
  assumes "bslhid_open p s w = Some (Inr tr, w1)"
  shows "\<exists>wl tr0 d w0 u. find_device p s BSLHID_VID BSLHID_PID w = (Some d, wl) \<and>
           bslhid_open_device tr0 d wl = (Inr u, tr, w0) \<and> hid_handle tr0 = None \<and>
           bslhid_flush tr w0 = Some w1 \<and> hid_path tr0 = (case p of Some q \<Rightarrow> take 7 q | None \<Rightarrow> [])"
  using assms unfolding bslhid_open_def bslhid_open_find
  by (auto simp: bslhid_zero_def Let_def simp del: bslhid_consts
           split: option.splits prod.splits sum.splits) force+

lemma bslhid_open_Inl:
  assumes "bslhid_open p s w = Some (Inl e, w1)"
  shows "\<exists>r0 wl. find_device p s BSLHID_VID BSLHID_PID w = (r0, wl) \<and>
           (w1 = wl \<or> (\<exists>tr0 d tr'. bslhid_open_device tr0 d wl = (Inl e, tr', w1) \<and> hid_handle tr0 = None))"
proof (cases "p = None \<and> s = None")
  case True
  with assms show ?thesis by (auto simp: bslhid_open_def find_device_no_serial)
next
  case False
  with assms show ?thesis unfolding bslhid_open_def bslhid_open_find
    by (auto simp: bslhid_zero_def Let_def simp del: bslhid_consts
             split: option.splits prod.splits sum.splits) force+
qed

lemma bslhid_resume_open_device:
  assumes "bslhid_resume tr w = (r, tr', w')" and "hid_handle tr = None"
  shows "(r = Inl E_not_found \<and> tr' = tr \<and> w' = w) \<or>
         (\<exists>dev. usbutil_find_by_loc (Some (hid_path tr)) w = Some dev \<and> bslhid_open_device tr dev w = (r, tr', w'))"
  using assms by (auto simp: bslhid_resume_def split: option.splits)

lemma bslhid_suspend_eq:
  "bslhid_suspend tr w = (tr', w') \<Longrightarrow> tr' = tr\<lparr>hid_handle := None\<rparr>"
  by (auto simp: bslhid_suspend_def split: option.splits)

lemma hid_find_in_det:
  "hid_find_in cfg i ds tr1 = (Inr u1, tr1') \<Longrightarrow> hid_find_in cfg i ds tr2 = (r2, tr2') \<Longrightarrow>
     r2 = Inr u1 \<and> hid_in_ep tr2' = hid_in_ep tr1' \<and> hid_out_ep tr2' = hid_out_ep tr1' \<and>
     hid_int_number tr2' = hid_int_number tr1'"
proof (induction ds arbitrary: i tr1 tr2 tr1' tr2' r2)
  case Nil
  then show ?case by simp
next
  case (Cons d ds)
  obtain ie oe where sc: "scan_endpoints (endpoints d) (-1, -1) = (ie, oe)" by (metis prod.exhaust)
  show ?case
  proof (cases "bInterfaceClass d \<noteq> BSLHID_CLASS")
    case True
    with Cons.prems have "hid_find_in cfg (Suc i) ds tr1 = (Inr u1, tr1')"
      "hid_find_in cfg (Suc i) ds tr2 = (r2, tr2')" by simp_all
    then show ?thesis by (rule Cons.IH)
  next
    case False
    show ?thesis
    proof (cases "0 \<le> ie \<and> 0 \<le> oe")
      case True
      with False sc Cons.prems show ?thesis by auto
    next
      case nf: False
      with False sc Cons.prems have
        "hid_find_in cfg (Suc i) ds (tr1\<lparr>hid_in_ep := ie, hid_out_ep := oe\<rparr>) = (Inr u1, tr1')"
        "hid_find_in cfg (Suc i) ds (tr2\<lparr>hid_in_ep := ie, hid_out_ep := oe\<rparr>) = (r2, tr2')"
        by simp_all
      then show ?thesis by (rule Cons.IH)
    qed
  qed
qed

lemma bslhid_find_interface_det:
  "bslhid_find_interface tr1 dev = (Inr u1, tr1') \<Longrightarrow> bslhid_find_interface tr2 dev = (r2, tr2') \<Longrightarrow>
     r2 = Inr u1 \<and> hid_in_ep tr2' = hid_in_ep tr1' \<and> hid_out_ep tr2' = hid_out_ep tr1'"
  by (auto simp: bslhid_find_interface_def split: option.splits dest: hid_find_in_det)

lemma bslhid_open_device_Inr:
  assumes "bslhid_open_device tr dev w = (Inr u, tr', w')"
  shows "\<exists>tr1. bslhid_find_interface tr dev = (Inr u, tr1) \<and> hid_in_ep tr' = hid_in_ep tr1 \<and>
               hid_out_ep tr' = hid_out_ep tr1"
proof -
  obtain fr tr1 where fi: "bslhid_find_interface tr dev = (fr, tr1)" by (metis prod.exhaust)
  obtain rc ho w1 where op: "libusb_open dev w = ((rc, ho), w1)" by (metis prod.exhaust)
  show ?thesis
  proof (cases fr)
    case (Inl e)
    with assms fi show ?thesis by (simp add: bslhid_open_device_def)
  next
    case (Inr v)
    have "hid_in_ep tr' = hid_in_ep tr1 \<and> hid_out_ep tr' = hid_out_ep tr1"
      using assms fi op Inr
      by (auto simp: bslhid_open_device_def Let_def split: option.splits prod.splits if_splits)
    with fi Inr show ?thesis by simp
  qed
qed

lemma bslhid_send_cong:
  "(hid_handle tr = None \<longleftrightarrow> hid_handle tr' = None) \<Longrightarrow> hid_out_ep tr' = hid_out_ep tr \<Longrightarrow>
     bslhid_send tr' = bslhid_send tr"
  by (auto simp: fun_eq_iff bslhid_send_def simp del: bslhid_consts split: option.splits)

lemma bslhid_recv_cong:
  "(hid_handle tr = None \<longleftrightarrow> hid_handle tr' = None) \<Longrightarrow> hid_in_ep tr' = hid_in_ep tr \<Longrightarrow>
     bslhid_recv tr' = bslhid_recv tr"
  by (auto simp: fun_eq_iff bslhid_recv_def simp del: bslhid_consts split: option.splits)

lemmas hid_eval_simps = hid_example_w0_def empty_world_def hid_example_dev_def bslhid_open_def
      usbutil_find_by_loc_def strtok_all.simps loc_delim_def atoi_def c_isspace_def c_isdigit_def
      digit_value_def bslhid_open_device_def bslhid_find_interface_def bslhid_zero_def
      bslhid_flush_def read_ok_def usb_simps hid_example_tr_def

lemma hid_example_open:
  "bslhid_open (Some ''1:2'') None hid_example_w0 = Some (Inr hid_example_tr, hid_example_w1)"
  by (simp add: hid_eval_simps hid_example_w1_def)

subsection \<open>Properties\<close>

text \<open>C1: For a payload of at most 62 bytes, the frame bslhid_send builds in its buffer is 64 bytes: the header 0x3F, the payload length, the payload, then the filler 0xAC up to the end.\<close>

theorem bslhid_frame_layout:
  assumes "length data \<le> BSLHID_MTU"
  shows "length (bslhid_frame data) = BSLHID_XFER_SIZE \<and>
         bslhid_frame data ! 0 = BSLHID_HEADER \<and>
         unat (bslhid_frame data ! 1) = length data \<and>
         take (length data) (drop 2 (bslhid_frame data)) = data \<and>
         drop (2 + length data) (bslhid_frame data) = replicate (BSLHID_MTU - length data) 0xAC"
  using assms by (simp add: bslhid_frame_eq)

theorem bslhid_frame_layout_witness:
  "length [1, 2, 3 :: byte] \<le> BSLHID_MTU \<and>
   length (bslhid_frame [1, 2, 3]) = BSLHID_XFER_SIZE \<and> bslhid_frame [1, 2, 3] ! 0 = BSLHID_HEADER \<and>
   unat (bslhid_frame [1, 2, 3] ! 1) = length [1, 2, 3 :: byte] \<and>
   take (length [1, 2, 3 :: byte]) (drop 2 (bslhid_frame [1, 2, 3])) = [1, 2, 3] \<and>
   drop (2 + length [1, 2, 3 :: byte]) (bslhid_frame [1, 2, 3]) =
     replicate (BSLHID_MTU - length [1, 2, 3 :: byte]) 0xAC"
proof -
  have h: "length [1, 2, 3 :: byte] \<le> BSLHID_MTU" by simp
  show ?thesis using h bslhid_frame_layout [OF h] by (rule conjI)
qed

text \<open>C2: Round trip: when the device answers a read with the frame of a payload that fits the caller's buffer, bslhid_recv returns exactly that payload.\<close>

theorem bslhid_recv_frame:
  assumes "hid_handle tr \<noteq> None" and "script w = Data 0 (bslhid_frame data) # rs"
    and "length data \<le> BSLHID_MTU" and "length data \<le> max_len"
  shows "fst (bslhid_recv tr max_len w) = Inr data"
proof -
  have "libusb_bulk_in (hid_in_ep tr) BSLHID_XFER_SIZE BSLHID_TIMEOUT w =
          ((0, bslhid_frame data), log_call (BulkIn (hid_in_ep tr) BSLHID_XFER_SIZE) w\<lparr>script := rs\<rparr>)"
    using assms(2,3) by (simp add: libusb_bulk_in_def take_reply_def elapse_def bslhid_frame_eq)
  with assms show ?thesis
    by (auto simp: bslhid_recv_def hid_unframe_frame)
qed

theorem bslhid_recv_frame_witness:
  "hid_handle hid_example_tr \<noteq> None \<and> script (empty_world [] [Data 0 (bslhid_frame [1, 2, 3])]) = [Data 0 (bslhid_frame [1, 2, 3])] \<and>
   fst (bslhid_recv hid_example_tr 16 (empty_world [] [Data 0 (bslhid_frame [1, 2, 3])])) = Inr [1, 2, 3]"
proof -
  have h1: "hid_handle hid_example_tr \<noteq> None" by (simp add: hid_example_tr_def)
  have h2: "script (empty_world [] [Data 0 (bslhid_frame [1, 2, 3])]) = [Data 0 (bslhid_frame [1, 2, 3])]"
    by (simp add: empty_world_def)
  have h3: "length [1, 2, 3 :: byte] \<le> BSLHID_MTU" and h4: "length [1, 2, 3 :: byte] \<le> 16" by simp_all
  from bslhid_recv_frame [OF h1 h2 h3 h4] h1 h2 show ?thesis by simp
qed

text \<open>C3: Whatever the device answers, bslhid_send only appends bulk OUT transfers on the instance's OUT endpoint, each carrying a suffix of the caller's bytes; when the device is open and a non-empty buffer fits the MTU, the first of them carries the caller's whole buffer; and no HID frame (header, length, filler) ever reaches the wire.\<close>

theorem bslhid_send_no_frame:
  assumes "bslhid_send tr data w = (r, w')"
  shows "\<exists>cs. trace w' = trace w @ cs \<and>
           (\<forall>c\<in>set cs. \<exists>k<length data. c = BulkOut (hid_out_ep tr) (drop k data)) \<and>
           (hid_handle tr \<noteq> None \<and> length data \<le> BSLHID_MTU \<and> data \<noteq> [] \<longrightarrow>
              cs \<noteq> [] \<and> hd cs = BulkOut (hid_out_ep tr) data) \<and>
           (\<forall>c\<in>set cs. \<forall>ep p. c \<noteq> BulkOut ep (bslhid_frame p))"
proof (cases "hid_handle tr = None \<or> BSLHID_MTU < length data")
  case True
  with assms show ?thesis
    by (auto simp: bslhid_send_def simp del: bslhid_consts split: option.splits)
next
  case False
  with assms have loop: "send_loop (hid_out_ep tr) BSLHID_TIMEOUT data w = (r, w')"
    by (auto simp: bslhid_send_def simp del: bslhid_consts split: option.splits)
  from send_loop_trace [OF loop] obtain cs where
    cs: "trace w' = trace w @ cs" and
    each: "\<forall>c\<in>set cs. \<exists>k<length data. c = BulkOut (hid_out_ep tr) (drop k data)"
    by blast
  have first: "data \<noteq> [] \<longrightarrow> cs \<noteq> [] \<and> hd cs = BulkOut (hid_out_ep tr) data"
  proof
    assume "data \<noteq> []"
    from send_loop_first [OF this loop] obtain cs' where "trace w' = trace w @ BulkOut (hid_out_ep tr) data # cs'"
      by blast
    with cs show "cs \<noteq> [] \<and> hd cs = BulkOut (hid_out_ep tr) data" by auto
  qed
  have "\<forall>c\<in>set cs. \<forall>ep p. c \<noteq> BulkOut ep (bslhid_frame p)"
  proof (intro ballI allI notI)
    fix c ep p
    assume c: "c \<in> set cs" and eq: "c = BulkOut ep (bslhid_frame p)"
    from each c obtain k where "c = BulkOut (hid_out_ep tr) (drop k data)" by blast
    with eq have "bslhid_frame p = drop k data" by simp
    then have "length (bslhid_frame p) \<le> length data" by simp
    with False length_bslhid_frame [of p] show False by simp
  qed
  with cs each first show ?thesis by blast
qed

theorem bslhid_send_no_frame_witness:
  "bslhid_send hid_example_tr [1, 2] (empty_world [] [Ack]) =
     (Inr (), (empty_world [] [])\<lparr>trace := [BulkOut 1 [1, 2]]\<rparr>) \<and>
   (\<exists>cs. trace ((empty_world [] [])\<lparr>trace := [BulkOut 1 [1, 2]]\<rparr>) = trace (empty_world [] [Ack]) @ cs \<and>
         (\<forall>c\<in>set cs. \<exists>k<length [1, 2 :: byte]. c = BulkOut (hid_out_ep hid_example_tr) (drop k [1, 2])) \<and>
         (hid_handle hid_example_tr \<noteq> None \<and> length [1, 2 :: byte] \<le> BSLHID_MTU \<and> [1, 2 :: byte] \<noteq> [] \<longrightarrow>
            cs \<noteq> [] \<and> hd cs = BulkOut (hid_out_ep hid_example_tr) [1, 2]) \<and>
         (\<forall>c\<in>set cs. \<forall>ep p. c \<noteq> BulkOut ep (bslhid_frame p)))"
proof -
  have h: "bslhid_send hid_example_tr [1, 2] (empty_world [] [Ack]) =
             (Inr (), (empty_world [] [])\<lparr>trace := [BulkOut 1 [1, 2]]\<rparr>)"
    by (simp add: bslhid_send_def hid_example_tr_def send_loop_ack empty_world_def)
  from bslhid_send_no_frame [OF h] h show ?thesis by simp
qed

text \<open>C4: On an open device, bslhid_send of more than 62 bytes fails with the MTU error and issues no transfer: the world is unchanged.\<close>

theorem bslhid_send_mtu:
  assumes "hid_handle tr \<noteq> None" and "BSLHID_MTU < length data"
  shows "bslhid_send tr data w = (Inl (E_mtu (length data)), w)"
  using assms by (auto simp: bslhid_send_def simp del: bslhid_consts)

theorem bslhid_send_mtu_witness:
  "bslhid_send hid_example_tr (replicate 63 0) (empty_world [] []) = (Inl (E_mtu 63), empty_world [] [])"
proof -
  have h1: "hid_handle hid_example_tr \<noteq> None" by (simp add: hid_example_tr_def)
  have h2: "BSLHID_MTU < length (replicate 63 (0 :: byte))" by simp
  from bslhid_send_mtu [OF h1 h2] show ?thesis by simp
qed

text \<open>C5: A successful bslhid_recv never returns more bytes than the caller asked for, nor more than 62.\<close>

theorem bslhid_recv_bounds:
  assumes "bslhid_recv tr max_len w = (Inr data, w')"
  shows "length data \<le> max_len \<and> length data \<le> BSLHID_MTU"
proof -
  obtain rc inbuf w1 where b: "libusb_bulk_in (hid_in_ep tr) BSLHID_XFER_SIZE BSLHID_TIMEOUT w = ((rc, inbuf), w1)"
    by (metis prod.exhaust)
  have "length inbuf \<le> BSLHID_XFER_SIZE" using b by (rule bulk_in_length)
  with assms b show ?thesis
    by (auto simp: bslhid_recv_def hid_unframe_def Let_def split: option.splits if_splits)
qed

theorem bslhid_recv_bounds_witness:
  "bslhid_recv hid_example_tr 16 (empty_world [] [Data 0 (bslhid_frame [1, 2, 3])]) =
     (Inr [1, 2, 3], (empty_world [] [])\<lparr>trace := [BulkIn 0x81 64]\<rparr>) \<and>
   length [1, 2, 3 :: byte] \<le> 16 \<and> length [1, 2, 3 :: byte] \<le> BSLHID_MTU"
proof -
  have h: "bslhid_recv hid_example_tr 16 (empty_world [] [Data 0 (bslhid_frame [1, 2, 3])]) =
             (Inr [1, 2, 3], (empty_world [] [])\<lparr>trace := [BulkIn 0x81 64]\<rparr>)"
    by (simp add: bslhid_recv_def hid_example_tr_def libusb_bulk_in_def take_reply_def log_call_def
                  empty_world_def bslhid_frame_eq hid_unframe_def elapse_def)
  from bslhid_recv_bounds [OF h] h show ?thesis by simp
qed

text \<open>C8: On an open handle whose device no longer answers, bslhid_flush never returns: its loop retries for as long as reads fail, instead of stopping at the first failed read.\<close>

theorem bslhid_flush_spins_on_gone_device:
  assumes "hid_handle tr \<noteq> None" and "script w = []"
  shows "bslhid_flush tr w = None"
proof (rule ccontr)
  assume "bslhid_flush tr w \<noteq> None"
  with assms(1) obtain w' where "drain_in (hid_in_ep tr) BSLHID_XFER_SIZE 100 w = Some w'"
    by (auto simp: bslhid_flush_def simp del: bslhid_consts)
  from drain_in_needs_read [OF this] assms(2) show False by simp
qed

theorem bslhid_flush_spins_on_gone_device_witness:
  "hid_handle hid_example_tr \<noteq> None \<and> script (empty_world [] []) = [] \<and>
   bslhid_flush hid_example_tr (empty_world [] []) = None"
proof -
  have h1: "hid_handle hid_example_tr \<noteq> None" by (simp add: hid_example_tr_def)
  have h2: "script (empty_world [] []) = []" by (simp add: empty_world_def)
  from bslhid_flush_spins_on_gone_device [OF h1 h2] h1 h2 show ?thesis by simp
qed

text \<open>C9: bslhid_open keeps the handles balanced: in a process whose handles are consistent, when it fails (the lookup's serial reads included) the process holds exactly the handles and claims it held before, and when it succeeds bslhid_destroy releases what it acquired.\<close>

theorem bslhid_open_balanced:
  assumes "fresh_handles w" and "bslhid_open p s w = Some (r, w1)"
  shows "case r of
           Inl _ \<Rightarrow> open_handles w1 = open_handles w \<and> claimed w1 = claimed w
         | Inr tr \<Rightarrow> open_handles (bslhid_destroy tr w1) = open_handles w \<and>
                    claimed (bslhid_destroy tr w1) = claimed w"
proof (cases r)
  case (Inl e)
  from bslhid_open_Inl [OF assms(2) [unfolded Inl]] obtain r0 wl where
    fd: "find_device p s BSLHID_VID BSLHID_PID w = (r0, wl)" and
    alt: "w1 = wl \<or> (\<exists>tr0 d tr'. bslhid_open_device tr0 d wl = (Inl e, tr', w1) \<and> hid_handle tr0 = None)"
    by blast
  note k = find_device_kept [OF fd assms(1)]
  note f = handles_kept_fresh [OF k assms(1)]
  have "open_handles w1 = open_handles wl \<and> claimed w1 = claimed wl"
    using alt
  proof
    assume "\<exists>tr0 d tr'. bslhid_open_device tr0 d wl = (Inl e, tr', w1) \<and> hid_handle tr0 = None"
    then obtain tr0 d tr' where od: "bslhid_open_device tr0 d wl = (Inl e, tr', w1)" and h0: "hid_handle tr0 = None"
      by blast
    from bslhid_open_device_cases [OF od h0] f show ?thesis
      by (cases e) (simp_all add: fresh_removeAll fresh_filter)
  qed simp
  with k Inl show ?thesis by (simp add: handles_kept_def)
next
  case (Inr tr)
  from bslhid_open_Inr [OF assms(2) [unfolded Inr]] obtain wl tr0 d w0 u where
    fd: "find_device p s BSLHID_VID BSLHID_PID w = (Some d, wl)" and
    od: "bslhid_open_device tr0 d wl = (Inr u, tr, w0)" and h0: "hid_handle tr0 = None" and
    fl: "bslhid_flush tr w0 = Some w1"
    by blast
  note k = find_device_kept [OF fd assms(1)]
  note f = handles_kept_fresh [OF k assms(1)]
  from bslhid_open_device_cases [OF od h0] have
    "hid_handle tr = Some (next_handle wl)" "open_handles w0 = next_handle wl # open_handles wl"
    "claimed w0 = (next_handle wl, hid_int_number tr) # claimed wl"
    by simp_all
  moreover from io_frame_resources [OF bslhid_flush_io_frame [OF fl]] have
    "open_handles w1 = open_handles w0" "claimed w1 = claimed w0" by simp_all
  ultimately show ?thesis
    using k Inr fresh_removeAll [OF f] fresh_release_close [OF f order_refl]
    by (simp add: bslhid_destroy_def handles_kept_def)
qed

theorem bslhid_open_balanced_witness:
  "fresh_handles hid_example_w0 \<and>
   bslhid_open (Some ''1:2'') None hid_example_w0 = Some (Inr hid_example_tr, hid_example_w1) \<and>
   open_handles (bslhid_destroy hid_example_tr hid_example_w1) = [] \<and>
   claimed (bslhid_destroy hid_example_tr hid_example_w1) = []"
proof -
  have h: "fresh_handles hid_example_w0"
    by (simp add: hid_example_w0_def empty_world_def fresh_handles_def)
  from bslhid_open_balanced [OF h hid_example_open] hid_example_open h show ?thesis
    by (simp add: hid_example_w0_def empty_world_def)
qed

text \<open>C11: The handle invariant (a non-null handle is open and its interface claimed) is kept by send, recv, flush and suspend, and by every successful resume.\<close>

theorem bslhid_ok_invariant:
  assumes ok: "bslhid_ok tr w"
  shows "bslhid_ok tr (snd (bslhid_send tr data w)) \<and> bslhid_ok tr (snd (bslhid_recv tr m w)) \<and>
         case_option True (bslhid_ok tr) (bslhid_flush tr w) \<and>
         bslhid_ok (fst (bslhid_suspend tr w)) (snd (bslhid_suspend tr w)) \<and>
         (case bslhid_resume tr w of (Inr _, tr', w') \<Rightarrow> bslhid_ok tr' w' | (Inl _, _) \<Rightarrow> True)"
proof (intro conjI)
  show "bslhid_ok tr (snd (bslhid_send tr data w))"
    using ok bslhid_ok_io_frame [OF bslhid_send_io_frame [OF prod.collapse [symmetric]]] by blast
  show "bslhid_ok tr (snd (bslhid_recv tr m w))"
    using ok bslhid_ok_io_frame [OF bslhid_recv_io_frame [OF prod.collapse [symmetric]]] by blast
  show "case_option True (bslhid_ok tr) (bslhid_flush tr w)"
    using ok bslhid_ok_io_frame [OF bslhid_flush_io_frame] by (auto split: option.splits)
  have "fst (bslhid_suspend tr w) = tr\<lparr>hid_handle := None\<rparr>"
    using bslhid_suspend_eq [OF prod.collapse [symmetric]] by blast
  then show "bslhid_ok (fst (bslhid_suspend tr w)) (snd (bslhid_suspend tr w))"
    by (simp add: bslhid_ok_def)
  show "case bslhid_resume tr w of (Inr _, tr', w') \<Rightarrow> bslhid_ok tr' w' | (Inl _, _) \<Rightarrow> True"
  proof (cases "bslhid_resume tr w")
    case (fields r tr5 w5)
    show ?thesis
    proof (cases r)
      case (Inl e)
      with fields show ?thesis by simp
    next
      case (Inr u)
      show ?thesis
      proof (cases "hid_handle tr")
        case None
        with bslhid_resume_open_device [OF fields None] Inr obtain dev where
          "bslhid_open_device tr dev w = (Inr u, tr5, w5)" by auto
        from bslhid_open_device_cases [OF this None] fields Inr show ?thesis
          by (simp add: bslhid_ok_def)
      next
        case (Some h)
        with fields Inr ok show ?thesis by (simp add: bslhid_resume_def)
      qed
    qed
  qed
qed

theorem bslhid_ok_invariant_witness:
  "bslhid_ok hid_example_tr hid_example_w1 \<and>
   bslhid_ok hid_example_tr (snd (bslhid_send hid_example_tr [1] hid_example_w1)) \<and>
   bslhid_ok hid_example_tr (snd (bslhid_recv hid_example_tr 8 hid_example_w1)) \<and>
   case_option True (bslhid_ok hid_example_tr) (bslhid_flush hid_example_tr hid_example_w1) \<and>
   bslhid_ok (fst (bslhid_suspend hid_example_tr hid_example_w1)) (snd (bslhid_suspend hid_example_tr hid_example_w1)) \<and>
   (case bslhid_resume hid_example_tr hid_example_w1 of (Inr _, tr', w') \<Rightarrow> bslhid_ok tr' w' | (Inl _, _) \<Rightarrow> True)"
proof -
  have h: "bslhid_ok hid_example_tr hid_example_w1"
    by (simp add: bslhid_ok_def hid_example_tr_def hid_example_w1_def bslhid_zero_def)
  from bslhid_ok_invariant [OF h] h show ?thesis by simp
qed

text \<open>C12: Suspend then resume on the same device, found again at the recorded path, restores an instance whose send and recv behave exactly as before the suspend, and which satisfies the handle invariant.\<close>

theorem bslhid_suspend_resume_restores:
  assumes opened: "bslhid_open_device tr0 dev w0 = (Inr u, tr, w1)" and h0: "hid_handle tr0 = None"
    and susp: "bslhid_suspend tr w2 = (tr', w3)"
    and found: "usbutil_find_by_loc (Some (hid_path tr)) w4 = Some dev"
    and res: "bslhid_resume tr' w4 = (Inr u', tr'', w5)"
  shows "bslhid_send tr'' = bslhid_send tr \<and> bslhid_recv tr'' = bslhid_recv tr \<and> bslhid_ok tr'' w5"
proof -
  have tr': "tr' = tr\<lparr>hid_handle := None\<rparr>" using susp by (rule bslhid_suspend_eq)
  then have h': "hid_handle tr' = None" by simp
  from found tr' res have od: "bslhid_open_device tr' dev w4 = (Inr u', tr'', w5)"
    by (simp add: bslhid_resume_def)
  from bslhid_open_device_cases [OF opened h0] have hs: "hid_handle tr \<noteq> None" by simp
  from bslhid_open_device_cases [OF od h'] have hs'': "hid_handle tr'' \<noteq> None" and ok: "bslhid_ok tr'' w5"
    by (simp_all add: bslhid_ok_def)
  obtain tr1 where f1: "bslhid_find_interface tr0 dev = (Inr u, tr1)"
    and e1: "hid_in_ep tr = hid_in_ep tr1" "hid_out_ep tr = hid_out_ep tr1"
    using bslhid_open_device_Inr [OF opened] by blast
  obtain tr2 where f2: "bslhid_find_interface tr' dev = (Inr u', tr2)"
    and e2: "hid_in_ep tr'' = hid_in_ep tr2" "hid_out_ep tr'' = hid_out_ep tr2"
    using bslhid_open_device_Inr [OF od] by blast
  from bslhid_find_interface_det [OF f1 f2] e1 e2 have
    "hid_in_ep tr'' = hid_in_ep tr" "hid_out_ep tr'' = hid_out_ep tr" by simp_all
  moreover have "(hid_handle tr = None) = (hid_handle tr'' = None)"
    using hs hs'' by blast
  ultimately show ?thesis
    using ok bslhid_send_cong [of tr tr''] bslhid_recv_cong [of tr tr''] by simp
qed

theorem bslhid_suspend_resume_restores_witness:
  "bslhid_open_device (bslhid_zero\<lparr>hid_path := ''1:2''\<rparr>) hid_example_dev (empty_world [hid_example_dev] [Ack, Ack]) =
     (Inr (), hid_example_tr, hid_example_w2) \<and>
   bslhid_suspend hid_example_tr hid_example_w2 =
     (hid_example_tr\<lparr>hid_handle := None\<rparr>,
      hid_example_w2\<lparr>trace := [Open 1 2, Detach 0, Claim 0, Release 0, Close], open_handles := [], claimed := []\<rparr>) \<and>
   usbutil_find_by_loc (Some (hid_path hid_example_tr)) (empty_world [hid_example_dev] [Ack, Ack]) = Some hid_example_dev \<and>
   bslhid_resume (hid_example_tr\<lparr>hid_handle := None\<rparr>) (empty_world [hid_example_dev] [Ack, Ack]) =
     (Inr (), hid_example_tr, hid_example_w2) \<and>
   bslhid_send hid_example_tr = bslhid_send hid_example_tr \<and>
   bslhid_recv hid_example_tr = bslhid_recv hid_example_tr \<and> bslhid_ok hid_example_tr hid_example_w2"
proof -
  have h1: "bslhid_open_device (bslhid_zero\<lparr>hid_path := ''1:2''\<rparr>) hid_example_dev (empty_world [hid_example_dev] [Ack, Ack]) =
     (Inr (), hid_example_tr, hid_example_w2)"
    by (simp add: hid_eval_simps hid_example_w2_def)
  have h2: "hid_handle (bslhid_zero\<lparr>hid_path := ''1:2''\<rparr>) = None" by (simp add: bslhid_zero_def)
  have h3: "bslhid_suspend hid_example_tr hid_example_w2 =
     (hid_example_tr\<lparr>hid_handle := None\<rparr>,
      hid_example_w2\<lparr>trace := [Open 1 2, Detach 0, Claim 0, Release 0, Close], open_handles := [], claimed := []\<rparr>)"
    by (simp add: bslhid_suspend_def hid_example_tr_def hid_example_w2_def bslhid_zero_def usb_simps)
  have h4: "usbutil_find_by_loc (Some (hid_path hid_example_tr)) (empty_world [hid_example_dev] [Ack, Ack]) = Some hid_example_dev"
    by (simp add: hid_eval_simps)
  have h5: "bslhid_resume (hid_example_tr\<lparr>hid_handle := None\<rparr>) (empty_world [hid_example_dev] [Ack, Ack]) =
     (Inr (), hid_example_tr, hid_example_w2)"
    by (simp add: hid_eval_simps hid_example_w2_def bslhid_resume_def)
  from bslhid_suspend_resume_restores [OF h1 h2 h3 h4 h5] h1 h3 h4 h5 show ?thesis by simp
qed

text \<open>C13: When the interface claim fails during bslhid_resume, the instance keeps a non-null handle to a device handle that has already been closed: the handle invariant is broken.\<close>

theorem bslhid_resume_claim_failure_dangles:
  assumes "bslhid_resume tr w = (Inl (E_claim rc), tr', w')" and "fresh_handles w"
  shows "hid_handle tr' \<noteq> None \<and> \<not> bslhid_ok tr' w'"
proof (cases "hid_handle tr")
  case None
  with bslhid_resume_open_device [OF assms(1) None] obtain dev where
    "bslhid_open_device tr dev w = (Inl (E_claim rc), tr', w')" by auto
  from bslhid_open_device_cases [OF this None] assms(2) show ?thesis
    by (auto simp: bslhid_ok_def fresh_removeAll)
next
  case (Some h)
  with assms(1) show ?thesis by (simp add: bslhid_resume_def)
qed

theorem bslhid_resume_claim_failure_dangles_witness:
  "bslhid_resume (bslhid_zero\<lparr>hid_path := ''1:2''\<rparr>) (empty_world [hid_example_dev] [Ack, Fail (-6)]) =
     (Inl (E_claim (-6)), hid_example_tr,
      (empty_world [hid_example_dev] [])\<lparr>trace := [Open 1 2, Detach 0, Claim 0, Close], next_handle := 1\<rparr>) \<and>
   fresh_handles (empty_world [hid_example_dev] [Ack, Fail (-6)]) \<and>
   hid_handle hid_example_tr \<noteq> None \<and>
   \<not> bslhid_ok hid_example_tr ((empty_world [hid_example_dev] [])\<lparr>trace := [Open 1 2, Detach 0, Claim 0, Close], next_handle := 1\<rparr>)"
proof -
  have h1: "bslhid_resume (bslhid_zero\<lparr>hid_path := ''1:2''\<rparr>) (empty_world [hid_example_dev] [Ack, Fail (-6)]) =
     (Inl (E_claim (-6)), hid_example_tr,
      (empty_world [hid_example_dev] [])\<lparr>trace := [Open 1 2, Detach 0, Claim 0, Close], next_handle := 1\<rparr>)"
    by (simp add: hid_eval_simps bslhid_resume_def)
  have h2: "fresh_handles (empty_world [hid_example_dev] [Ack, Fail (-6)])"
    by (simp add: fresh_handles_def empty_world_def)
  from bslhid_resume_claim_failure_dangles [OF h1 h2] h1 h2 show ?thesis by simp
qed

text \<open>C14: An instance opened by serial number (no path) can never be resumed: after a suspend, bslhid_resume fails with the not-found error whatever devices are present.\<close>

theorem bslhid_resume_after_serial_open_fails:
  assumes "bslhid_open None (Some s) w = Some (Inr tr, w1)" and "bslhid_suspend tr w2 = (tr', w3)"
  shows "bslhid_resume tr' w4 = (Inl E_not_found, tr', w4)"
proof -
  from bslhid_open_Inr [OF assms(1)] obtain wl tr0 d w0 u where
    od: "bslhid_open_device tr0 d wl = (Inr u, tr, w0)" and h0: "hid_handle tr0 = None"
    and p0: "hid_path tr0 = []"
    by auto
  from bslhid_open_device_cases [OF od h0] p0 have "hid_path tr = []" by simp
  with bslhid_suspend_eq [OF assms(2)] have "hid_path tr' = []" "hid_handle tr' = None" by simp_all
  then show ?thesis
    by (simp add: bslhid_resume_def usbutil_find_by_loc_def strtok_all_Nil)
qed

theorem bslhid_resume_after_serial_open_fails_witness:
  "\<exists>tr w1. bslhid_open None (Some ''bsl01'') hid_serial_w0 = Some (Inr tr, w1) \<and> hid_serial tr = ''bsl01'' \<and>
     bslhid_resume (fst (bslhid_suspend tr w1)) hid_example_w0 =
       (Inl E_not_found, fst (bslhid_suspend tr w1), hid_example_w0)"
proof -
  have "\<exists>tr w1. bslhid_open None (Some ''bsl01'') hid_serial_w0 = Some (Inr tr, w1) \<and> hid_serial tr = ''bsl01''"
    by (simp add: hid_eval_simps hid_serial_w0_def usbutil_find_by_id_def read_serial_def
                  strcasecmp_eq_def c_tolower_def eq_char_of_iff)
  then obtain tr w1 where h1: "bslhid_open None (Some ''bsl01'') hid_serial_w0 = Some (Inr tr, w1)"
    and s: "hid_serial tr = ''bsl01''" by blast
  have h2: "bslhid_suspend tr w1 = (fst (bslhid_suspend tr w1), snd (bslhid_suspend tr w1))" by simp
  from bslhid_resume_after_serial_open_fails [OF h1 h2, of hid_example_w0] h1 s show ?thesis by blast
qed

end
