(* ===== verification/Ti3410.thy ===== *)
theory Ti3410
  imports Transport
begin

text \<open>
  The legacy bridge, \<open>src/transport/ti3410.c\<close>: a TI3410 USB-serial chip that boots
  with a one-configuration boot loader and must be sent its firmware first. The
  theory holds the backend's constants, the port bring-up (\<open>set_termios\<close>,
  \<open>set_mcr\<close>, \<open>do_open_start\<close>, \<open>setup_port\<close>, \<open>teardown_port\<close>), the transport
  operations, the firmware assembly (\<open>do_extract\<close>, \<open>load_firmware\<close>,
  \<open>prepare_firmware\<close>), the download (\<open>do_download\<close>) and \<open>ti3410_open\<close>, which
  composes them. The C names \<open>open_device\<close> and \<open>TIMEOUT\<close>, which other backends
  reuse, carry the prefix \<open>ti3410_\<close> here.
\<close>

unbundle bit_operations_syntax

subsection \<open>Constants\<close>

definition TI_BOOT_CONFIG :: nat where "TI_BOOT_CONFIG = 1"
definition TI_ACTIVE_CONFIG :: nat where "TI_ACTIVE_CONFIG = 2"

definition TI_PIPE_MODE_CONTINOUS :: "16 word" where "TI_PIPE_MODE_CONTINOUS = 0x01"
definition TI_PIPE_TIMEOUT_ENABLE :: "16 word" where "TI_PIPE_TIMEOUT_ENABLE = 0x80"
definition TI_TRANSFER_TIMEOUT :: "16 word" where "TI_TRANSFER_TIMEOUT = 2"

definition TI_UART1_PORT :: "16 word" where "TI_UART1_PORT = 0x03"
definition TI_RAM_PORT :: "16 word" where "TI_RAM_PORT = 0x05"

definition TI_PURGE_OUTPUT :: "16 word" where "TI_PURGE_OUTPUT = 0x00"
definition TI_PURGE_INPUT :: "16 word" where "TI_PURGE_INPUT = 0x80"

definition TI_SET_CONFIG :: byte where "TI_SET_CONFIG = 0x05"
definition TI_OPEN_PORT :: byte where "TI_OPEN_PORT = 0x06"
definition TI_CLOSE_PORT :: byte where "TI_CLOSE_PORT = 0x07"
definition TI_START_PORT :: byte where "TI_START_PORT = 0x08"
definition TI_PURGE_PORT :: byte where "TI_PURGE_PORT = 0x0B"
definition TI_WRITE_DATA :: byte where "TI_WRITE_DATA = 0x80"

definition TI_UART_8_DATA_BITS :: byte where "TI_UART_8_DATA_BITS = 0x03"
definition TI_UART_NO_PARITY :: byte where "TI_UART_NO_PARITY = 0x00"
definition TI_UART_1_STOP_BITS :: byte where "TI_UART_1_STOP_BITS = 0x00"

definition TI_MCR_LOOP :: byte where "TI_MCR_LOOP = 0x04"
definition TI_MCR_DTR :: byte where "TI_MCR_DTR = 0x10"
definition TI_MCR_RTS :: byte where "TI_MCR_RTS = 0x20"

definition TI_RW_DATA_ADDR_XDATA :: byte where "TI_RW_DATA_ADDR_XDATA = 0x30"
definition TI_RW_DATA_BYTE :: byte where "TI_RW_DATA_BYTE = 0x01"

definition TI_FIRMWARE_BUF_SIZE :: nat where "TI_FIRMWARE_BUF_SIZE = 16284"
definition TI_DOWNLOAD_MAX_PACKET_SIZE :: nat where "TI_DOWNLOAD_MAX_PACKET_SIZE = 64"

definition USB_FET_VENDOR :: "16 word" where "USB_FET_VENDOR = 0x0451"
definition USB_FET_PRODUCT :: "16 word" where "USB_FET_PRODUCT = 0xf430"
definition USB_FET_INTERFACE :: nat where "USB_FET_INTERFACE = 0"
definition USB_FET_IN_EP :: int where "USB_FET_IN_EP = 0x81"
definition USB_FET_OUT_EP :: int where "USB_FET_OUT_EP = 0x01"
definition USB_FET_INT_EP :: int where "USB_FET_INT_EP = 0x83"
definition USB_FDL_INTERFACE :: nat where "USB_FDL_INTERFACE = 0"
definition USB_FDL_OUT_EP :: int where "USB_FDL_OUT_EP = 0x01"

definition TI3410_TIMEOUT :: nat where "TI3410_TIMEOUT = 1000"
definition TI3410_READ_TIMEOUT :: nat where "TI3410_READ_TIMEOUT = 5000"

text \<open>\<open>struct ti3410_transport\<close>: the operation table apart, only the handle.\<close>

record ti3410_transport =
  ti_handle :: "handle option"

subsection \<open>Opening the device\<close>

text \<open>
  \<open>open_device\<close>: read configuration descriptor 0, open, detach the kernel driver,
  switch a device still in its boot configuration to the active one, claim interface
  0. \<open>libusb_open\<close> writes the handle only on success, so a failed open leaves the
  zeroed field null.
\<close>

definition ti3410_open_device ::
  "ti3410_transport \<Rightarrow> usb_device \<Rightarrow> usb_world \<Rightarrow> (usb_error + unit) \<times> ti3410_transport \<times> usb_world" where
  "ti3410_open_device tr dev w =
     (case dev_config dev of
        None \<Rightarrow> (Inl E_config, tr, w)
      | Some c \<Rightarrow>
          (case libusb_open dev w of ((rc, ho), w1) \<Rightarrow>
             let tr1 = (case ho of Some h \<Rightarrow> tr\<lparr>ti_handle := Some h\<rparr> | None \<Rightarrow> tr) in
             (case ti_handle tr1 of
                None \<Rightarrow> (Inl (E_open rc), tr1, w1)
              | Some h \<Rightarrow>
                  let w2 = kernel_detach dev USB_FET_INTERFACE w1 in
                  (case (if bConfigurationValue c = TI_BOOT_CONFIG
                         then libusb_set_configuration TI_ACTIVE_CONFIG w2 else (0, w2)) of
                     (rc2, w3) \<Rightarrow>
                       if rc2 \<noteq> 0 then (Inl (E_set_config rc2), tr1, libusb_close h w3)
                       else (case libusb_claim_interface h USB_FET_INTERFACE w3 of (rc3, w4) \<Rightarrow>
                               if rc3 \<noteq> 0 then (Inl (E_claim rc3), tr1, libusb_close h w4)
                               else (Inr (), tr1, w4))))))"

subsection \<open>Port bring-up\<close>

text \<open>
  Every vendor command of the bring-up is a control transfer to the device whose
  status the code compares with 0 (\<open>if (libusb_control_transfer (...) != 0)\<close>).
  libusb-1.0 returns the number of bytes of the data stage on success, so a
  command with a data stage that the device accepts fails this test.
\<close>

definition ti_vendor_cmd ::
  "byte \<Rightarrow> 16 word \<Rightarrow> 16 word \<Rightarrow> byte list \<Rightarrow> usb_world \<Rightarrow> (usb_error + unit) \<times> usb_world" where
  "ti_vendor_cmd req val idx data w =
     (case libusb_control_transfer (USB_TYPE_VENDOR OR USB_RECIP_DEVICE) req val idx data TI3410_TIMEOUT w of
        (rc, w') \<Rightarrow> if rc \<noteq> 0 then (Inl (E_control rc), w') else (Inr (), w'))"

text \<open>The UART line parameters: 460800 bps, flags, 8 data bits, no parity, 1 stop bit.\<close>

definition tios_data :: "byte list" where
  "tios_data = [0x00, 0x02, 0x60, 0x00, TI_UART_8_DATA_BITS, TI_UART_NO_PARITY, TI_UART_1_STOP_BITS,
                0x00, 0x00, 0x00]"

definition set_termios :: "usb_world \<Rightarrow> (usb_error + unit) \<times> usb_world" where
  "set_termios w = ti_vendor_cmd TI_SET_CONFIG 0 TI_UART1_PORT tios_data w"

text \<open>A one-byte write to the modem control register: loop off, RTS and DTR on.\<close>

definition wb_data :: "byte list" where
  "wb_data = [TI_RW_DATA_ADDR_XDATA, TI_RW_DATA_BYTE, 1, 0x00, 0x00, 0xff, 0xa4,
              TI_MCR_LOOP OR TI_MCR_RTS OR TI_MCR_DTR, TI_MCR_RTS OR TI_MCR_DTR]"

definition set_mcr :: "usb_world \<Rightarrow> (usb_error + unit) \<times> usb_world" where
  "set_mcr w = ti_vendor_cmd TI_WRITE_DATA 0 TI_RAM_PORT wb_data w"

definition ti_open_port_mode :: "16 word" where
  "ti_open_port_mode = TI_PIPE_MODE_CONTINOUS OR TI_PIPE_TIMEOUT_ENABLE OR push_bit 2 TI_TRANSFER_TIMEOUT"

definition do_open_start :: "usb_world \<Rightarrow> (usb_error + unit) \<times> usb_world" where
  "do_open_start =
     usb_seq set_termios
       (usb_seq set_mcr
         (usb_seq (ti_vendor_cmd TI_OPEN_PORT ti_open_port_mode TI_UART1_PORT [])
           (ti_vendor_cmd TI_START_PORT 0 TI_UART1_PORT [])))"

text \<open>\<open>interrupt_flush\<close>: a two-byte interrupt read whose result every caller ignores.\<close>

definition interrupt_flush :: "usb_world \<Rightarrow> usb_world" where
  "interrupt_flush w = libusb_interrupt_in USB_FET_INT_EP 2 w"

text \<open>Both halts are cleared, the second only if the first succeeded (C's \<open>||\<close>).\<close>

definition clear_halts :: "usb_world \<Rightarrow> (usb_error + unit) \<times> usb_world" where
  "clear_halts w =
     (case libusb_clear_halt USB_FET_IN_EP w of (rc1, w1) \<Rightarrow>
        if rc1 \<noteq> 0 then (Inl E_clear_halt, w1)
        else (case libusb_clear_halt USB_FET_OUT_EP w1 of (rc2, w2) \<Rightarrow>
                if rc2 \<noteq> 0 then (Inl E_clear_halt, w2) else (Inr (), w2)))"

definition setup_port :: "usb_world \<Rightarrow> (usb_error + unit) \<times> usb_world" where
  "setup_port w =
     usb_seq do_open_start
       (usb_seq (ti_vendor_cmd TI_PURGE_PORT TI_PURGE_INPUT TI_UART1_PORT [])
         (\<lambda>w1. usb_seq (ti_vendor_cmd TI_PURGE_PORT TI_PURGE_OUTPUT TI_UART1_PORT [])
                 (\<lambda>w2. usb_seq clear_halts do_open_start (interrupt_flush w2))
                 (interrupt_flush (interrupt_flush w1))))
       (interrupt_flush w)"

definition teardown_port :: "usb_world \<Rightarrow> usb_world" where
  "teardown_port w =
     snd (libusb_control_transfer (USB_TYPE_VENDOR OR USB_RECIP_DEVICE) TI_CLOSE_PORT 0 TI_UART1_PORT []
            TI3410_TIMEOUT w)"

subsection \<open>Transport operations\<close>

definition ti3410_send :: "ti3410_transport \<Rightarrow> byte list \<Rightarrow> usb_world \<Rightarrow> (usb_error + unit) \<times> usb_world" where
  "ti3410_send tr data w = send_loop USB_FET_OUT_EP TI3410_TIMEOUT data w"

text \<open>
  The read loop of \<open>ti3410_recv\<close>: while \<open>time (NULL)\<close>, in whole seconds, is before
  the deadline, read; a timeout is not an error, and the first non-empty read is the
  result. Each round consumes an answer of the script, which bounds the recursion.
\<close>

function ti3410_recv_loop :: "nat \<Rightarrow> nat \<Rightarrow> usb_world \<Rightarrow> (usb_error + byte list) \<times> usb_world" where
  "ti3410_recv_loop deadline max_len w =
     (if time_now w < deadline then
        (case libusb_bulk_in USB_FET_IN_EP max_len TI3410_READ_TIMEOUT w of ((rc, d), w') \<Rightarrow>
           if rc \<noteq> 0 \<and> rc \<noteq> LIBUSB_ERROR_TIMEOUT then (Inl (E_transfer rc), w')
           else if d \<noteq> [] then (Inr d, w')
           else ti3410_recv_loop deadline max_len w')
      else (Inl E_timeout, w))"
  by pat_completeness auto
termination
  by (relation "measure (\<lambda>(deadline, max_len, w). length (script w))")
     (auto simp: libusb_bulk_in_def take_reply_def elapse_def split: list.splits reply.splits if_splits)

declare ti3410_recv_loop.simps [simp del]

definition ti3410_recv :: "ti3410_transport \<Rightarrow> nat \<Rightarrow> usb_world \<Rightarrow> (usb_error + byte list) \<times> usb_world" where
  "ti3410_recv tr max_len w = ti3410_recv_loop (time_now w + TI3410_READ_TIMEOUT div 1000) max_len w"

text \<open>\<open>ti3410_destroy\<close> closes the port and frees the structure; nothing else.\<close>

definition ti3410_destroy :: "ti3410_transport \<Rightarrow> usb_world \<Rightarrow> usb_world" where
  "ti3410_destroy tr w = teardown_port w"

definition ti3410_flush :: "ti3410_transport \<Rightarrow> usb_world \<Rightarrow> (usb_error + unit) \<times> usb_world" where
  "ti3410_flush tr w = (Inr (), w)"

definition ti3410_set_modem :: "ti3410_transport \<Rightarrow> nat \<Rightarrow> usb_world \<Rightarrow> (usb_error + unit) \<times> usb_world" where
  "ti3410_set_modem tr state w = (Inl E_unsupported, w)"


subsection \<open>Firmware\<close>

text \<open>
  \<open>struct firmware\<close>: the whole fixed buffer and the number of bytes filled.
  \<open>load_firmware\<close> starts from \<open>memset (f, 0, sizeof (*f))\<close>.
\<close>

record firmware =
  fw_buf :: "byte list"
  fw_size :: nat

definition firmware_zero :: firmware where
  "firmware_zero = \<lparr>fw_buf = replicate TI_FIRMWARE_BUF_SIZE 0, fw_size = 0\<rparr>"

text \<open>A chunk of the Intel-HEX decoder: start address and data (\<open>ch->len\<close> is its length).\<close>

type_synonym binfile_chunk = "nat \<times> byte list"

definition do_extract :: "firmware \<Rightarrow> binfile_chunk \<Rightarrow> usb_error + firmware" where
  "do_extract f ch = (case ch of (addr, data) \<Rightarrow>
      if fw_size f \<noteq> addr then Inl (E_fw_gap (fw_size f) addr)
      else if fw_size f + length data > TI_FIRMWARE_BUF_SIZE then Inl E_fw_size
      else Inr (f\<lparr>fw_buf := memcpy_at (fw_size f) data (fw_buf f), fw_size := fw_size f + length data\<rparr>))"

text \<open>
  \<open>ihex_extract\<close> (the decoder, outside \<open>src/\<close>): hands the chunks to the callback in
  file order and stops with an error at the first chunk the callback refuses.
\<close>

fun ihex_extract :: "('s \<Rightarrow> 'c \<Rightarrow> 'e + 's) \<Rightarrow> 'c list \<Rightarrow> 's \<Rightarrow> 'e + 's" where
  "ihex_extract cb [] s = Inr s"
| "ihex_extract cb (c # cs) s = (case cb s c of Inl e \<Rightarrow> Inl e | Inr s' \<Rightarrow> ihex_extract cb cs s')"

text \<open>The build's \<open>LIB_DIR\<close> (the Makefile's default prefix).\<close>

definition LIB_DIR :: string where "LIB_DIR = ''/usr/local/lib''"

definition ti_fw_lib_path :: string where
  "ti_fw_lib_path = LIB_DIR @ ''/mspdebug/ti_3410.fw.ihex''"

definition ti_fw_cwd_path :: string where
  "ti_fw_cwd_path = ''ti_3410.fw.ihex''"

text \<open>\<open>fopen (path, "r")\<close> succeeds on the readable files of the world.\<close>

definition readable :: "usb_world \<Rightarrow> string \<Rightarrow> bool" where
  "readable w p \<longleftrightarrow> map_of (files w) p \<noteq> None"

text \<open>
  \<open>find_firmware\<close>: the environment variable (copied through a 256-byte buffer, so at
  most 255 characters), then the library directory, then the working directory.
\<close>

definition find_firmware :: "usb_world \<Rightarrow> string option" where
  "find_firmware w =
     (case (case fw_env w of
              Some env \<Rightarrow> if readable w (take 255 env) then Some (take 255 env) else None
            | None \<Rightarrow> None) of
        Some p \<Rightarrow> Some p
      | None \<Rightarrow>
          if readable w ti_fw_lib_path then Some ti_fw_lib_path
          else if readable w ti_fw_cwd_path then Some ti_fw_cwd_path
          else None)"

text \<open>
  \<open>load_firmware\<close>: a file that is not Intel-HEX (\<open>ihex_check\<close> fails) has no chunk
  list; the decoder's first refused chunk is the error.
\<close>

definition load_firmware :: "usb_world \<Rightarrow> usb_error + firmware" where
  "load_firmware w =
     (case find_firmware w of
        None \<Rightarrow> Inl E_fw_not_found
      | Some p \<Rightarrow>
          (case map_of (files w) p of
             Some (Some chunks) \<Rightarrow> ihex_extract do_extract chunks firmware_zero
           | _ \<Rightarrow> Inl E_fw_not_ihex))"

text \<open>
  \<open>prepare_firmware\<close> overwrites the first three bytes of the image: the 16-bit
  \<open>real_size = f->size - 3\<close> (unsigned, so it wraps when the image is shorter than
  three bytes), little-endian, and the 8-bit sum of the bytes from offset 3 on.
\<close>

definition prepare_firmware :: "firmware \<Rightarrow> firmware" where
  "prepare_firmware f =
     (let real_size = (word_of_nat (fw_size f) - 3 :: 16 word);
          cksum = byte_sum (take (fw_size f - 3) (drop 3 (fw_buf f)))
      in f\<lparr>fw_buf := (fw_buf f)[0 := ucast (real_size AND 0xff), 1 := ucast (drop_bit 8 real_size),
                               2 := cksum]\<rparr>)"

text \<open>
  The packet loop of \<open>do_download\<close>: packets of at most 64 bytes from \<open>offset\<close>, which
  advances by what the device accepted; a timeout retries, another error closes the
  handle. Each round consumes an answer of the script.
\<close>

function download_loop :: "handle \<Rightarrow> firmware \<Rightarrow> nat \<Rightarrow> usb_world \<Rightarrow> (usb_error + unit) \<times> usb_world" where
  "download_loop h f offset w =
     (if offset < fw_size f then
        (let plen = min (fw_size f - offset) TI_DOWNLOAD_MAX_PACKET_SIZE in
         case libusb_bulk_out USB_FDL_OUT_EP (take plen (drop offset (fw_buf f))) TI3410_TIMEOUT w of
           ((rc, r), w') \<Rightarrow>
             if rc \<noteq> 0 \<and> rc \<noteq> LIBUSB_ERROR_TIMEOUT then (Inl (E_transfer rc), libusb_close h w')
             else download_loop h f (offset + r) w')
      else (Inr (), w))"
  by pat_completeness auto
termination
  by (relation "measure (\<lambda>(h, f, offset, w). length (script w))")
     (auto simp: libusb_bulk_out_def take_reply_def elapse_def Let_def split: list.splits reply.splits)

declare download_loop.simps [simp del]

text \<open>
  \<open>do_download\<close>: the local \<open>handle\<close> is not initialised, and \<open>libusb_open\<close> writes it
  only on success, so after a failed open the test \<open>if (!handle)\<close> reads an
  uninitialised variable. The interface is never released: closing the handle
  drops the claim.
\<close>

definition do_download :: "usb_device \<Rightarrow> firmware \<Rightarrow> usb_world \<Rightarrow> (usb_error + unit) \<times> usb_world" where
  "do_download dev f w =
     (case libusb_open dev w of ((rc, ho), w1) \<Rightarrow>
        (case ho of
           None \<Rightarrow> (Inl E_uninit, w1)
         | Some h \<Rightarrow>
             (case libusb_claim_interface h USB_FDL_INTERFACE (kernel_detach dev USB_FDL_INTERFACE w1) of
                (rc2, w2) \<Rightarrow>
                  if rc2 \<noteq> 0 then (Inl (E_claim rc2), libusb_close h w2)
                  else (case download_loop h f 0 w2 of
                          (Inl e, w3) \<Rightarrow> (Inl e, w3)
                        | (Inr _, w3) \<Rightarrow> (Inr (), libusb_close h (libusb_reset_device (delay_ms 100 w3)))))))"

definition download_firmware :: "usb_device \<Rightarrow> usb_world \<Rightarrow> (usb_error + unit) \<times> usb_world" where
  "download_firmware dev w =
     (case load_firmware w of
        Inl e \<Rightarrow> (Inl e, w)
      | Inr f \<Rightarrow>
          (case do_download dev (prepare_firmware f) w of
             (Inl e, w1) \<Rightarrow> (Inl e, w1)
           | (Inr _, w1) \<Rightarrow> (Inr (), delay_ms 2000 w1)))"

subsection \<open>Open\<close>

text \<open>
  \<open>ti3410_open\<close>: locate the device; if it has a single configuration (the boot
  loader) push the firmware and locate it again on the re-enumerated bus; open it and
  bring the port up, closing the port and the handle if the bring-up fails.
\<close>

definition ti3410_open :: "string option \<Rightarrow> string option \<Rightarrow> usb_world \<Rightarrow> (usb_error + ti3410_transport) \<times> usb_world" where
  "ti3410_open devpath requested_serial w =
     (case find_device devpath requested_serial USB_FET_VENDOR USB_FET_PRODUCT w of
        (None, w0) \<Rightarrow> (Inl E_not_found, w0)
      | (Some dev, w0) \<Rightarrow>
          (case (if bNumConfigurations dev = 1 then
                   (case download_firmware dev w0 of
                      (Inl e, w1) \<Rightarrow> (Inl e, w1)
                    | (Inr _, w1) \<Rightarrow>
                        (case find_device devpath requested_serial USB_FET_VENDOR USB_FET_PRODUCT w1 of
                           (None, w1') \<Rightarrow> (Inl E_not_found, w1')
                         | (Some dev', w1') \<Rightarrow> (Inr dev', w1')))
                 else (Inr dev, w0)) of
             (Inl e, w1) \<Rightarrow> (Inl e, w1)
           | (Inr dev1, w1) \<Rightarrow>
               (case ti3410_open_device \<lparr>ti_handle = None\<rparr> dev1 w1 of
                  (Inl e, _, w2) \<Rightarrow> (Inl e, w2)
                | (Inr _, tr, w2) \<Rightarrow>
                    (case setup_port w2 of
                       (Inl e, w3) \<Rightarrow>
                         (Inl e, (case ti_handle tr of
                                    Some h \<Rightarrow> libusb_close h (teardown_port w3)
                                  | None \<Rightarrow> teardown_port w3))
                     | (Inr _, w3) \<Rightarrow> (Inr tr, w3)))))"


subsection \<open>Reference definitions\<close>

text \<open>
  The decoder's contract (spec, external interfaces): chunks contiguous and ascending
  from an address, and their total length.
\<close>

definition chunk_total :: "binfile_chunk list \<Rightarrow> nat" where
  "chunk_total cs = sum_list (map (\<lambda>c. length (snd c)) cs)"

fun contiguous_from :: "nat \<Rightarrow> binfile_chunk list \<Rightarrow> bool" where
  "contiguous_from n [] = True"
| "contiguous_from n ((a, d) # cs) = (a = n \<and> contiguous_from (n + length d) cs)"

text \<open>The firmware buffer invariant: the fixed buffer, filled up to \<open>size\<close>.\<close>

definition fw_ok :: "firmware \<Rightarrow> bool" where
  "fw_ok f \<longleftrightarrow> length (fw_buf f) = TI_FIRMWARE_BUF_SIZE \<and> fw_size f \<le> TI_FIRMWARE_BUF_SIZE"

text \<open>A world whose working directory holds the spec's two-chunk image.\<close>

definition ti_fw_example_w :: usb_world where
  "ti_fw_example_w = (empty_world [] [])\<lparr>files := [(ti_fw_cwd_path, Some [(0, [0x41, 0x41, 0x41, 0x41]), (4, [0x42, 0x42, 0x42, 0x42])])]\<rparr>"

lemmas ti3410_consts [simp] =
  TI_BOOT_CONFIG_def TI_ACTIVE_CONFIG_def TI_PIPE_MODE_CONTINOUS_def TI_PIPE_TIMEOUT_ENABLE_def
  TI_TRANSFER_TIMEOUT_def TI_UART1_PORT_def TI_RAM_PORT_def TI_PURGE_OUTPUT_def TI_PURGE_INPUT_def
  TI_SET_CONFIG_def TI_OPEN_PORT_def TI_CLOSE_PORT_def TI_START_PORT_def TI_PURGE_PORT_def
  TI_WRITE_DATA_def TI_UART_8_DATA_BITS_def TI_UART_NO_PARITY_def TI_UART_1_STOP_BITS_def
  TI_MCR_LOOP_def TI_MCR_DTR_def TI_MCR_RTS_def TI_RW_DATA_ADDR_XDATA_def TI_RW_DATA_BYTE_def
  TI_FIRMWARE_BUF_SIZE_def TI_DOWNLOAD_MAX_PACKET_SIZE_def USB_FET_VENDOR_def USB_FET_PRODUCT_def
  USB_FET_INTERFACE_def USB_FET_IN_EP_def USB_FET_OUT_EP_def USB_FET_INT_EP_def
  USB_FDL_INTERFACE_def USB_FDL_OUT_EP_def TI3410_TIMEOUT_def TI3410_READ_TIMEOUT_def

subsection \<open>Firmware assembly\<close>

lemma chunk_total_simps [simp]:
  "chunk_total [] = 0"
  "chunk_total ((a, d) # cs) = length d + chunk_total cs"
  "chunk_total (xs @ ys) = chunk_total xs + chunk_total ys"
  by (simp_all add: chunk_total_def)

lemma ihex_extract_append:
  "ihex_extract cb (xs @ ys) s = (case ihex_extract cb xs s of Inl e \<Rightarrow> Inl e | Inr s' \<Rightarrow> ihex_extract cb ys s')"
  by (induction xs arbitrary: s) (simp_all split: sum.splits)

lemma do_extract_Inr:
  "do_extract f (a, d) = Inr f1 \<longleftrightarrow>
     a = fw_size f \<and> fw_size f + length d \<le> TI_FIRMWARE_BUF_SIZE \<and>
     f1 = f\<lparr>fw_buf := memcpy_at (fw_size f) d (fw_buf f), fw_size := fw_size f + length d\<rparr>"
  by (auto simp: do_extract_def simp del: ti3410_consts)

text \<open>Contiguous chunks that fit are copied one after the other behind the filled part.\<close>

lemma extract_contiguous:
  assumes "contiguous_from (fw_size f) cs" and "fw_size f + chunk_total cs \<le> TI_FIRMWARE_BUF_SIZE"
    and "length (fw_buf f) = TI_FIRMWARE_BUF_SIZE"
  shows "ihex_extract do_extract cs f =
           Inr (f\<lparr>fw_buf := take (fw_size f) (fw_buf f) @ concat (map snd cs) @ drop (fw_size f + chunk_total cs) (fw_buf f),
                  fw_size := fw_size f + chunk_total cs\<rparr>)"
  using assms
proof (induction cs arbitrary: f)
  case Nil
  then show ?case by simp
next
  case (Cons c cs)
  obtain a d where c: "c = (a, d)" by (cases c)
  let ?f1 = "f\<lparr>fw_buf := memcpy_at (fw_size f) d (fw_buf f), fw_size := fw_size f + length d\<rparr>"
  from Cons.prems c have a: "a = fw_size f" and rest: "contiguous_from (fw_size f + length d) cs" by simp_all
  from Cons.prems c have fits: "fw_size f + length d + chunk_total cs \<le> TI_FIRMWARE_BUF_SIZE" by simp
  then have step: "do_extract f c = Inr ?f1"
    using a c by (simp add: do_extract_Inr del: ti3410_consts)
  have len1: "length (fw_buf ?f1) = TI_FIRMWARE_BUF_SIZE"
    using fits Cons.prems(3) by (simp add: memcpy_at_def)
  have "ihex_extract do_extract cs ?f1 =
          Inr (?f1\<lparr>fw_buf := take (fw_size ?f1) (fw_buf ?f1) @ concat (map snd cs) @ drop (fw_size ?f1 + chunk_total cs) (fw_buf ?f1),
                  fw_size := fw_size ?f1 + chunk_total cs\<rparr>)"
    using Cons.IH [of ?f1] rest fits len1 by simp
  moreover have "take (fw_size ?f1) (fw_buf ?f1) = take (fw_size f) (fw_buf f) @ d"
    using fits Cons.prems(3) by (simp add: memcpy_at_def)
  moreover have "drop (fw_size ?f1 + chunk_total cs) (fw_buf ?f1) = drop (fw_size f + chunk_total (c # cs)) (fw_buf f)"
    using fits Cons.prems(3) c by (simp add: memcpy_at_def ac_simps)
  ultimately show ?case using step c by (simp add: add.assoc)
qed

lemma extract_fails:
  "fw_size f \<le> TI_FIRMWARE_BUF_SIZE \<Longrightarrow>
   \<not> (contiguous_from (fw_size f) cs \<and> fw_size f + chunk_total cs \<le> TI_FIRMWARE_BUF_SIZE) \<Longrightarrow>
     \<exists>e. ihex_extract do_extract cs f = Inl e"
proof (induction cs arbitrary: f)
  case Nil
  then show ?case by simp
next
  case (Cons c cs)
  obtain a d where c: "c = (a, d)" by (cases c)
  show ?case
  proof (cases "do_extract f c")
    case (Inl e)
    then show ?thesis by simp
  next
    case (Inr f1)
    then have f1: "a = fw_size f" "fw_size f + length d \<le> TI_FIRMWARE_BUF_SIZE"
        "f1 = f\<lparr>fw_buf := memcpy_at (fw_size f) d (fw_buf f), fw_size := fw_size f + length d\<rparr>"
      using c by (simp_all add: do_extract_Inr del: ti3410_consts)
    with Cons.prems c have "\<not> (contiguous_from (fw_size f1) cs \<and> fw_size f1 + chunk_total cs \<le> TI_FIRMWARE_BUF_SIZE)"
      by (auto simp: add.assoc simp del: ti3410_consts)
    with Cons.IH [of f1] Inr f1 show ?thesis by simp
  qed
qed

lemma extract_fw_ok:
  "ihex_extract do_extract cs f = Inr f' \<Longrightarrow> fw_ok f \<Longrightarrow> fw_ok f'"
proof (induction cs arbitrary: f)
  case Nil
  then show ?case by simp
next
  case (Cons c cs)
  obtain a d where c: "c = (a, d)" by (cases c)
  from Cons.prems(1) c obtain f1 where f1: "do_extract f (a, d) = Inr f1" and rest: "ihex_extract do_extract cs f1 = Inr f'"
    by (cases "do_extract f (a, d)") auto
  from f1 Cons.prems(2) have "fw_ok f1"
    by (auto simp: do_extract_Inr fw_ok_def memcpy_at_def simp del: ti3410_consts)
  with rest show ?case by (rule Cons.IH)
qed

lemma real_size_unat: "unat (word_of_nat n - 3 :: 16 word) = (n + 65533) mod 65536"
proof -
  have "(word_of_nat n - 3 :: 16 word) = word_of_nat (n + 65533)" by simp
  then have "unat (word_of_nat n - 3 :: 16 word) = unat (word_of_nat (n + 65533) :: 16 word)" by (simp only:)
  also have "\<dots> = (n + 65533) mod 2 ^ LENGTH(16)" by (rule unat_of_nat)
  finally show ?thesis by simp
qed

lemma real_size_mod: "3 \<le> n \<Longrightarrow> n \<le> 16284 \<Longrightarrow> (n + 65533) mod 65536 = n - (3::nat)"
proof -
  assume "3 \<le> n" "n \<le> 16284"
  then obtain m where m: "n = 3 + m" using le_Suc_ex by blast
  with \<open>n \<le> 16284\<close> show ?thesis by simp
qed

lemma fw_ok_header_room:
  "fw_ok f \<Longrightarrow> 0 < length (fw_buf f) \<and> 1 < length (fw_buf f) \<and> 2 < length (fw_buf f)"
  by (simp add: fw_ok_def)

text \<open>C15: Intel-HEX chunks that are contiguous from address 0 and fit the 16284-byte buffer are accumulated into exactly their concatenation, the rest of the buffer staying zero.\<close>

theorem firmware_extract_image:
  assumes "contiguous_from 0 cs" and "chunk_total cs \<le> TI_FIRMWARE_BUF_SIZE"
  shows "ihex_extract do_extract cs firmware_zero =
           Inr \<lparr>fw_buf = concat (map snd cs) @ replicate (TI_FIRMWARE_BUF_SIZE - chunk_total cs) 0,
                fw_size = chunk_total cs\<rparr>"
  using extract_contiguous [of firmware_zero cs] assms by (simp add: firmware_zero_def)

theorem firmware_extract_image_witness:
  "ihex_extract do_extract [(0, [0x41, 0x41, 0x41, 0x41]), (4, [0x42, 0x42, 0x42, 0x42])] firmware_zero =
     Inr \<lparr>fw_buf = [0x41, 0x41, 0x41, 0x41, 0x42, 0x42, 0x42, 0x42] @ replicate 16276 0, fw_size = 8\<rparr>"
  using firmware_extract_image [of "[(0, [0x41, 0x41, 0x41, 0x41]), (4, [0x42, 0x42, 0x42, 0x42])]"]
  by simp

text \<open>C16: A chunk that does not start where the accumulated image ends stops the extraction with a firmware-gap error naming both addresses; the gap is never zero-filled.\<close>

theorem firmware_extract_gap:
  assumes "contiguous_from 0 cs" and "chunk_total cs \<le> TI_FIRMWARE_BUF_SIZE" and "a \<noteq> chunk_total cs"
  shows "ihex_extract do_extract (cs @ (a, d) # rest) firmware_zero = Inl (E_fw_gap (chunk_total cs) a)"
  using assms extract_contiguous [of firmware_zero cs]
  by (simp add: ihex_extract_append firmware_zero_def do_extract_def del: ti3410_consts)

theorem firmware_extract_gap_witness:
  "ihex_extract do_extract [(0, [0x41, 0x41, 0x41, 0x41]), (8, [0x42, 0x42, 0x42, 0x42])] firmware_zero = Inl (E_fw_gap 4 8)"
  using firmware_extract_gap [of "[(0, [0x41, 0x41, 0x41, 0x41])]" 8 "[0x42, 0x42, 0x42, 0x42]" "[]"]
  by simp

text \<open>C17: Extraction from the zeroed buffer succeeds exactly when the chunks are contiguous from address 0 and fit the buffer.\<close>

theorem firmware_extract_iff:
  "(\<exists>f. ihex_extract do_extract cs firmware_zero = Inr f) \<longleftrightarrow>
     contiguous_from 0 cs \<and> chunk_total cs \<le> TI_FIRMWARE_BUF_SIZE"
proof
  assume "\<exists>f. ihex_extract do_extract cs firmware_zero = Inr f"
  then obtain f where f: "ihex_extract do_extract cs firmware_zero = Inr f" by blast
  show "contiguous_from 0 cs \<and> chunk_total cs \<le> TI_FIRMWARE_BUF_SIZE"
  proof (rule ccontr)
    assume "\<not> (contiguous_from 0 cs \<and> chunk_total cs \<le> TI_FIRMWARE_BUF_SIZE)"
    then obtain e where "ihex_extract do_extract cs firmware_zero = Inl e"
      using extract_fails [of firmware_zero cs] by (auto simp: firmware_zero_def)
    with f show False by simp
  qed
next
  assume "contiguous_from 0 cs \<and> chunk_total cs \<le> TI_FIRMWARE_BUF_SIZE"
  then have "ihex_extract do_extract cs firmware_zero =
               Inr \<lparr>fw_buf = concat (map snd cs) @ replicate (TI_FIRMWARE_BUF_SIZE - chunk_total cs) 0,
                    fw_size = chunk_total cs\<rparr>"
    using extract_contiguous [of firmware_zero cs] by (simp add: firmware_zero_def)
  then show "\<exists>f. ihex_extract do_extract cs firmware_zero = Inr f" by blast
qed

text \<open>C18: Every image load_firmware returns keeps the buffer invariant: the buffer has its fixed size and the filled part lies inside it, so no memcpy of do_extract leaves the buffer.\<close>

theorem load_firmware_ok:
  assumes "load_firmware w = Inr f"
  shows "fw_ok f"
proof -
  have z: "fw_ok firmware_zero" by (simp add: fw_ok_def firmware_zero_def)
  from assms obtain p chunks where "ihex_extract do_extract chunks firmware_zero = Inr f"
    by (auto simp: load_firmware_def split: option.splits)
  from extract_fw_ok [OF this z] show ?thesis .
qed

theorem load_firmware_ok_witness:
  "load_firmware ti_fw_example_w = Inr \<lparr>fw_buf = [0x41, 0x41, 0x41, 0x41, 0x42, 0x42, 0x42, 0x42] @ replicate 16276 0, fw_size = 8\<rparr> \<and>
   fw_ok \<lparr>fw_buf = [0x41, 0x41, 0x41, 0x41, 0x42, 0x42, 0x42, 0x42] @ replicate 16276 0, fw_size = 8\<rparr>"
proof -
  have h: "load_firmware ti_fw_example_w = Inr \<lparr>fw_buf = [0x41, 0x41, 0x41, 0x41, 0x42, 0x42, 0x42, 0x42] @ replicate 16276 0, fw_size = 8\<rparr>"
    by (simp add: load_firmware_def find_firmware_def readable_def ti_fw_example_w_def empty_world_def
                  ti_fw_lib_path_def ti_fw_cwd_path_def LIB_DIR_def do_extract_def firmware_zero_def memcpy_at_def)
  from h load_firmware_ok [OF h] show ?thesis by simp
qed

text \<open>C19: For an image of at least three bytes in a valid buffer, prepare_firmware writes the little-endian length of the rest into bytes 0 and 1 and the 8-bit sum of the rest into byte 2, leaving the rest and the size unchanged.\<close>

theorem prepare_firmware_header:
  assumes "fw_ok f" and "3 \<le> fw_size f"
  shows "unat (fw_buf (prepare_firmware f) ! 0) + 256 * unat (fw_buf (prepare_firmware f) ! 1) = fw_size f - 3 \<and>
         fw_buf (prepare_firmware f) ! 2 = byte_sum (take (fw_size f - 3) (drop 3 (fw_buf f))) \<and>
         drop 3 (fw_buf (prepare_firmware f)) = drop 3 (fw_buf f) \<and>
         fw_size (prepare_firmware f) = fw_size f"
proof -
  have rs: "unat (word_of_nat (fw_size f) - 3 :: 16 word) = fw_size f - 3"
    using real_size_unat [of "fw_size f"] real_size_mod [of "fw_size f"] assms by (simp add: fw_ok_def)
  show ?thesis
    using fw_ok_header_room [OF assms(1)] unat_le16_bytes [of "word_of_nat (fw_size f) - 3"] rs
    by (simp add: prepare_firmware_def Let_def nth_list_update)
qed

theorem prepare_firmware_header_witness:
  "fw_ok \<lparr>fw_buf = [0x41, 0x41, 0x41, 0x41, 0x42, 0x42, 0x42, 0x42] @ replicate 16276 0, fw_size = 8\<rparr> \<and>
   unat (fw_buf (prepare_firmware \<lparr>fw_buf = [0x41, 0x41, 0x41, 0x41, 0x42, 0x42, 0x42, 0x42] @ replicate 16276 0, fw_size = 8\<rparr>) ! 0) +
     256 * unat (fw_buf (prepare_firmware \<lparr>fw_buf = [0x41, 0x41, 0x41, 0x41, 0x42, 0x42, 0x42, 0x42] @ replicate 16276 0, fw_size = 8\<rparr>) ! 1) = 5 \<and>
   fw_buf (prepare_firmware \<lparr>fw_buf = [0x41, 0x41, 0x41, 0x41, 0x42, 0x42, 0x42, 0x42] @ replicate 16276 0, fw_size = 8\<rparr>) ! 2 = 73"
proof -
  let ?f = "\<lparr>fw_buf = [0x41, 0x41, 0x41, 0x41, 0x42, 0x42, 0x42, 0x42] @ replicate 16276 (0 :: byte), fw_size = 8\<rparr>"
  have h1: "fw_ok ?f" by (simp add: fw_ok_def)
  have h2: "3 \<le> fw_size ?f" by simp
  from prepare_firmware_header [OF h1 h2] h1 show ?thesis by simp
qed

text \<open>C20: The 16-bit length of prepare_firmware wraps for an image shorter than three bytes: the header then announces 65533 + size bytes.\<close>

theorem prepare_firmware_short:
  assumes "fw_ok f" and "fw_size f < 3"
  shows "unat (fw_buf (prepare_firmware f) ! 0) + 256 * unat (fw_buf (prepare_firmware f) ! 1) = 65533 + fw_size f"
proof -
  have rs: "unat (word_of_nat (fw_size f) - 3 :: 16 word) = 65533 + fw_size f"
    using real_size_unat [of "fw_size f"] assms by simp
  show ?thesis
    using fw_ok_header_room [OF assms(1)] unat_le16_bytes [of "word_of_nat (fw_size f) - 3"] rs
    by (simp add: prepare_firmware_def Let_def nth_list_update)
qed

theorem prepare_firmware_short_witness:
  "fw_ok firmware_zero \<and> fw_size firmware_zero < 3 \<and>
   unat (fw_buf (prepare_firmware firmware_zero) ! 0) + 256 * unat (fw_buf (prepare_firmware firmware_zero) ! 1) = 65533"
proof -
  have h1: "fw_ok firmware_zero" by (simp add: fw_ok_def firmware_zero_def)
  have h2: "fw_size firmware_zero < 3" by (simp add: firmware_zero_def)
  from prepare_firmware_short [OF h1 h2] h1 h2 show ?thesis by (simp add: firmware_zero_def)
qed

end
