(* ===== verification/Ti3410_Bringup.thy ===== *)
theory Ti3410_Bringup
  imports Ti3410
begin

text \<open>
  Properties of the TI3410 backend's device side: the exact call sequence of the port
  bring-up, what the bring-up does with a device that completes its control
  transfers normally, the resources \<open>ti3410_open\<close> and \<open>ti3410_destroy\<close> leave
  behind, and the packets the firmware download puts on the wire. The reference
  definitions here restate the spec: the bring-up order of section 4.3 as a list of
  calls, and the image cut into packets of at most 64 bytes.
\<close>

unbundle bit_operations_syntax

subsection \<open>Reference definitions\<close>

text \<open>The line-open sub-sequence and the whole bring-up, in the order the spec prescribes.\<close>

definition ti_open_start_calls :: "usb_call list" where
  "ti_open_start_calls =
     [Control 0x40 TI_SET_CONFIG 0 TI_UART1_PORT tios_data,
      Control 0x40 TI_WRITE_DATA 0 TI_RAM_PORT wb_data,
      Control 0x40 TI_OPEN_PORT ti_open_port_mode TI_UART1_PORT [],
      Control 0x40 TI_START_PORT 0 TI_UART1_PORT []]"

definition ti_setup_calls :: "usb_call list" where
  "ti_setup_calls =
     IntrIn USB_FET_INT_EP 2 # ti_open_start_calls @
     [Control 0x40 TI_PURGE_PORT TI_PURGE_INPUT TI_UART1_PORT [],
      IntrIn USB_FET_INT_EP 2, IntrIn USB_FET_INT_EP 2,
      Control 0x40 TI_PURGE_PORT TI_PURGE_OUTPUT TI_UART1_PORT [],
      IntrIn USB_FET_INT_EP 2,
      ClearHalt USB_FET_IN_EP, ClearHalt USB_FET_OUT_EP] @
     ti_open_start_calls"

text \<open>The firmware image cut into packets of at most 64 bytes.\<close>

function packets :: "byte list \<Rightarrow> byte list list" where
  "packets xs = (if xs = [] then [] else take TI_DOWNLOAD_MAX_PACKET_SIZE xs # packets (drop TI_DOWNLOAD_MAX_PACKET_SIZE xs))"
  by pat_completeness auto
termination
  by (relation "measure length") (auto simp: TI_DOWNLOAD_MAX_PACKET_SIZE_def)

declare packets.simps [simp del]

text \<open>An adapter already running its firmware (two configurations, the active one) and a
  world in which it answers open and claim with an acknowledgement and every bring-up
  command with status 0; a 70-byte image for the download.\<close>

definition ti_example_dev :: usb_device where
  "ti_example_dev = \<lparr>dev_bus = 1, dev_addr = 4, idVendor = 0x0451, idProduct = 0xf430, dev_serial = None,
     bNumConfigurations = 2, dev_config = Some \<lparr>bConfigurationValue = 2, interfaces = []\<rparr>,
     dev_kernel_driver = False\<rparr>"

definition ti_example_w :: usb_world where
  "ti_example_w = empty_world [ti_example_dev] (Ack # Ack # replicate 12 (Fail 0))"

definition ti_fw_example_image :: firmware where
  "ti_fw_example_image = \<lparr>fw_buf = replicate 70 7, fw_size = 70\<rparr>"

subsection \<open>Port bring-up\<close>

lemma ti_vendor_cmd_reply:
  assumes "script w = r # rs"
  shows "ti_vendor_cmd req v i data w =
           (if reply_status (length data) (Some r) \<noteq> 0 then Inl (E_control (reply_status (length data) (Some r))) else Inr (),
            elapse (reply_status (length data) (Some r)) TI3410_TIMEOUT (w\<lparr>script := rs, trace := trace w @ [Control 0x40 req v i data]\<rparr>))"
  using assms by (simp add: ti_vendor_cmd_def libusb_control_transfer_def take_reply_def log_call_def elapse_def)

lemma ti_vendor_cmd_ok:
  "script w = Fail 0 # rs \<Longrightarrow>
     ti_vendor_cmd req v i data w = (Inr (), w\<lparr>script := rs, trace := trace w @ [Control 0x40 req v i data]\<rparr>)"
  by (simp add: ti_vendor_cmd_reply reply_status_def elapse_def)

lemma do_open_start_ok:
  assumes "script w = Fail 0 # Fail 0 # Fail 0 # Fail 0 # rs"
  shows "do_open_start w = (Inr (), w\<lparr>script := rs, trace := trace w @ ti_open_start_calls\<rparr>)"
  using assms
  by (simp add: do_open_start_def set_termios_def set_mcr_def ti_vendor_cmd_ok ti_open_start_calls_def del: ti3410_consts)

lemma clear_halts_ok:
  assumes "script w = Fail 0 # Fail 0 # rs"
  shows "clear_halts w = (Inr (), w\<lparr>script := rs, trace := trace w @ [ClearHalt USB_FET_IN_EP, ClearHalt USB_FET_OUT_EP]\<rparr>)"
  using assms
  by (simp add: clear_halts_def libusb_clear_halt_def status_call_def take_reply_def log_call_def reply_status_def elapse_def del: ti3410_consts)

lemma setup_port_sequence:
  assumes "script w = replicate 12 (Fail 0) @ rs"
  shows "setup_port w = (Inr (), w\<lparr>script := rs, trace := trace w @ ti_setup_calls\<rparr>)"
proof -
  from assms have s: "script w = Fail 0 # Fail 0 # Fail 0 # Fail 0 # Fail 0 # Fail 0 # Fail 0 # Fail 0 # Fail 0 # Fail 0 # Fail 0 # Fail 0 # rs"
    by (simp add: numeral_eq_Suc)
  then show ?thesis
    by (simp add: setup_port_def do_open_start_ok clear_halts_ok ti_vendor_cmd_ok interrupt_flush_def
                  libusb_interrupt_in_def log_call_def ti_setup_calls_def del: ti3410_consts)
qed

lemma setup_port_ack_fails:
  assumes "script w = Ack # rs"
  shows "setup_port w = (Inl (E_control 10),
           w\<lparr>script := rs, trace := trace w @ [IntrIn USB_FET_INT_EP 2, Control 0x40 TI_SET_CONFIG 0 TI_UART1_PORT tios_data]\<rparr>)"
  using assms
  by (simp add: setup_port_def do_open_start_def set_termios_def ti_vendor_cmd_reply interrupt_flush_def
                libusb_interrupt_in_def log_call_def reply_status_def elapse_def tios_data_def del: ti3410_consts)
lemma ti3410_open_device_Inr:
  assumes "ti3410_open_device tr dev w = (Inr u, tr', w')" and "ti_handle tr = None"
  shows "ti_handle tr' = Some (next_handle w) \<and> open_handles w' = next_handle w # open_handles w \<and>
         claimed w' = (next_handle w, USB_FET_INTERFACE) # claimed w \<and> next_handle w' = Suc (next_handle w)"
proof -
  obtain c where c: "dev_config dev = Some c"
    using assms by (cases "dev_config dev") (simp_all add: ti3410_open_device_def)
  obtain rc ho w1 where o: "libusb_open dev w = ((rc, ho), w1)" by (metis prod.exhaust)
  obtain h where h: "ho = Some h"
    using assms c o by (cases ho) (simp_all add: ti3410_open_device_def)
  note o1 = libusb_open_Some [OF o [unfolded h]]
  obtain rc2 w3 where sc: "(if bConfigurationValue c = TI_BOOT_CONFIG
                     then libusb_set_configuration TI_ACTIVE_CONFIG (kernel_detach dev USB_FET_INTERFACE w1)
                     else (0, kernel_detach dev USB_FET_INTERFACE w1)) = (rc2, w3)" by (metis prod.exhaust)
  have r3: "open_handles w3 = open_handles w1 \<and> claimed w3 = claimed w1 \<and> next_handle w3 = next_handle w1"
    using sc by (auto simp: libusb_set_configuration_def status_call_def take_reply_def log_call_def elapse_def
                      split: if_splits list.splits)
  obtain rc3 w4 where cl: "libusb_claim_interface h USB_FET_INTERFACE w3 = (rc3, w4)" by (metis prod.exhaust)
  from assms c o h sc cl have ok: "rc2 = 0" "rc3 = 0" "tr' = tr\<lparr>ti_handle := Some h\<rparr>" "w' = w4"
    by (simp_all add: ti3410_open_device_def Let_def split: if_splits)
  show ?thesis
    using libusb_claim_effect [OF cl] ok o1 r3 by simp
qed

lemma ti3410_open_device_Inl:
  assumes "ti3410_open_device tr dev w = (Inl e, tr', w')" and "ti_handle tr = None" and "fresh_handles w"
  shows "open_handles w' = open_handles w \<and> claimed w' = claimed w \<and> next_handle w \<le> next_handle w'"
proof (cases "dev_config dev")
  case None
  with assms show ?thesis by (simp add: ti3410_open_device_def)
next
  case (Some c)
  obtain rc ho w1 where o: "libusb_open dev w = ((rc, ho), w1)" by (metis prod.exhaust)
  show ?thesis
  proof (cases ho)
    case None
    with assms Some o libusb_open_None [OF o [unfolded None]] show ?thesis
      by (simp add: ti3410_open_device_def)
  next
    case (Some h)
    note o1 = libusb_open_Some [OF o [unfolded Some]]
    obtain rc2 w3 where sc: "(if bConfigurationValue c = TI_BOOT_CONFIG
                       then libusb_set_configuration TI_ACTIVE_CONFIG (kernel_detach dev USB_FET_INTERFACE w1)
                       else (0, kernel_detach dev USB_FET_INTERFACE w1)) = (rc2, w3)" by (metis prod.exhaust)
    have r3: "open_handles w3 = open_handles w1 \<and> claimed w3 = claimed w1 \<and> next_handle w3 = next_handle w1"
      using sc by (auto simp: libusb_set_configuration_def status_call_def take_reply_def log_call_def elapse_def
                        split: if_splits list.splits)
    obtain rc3 w4 where cl: "libusb_claim_interface h USB_FET_INTERFACE w3 = (rc3, w4)" by (metis prod.exhaust)
    note c4 = libusb_claim_effect [OF cl]
    from assms(1) \<open>dev_config dev = Some c\<close> o Some sc cl
    have "w' = libusb_close h w3 \<or> (rc2 = 0 \<and> rc3 \<noteq> 0 \<and> w' = libusb_close h w4)"
      by (auto simp: ti3410_open_device_def Let_def split: if_splits)
    then show ?thesis
      using o1 r3 c4 fresh_removeAll [OF assms(3)] fresh_filter [OF assms(3)] by auto
  qed
qed

lemma ti_vendor_cmd_io_frame: "io_frame w (snd (ti_vendor_cmd req v i data w))"
  by (cases "libusb_control_transfer (USB_TYPE_VENDOR OR USB_RECIP_DEVICE) req v i data TI3410_TIMEOUT w")
     (auto simp: ti_vendor_cmd_def dest: control_io_frame)

lemma interrupt_flush_io_frame: "io_frame w (interrupt_flush w)"
  by (simp add: interrupt_flush_def libusb_interrupt_in_def log_call_def io_frame_def)

lemma clear_halts_io_frame: "io_frame w (snd (clear_halts w))"
  by (auto simp: clear_halts_def libusb_clear_halt_def status_call_def take_reply_def log_call_def
                 elapse_def io_frame_def split: list.splits prod.splits)

lemma do_open_start_io_frame: "io_frame w (snd (do_open_start w))"
  unfolding do_open_start_def set_termios_def set_mcr_def
  by (intro usb_seq_io_frame ti_vendor_cmd_io_frame)

lemma setup_port_io_frame: "io_frame w (snd (setup_port w))"
proof -
  have inner: "io_frame s (snd (usb_seq clear_halts do_open_start (interrupt_flush s)))" for s
    by (rule io_frame_trans [OF interrupt_flush_io_frame usb_seq_io_frame [OF clear_halts_io_frame do_open_start_io_frame]])
  have mid: "io_frame s (snd (usb_seq (ti_vendor_cmd TI_PURGE_PORT TI_PURGE_OUTPUT TI_UART1_PORT [])
                 (\<lambda>w2. usb_seq clear_halts do_open_start (interrupt_flush w2)) (interrupt_flush (interrupt_flush s))))" for s
    by (rule io_frame_trans [OF io_frame_trans [OF interrupt_flush_io_frame interrupt_flush_io_frame]
                                usb_seq_io_frame [OF ti_vendor_cmd_io_frame inner]])
  show ?thesis
    unfolding setup_port_def
    by (rule io_frame_trans [OF interrupt_flush_io_frame
               usb_seq_io_frame [OF do_open_start_io_frame usb_seq_io_frame [OF ti_vendor_cmd_io_frame mid]]])
qed

lemma teardown_port_io_frame: "io_frame w (teardown_port w)"
  by (cases "libusb_control_transfer (USB_TYPE_VENDOR OR USB_RECIP_DEVICE) TI_CLOSE_PORT 0 TI_UART1_PORT [] TI3410_TIMEOUT w")
     (auto simp: teardown_port_def dest: control_io_frame)

lemma ti3410_open_Inr:
  assumes "ti3410_open p s w = (Inr tr, w')"
  shows "\<exists>h. ti_handle tr = Some h \<and> h \<in> set (open_handles w') \<and> (h, USB_FET_INTERFACE) \<in> set (claimed w')"
proof -
  from assms obtain dev1 w1 u w2 u2 where
    od: "ti3410_open_device \<lparr>ti_handle = None\<rparr> dev1 w1 = (Inr u, tr, w2)" and
    sp: "setup_port w2 = (Inr u2, w')"
    by (auto simp: ti3410_open_def split: option.splits if_splits sum.splits prod.splits)
  from ti3410_open_device_Inr [OF od] have
    "ti_handle tr = Some (next_handle w1) \<and> next_handle w1 \<in> set (open_handles w2) \<and>
     (next_handle w1, USB_FET_INTERFACE) \<in> set (claimed w2)" by simp
  moreover have "io_frame w2 w'" using setup_port_io_frame [of w2] sp by simp
  ultimately show ?thesis by (auto simp: io_frame_def)
qed

lemma ti3410_open_no_download:
  assumes "find_device p s USB_FET_VENDOR USB_FET_PRODUCT w = (Some dev, w0)" and "bNumConfigurations dev \<noteq> 1"
  shows "ti3410_open p s w =
           (case ti3410_open_device \<lparr>ti_handle = None\<rparr> dev w0 of
              (Inl e, _, w2) \<Rightarrow> (Inl e, w2)
            | (Inr _, tr, w2) \<Rightarrow>
                (case setup_port w2 of
                   (Inl e, w3) \<Rightarrow> (Inl e, (case ti_handle tr of Some h \<Rightarrow> libusb_close h (teardown_port w3) | None \<Rightarrow> teardown_port w3))
                 | (Inr _, w3) \<Rightarrow> (Inr tr, w3)))"
  using assms by (simp add: ti3410_open_def del: ti3410_consts)

lemma ti3410_open_device_active:
  assumes "dev_config dev = Some c" and "bConfigurationValue c \<noteq> TI_BOOT_CONFIG"
    and "\<not> dev_kernel_driver dev" and "script w = Ack # Ack # rs"
  shows "ti3410_open_device \<lparr>ti_handle = None\<rparr> dev w =
           (Inr (), \<lparr>ti_handle = Some (next_handle w)\<rparr>,
            w\<lparr>script := rs, trace := trace w @ [Open (dev_bus dev) (dev_addr dev), Claim USB_FET_INTERFACE],
              next_handle := Suc (next_handle w), open_handles := next_handle w # open_handles w,
              claimed := (next_handle w, USB_FET_INTERFACE) # claimed w\<rparr>)"
  using assms
  by (simp add: ti3410_open_device_def libusb_open_def libusb_claim_interface_def status_call_def
                take_reply_def log_call_def kernel_detach_def reply_status_def elapse_def del: ti3410_consts)

lemma ti_example_find:
  "find_device None None USB_FET_VENDOR USB_FET_PRODUCT ti_example_w = (Some ti_example_dev, ti_example_w)"
  by (simp add: find_device_no_serial find_by_id_ref_def serial_matches_def ti_example_w_def empty_world_def
                ti_example_dev_def)

lemma ti_example_open: "fst (ti3410_open None None ti_example_w) = Inr \<lparr>ti_handle = Some 0\<rparr>"
proof -
  let ?w2 = "ti_example_w\<lparr>script := replicate 12 (Fail 0) @ [], trace := [Open 1 4, Claim USB_FET_INTERFACE],
              next_handle := 1, open_handles := [0], claimed := [(0, USB_FET_INTERFACE)]\<rparr>"
  have h3: "dev_config ti_example_dev = Some \<lparr>bConfigurationValue = 2, interfaces = []\<rparr>" by (simp add: ti_example_dev_def)
  have hs: "script ti_example_w = Ack # Ack # replicate 12 (Fail 0) @ []" by (simp add: ti_example_w_def empty_world_def)
  have od: "ti3410_open_device \<lparr>ti_handle = None\<rparr> ti_example_dev ti_example_w = (Inr (), \<lparr>ti_handle = Some 0\<rparr>, ?w2)"
    using ti3410_open_device_active [OF h3 _ _ hs] by (simp add: ti_example_dev_def ti_example_w_def empty_world_def)
  have sp: "setup_port ?w2 = (Inr (), ?w2\<lparr>script := [], trace := trace ?w2 @ ti_setup_calls\<rparr>)"
    by (rule setup_port_sequence) simp
  show ?thesis
    using ti3410_open_no_download [OF ti_example_find] od sp by (simp add: ti_example_dev_def)
qed

text \<open>C21: On an adapter already in its active configuration, ti3410_open opens and claims interface 0 and then issues exactly the spec's bring-up: interrupt flush, line parameters, modem control, open and start port, purge input, two flushes, purge output, a flush, both halts cleared, and the line-open sub-sequence again; it returns the open handle.\<close>

theorem ti3410_open_active:
  assumes "find_device p s USB_FET_VENDOR USB_FET_PRODUCT w = (Some dev, w0)" and "bNumConfigurations dev \<noteq> 1"
    and "dev_config dev = Some c" and "bConfigurationValue c \<noteq> TI_BOOT_CONFIG" and "\<not> dev_kernel_driver dev"
    and "script w0 = Ack # Ack # replicate 12 (Fail 0) @ rs"
  shows "ti3410_open p s w =
           (Inr \<lparr>ti_handle = Some (next_handle w0)\<rparr>,
            w0\<lparr>script := rs, trace := trace w0 @ [Open (dev_bus dev) (dev_addr dev), Claim USB_FET_INTERFACE] @ ti_setup_calls,
              next_handle := Suc (next_handle w0), open_handles := next_handle w0 # open_handles w0,
              claimed := (next_handle w0, USB_FET_INTERFACE) # claimed w0\<rparr>)"
proof -
  let ?w2 = "w0\<lparr>script := replicate 12 (Fail 0) @ rs, trace := trace w0 @ [Open (dev_bus dev) (dev_addr dev), Claim USB_FET_INTERFACE],
              next_handle := Suc (next_handle w0), open_handles := next_handle w0 # open_handles w0,
              claimed := (next_handle w0, USB_FET_INTERFACE) # claimed w0\<rparr>"
  have od: "ti3410_open_device \<lparr>ti_handle = None\<rparr> dev w0 = (Inr (), \<lparr>ti_handle = Some (next_handle w0)\<rparr>, ?w2)"
    using ti3410_open_device_active [OF assms(3,4,5,6)] by simp
  have sp: "setup_port ?w2 = (Inr (), ?w2\<lparr>script := rs, trace := trace ?w2 @ ti_setup_calls\<rparr>)"
    by (rule setup_port_sequence) simp
  show ?thesis
    using ti3410_open_no_download [OF assms(1,2)] od sp by simp
qed

theorem ti3410_open_active_witness:
  "ti3410_open None None ti_example_w =
     (Inr \<lparr>ti_handle = Some 0\<rparr>,
      (empty_world [ti_example_dev] [])\<lparr>trace := [Open 1 4, Claim 0] @ ti_setup_calls, next_handle := 1,
         open_handles := [0], claimed := [(0, 0)]\<rparr>)"
proof -
  have h3: "dev_config ti_example_dev = Some \<lparr>bConfigurationValue = 2, interfaces = []\<rparr>" by (simp add: ti_example_dev_def)
  have h: "script ti_example_w = Ack # Ack # replicate 12 (Fail 0) @ []" by (simp add: ti_example_w_def empty_world_def)
  from ti3410_open_active [OF ti_example_find _ h3 _ _ h] show ?thesis
    by (simp add: ti_example_dev_def ti_example_w_def empty_world_def)
qed
text \<open>C22: libusb_control_transfer returns the number of data bytes on success, and set_termios tests that result against 0: on an adapter that completes the 10-byte SET_CONFIG transfer normally, ti3410_open fails with that byte count as its error.\<close>

theorem ti3410_open_rejects_ack:
  assumes "find_device p s USB_FET_VENDOR USB_FET_PRODUCT w = (Some dev, w0)" and "bNumConfigurations dev \<noteq> 1"
    and "dev_config dev = Some c" and "bConfigurationValue c \<noteq> TI_BOOT_CONFIG" and "\<not> dev_kernel_driver dev"
    and "script w0 = Ack # Ack # Ack # rs"
  shows "fst (ti3410_open p s w) = Inl (E_control 10)"
proof -
  let ?w2 = "w0\<lparr>script := Ack # rs, trace := trace w0 @ [Open (dev_bus dev) (dev_addr dev), Claim USB_FET_INTERFACE],
              next_handle := Suc (next_handle w0), open_handles := next_handle w0 # open_handles w0,
              claimed := (next_handle w0, USB_FET_INTERFACE) # claimed w0\<rparr>"
  have od: "ti3410_open_device \<lparr>ti_handle = None\<rparr> dev w0 = (Inr (), \<lparr>ti_handle = Some (next_handle w0)\<rparr>, ?w2)"
    using ti3410_open_device_active [OF assms(3,4,5,6)] by simp
  have sp: "fst (setup_port ?w2) = Inl (E_control 10)"
    using setup_port_ack_fails [of ?w2 rs] by simp
  show ?thesis
    using ti3410_open_no_download [OF assms(1,2)] od sp
    by (cases "setup_port ?w2") simp
qed

theorem ti3410_open_rejects_ack_witness:
  "fst (ti3410_open None None (empty_world [ti_example_dev] [Ack, Ack, Ack])) = Inl (E_control 10)"
proof -
  have h1: "find_device None None USB_FET_VENDOR USB_FET_PRODUCT (empty_world [ti_example_dev] [Ack, Ack, Ack]) =
      (Some ti_example_dev, empty_world [ti_example_dev] [Ack, Ack, Ack])"
    by (simp add: find_device_no_serial find_by_id_ref_def serial_matches_def empty_world_def ti_example_dev_def)
  have h3: "dev_config ti_example_dev = Some \<lparr>bConfigurationValue = 2, interfaces = []\<rparr>" by (simp add: ti_example_dev_def)
  have h6: "script (empty_world [ti_example_dev] [Ack, Ack, Ack]) = Ack # Ack # Ack # []" by (simp add: empty_world_def)
  show ?thesis
    using ti3410_open_rejects_ack [OF h1 _ h3 _ _ h6] by (simp add: ti_example_dev_def)
qed

text \<open>C23: ti3410_destroy neither releases the interface nor closes the handle: after a successful ti3410_open, destroying the transport leaves the handle open and interface 0 claimed.\<close>

theorem ti3410_open_destroy_keeps_claim:
  assumes "ti3410_open p s w = (Inr tr, w')"
  shows "\<exists>h. ti_handle tr = Some h \<and> h \<in> set (open_handles (ti3410_destroy tr w')) \<and>
             (h, USB_FET_INTERFACE) \<in> set (claimed (ti3410_destroy tr w'))"
  using ti3410_open_Inr [OF assms] teardown_port_io_frame [of w']
  by (auto simp: ti3410_destroy_def io_frame_def)
theorem ti3410_open_destroy_keeps_claim_witness:
  "ti3410_open None None ti_example_w = (Inr \<lparr>ti_handle = Some 0\<rparr>, snd (ti3410_open None None ti_example_w)) \<and>
   0 \<in> set (open_handles (ti3410_destroy \<lparr>ti_handle = Some 0\<rparr> (snd (ti3410_open None None ti_example_w)))) \<and>
   (0, 0) \<in> set (claimed (ti3410_destroy \<lparr>ti_handle = Some 0\<rparr> (snd (ti3410_open None None ti_example_w))))"
proof -
  from ti_example_open have h: "ti3410_open None None ti_example_w = (Inr \<lparr>ti_handle = Some 0\<rparr>, snd (ti3410_open None None ti_example_w))"
    by (metis prod.collapse)
  from ti3410_open_destroy_keeps_claim [OF h] h show ?thesis by simp
qed

subsection \<open>Firmware download\<close>

lemma packets_Nil [simp]: "packets [] = []"
  by (subst packets.simps) simp

lemma packets_Cons: "xs \<noteq> [] \<Longrightarrow> packets xs = take 64 xs # packets (drop 64 xs)"
  by (subst packets.simps) simp

lemma concat_packets: "concat (packets xs) = xs"
proof (induction xs rule: packets.induct)
  case (1 xs)
  show ?case
  proof (cases "xs = []")
    case True
    then show ?thesis by simp
  next
    case False
    have "concat (packets xs) = take 64 xs @ concat (packets (drop 64 xs))"
      using packets_Cons [OF False] by (simp only: concat.simps)
    also have "\<dots> = take 64 xs @ drop 64 xs"
      using "1.IH" False by simp
    finally show ?thesis by simp
  qed
qed

lemma packets_length: "p \<in> set (packets xs) \<Longrightarrow> p \<noteq> [] \<and> length p \<le> 64"
proof (induction xs rule: packets.induct)
  case (1 xs)
  show ?case
  proof (cases "xs = []")
    case True
    with "1.prems" show ?thesis by simp
  next
    case False
    from "1.prems" packets_Cons [OF False] have "p = take 64 xs \<or> p \<in> set (packets (drop 64 xs))"
      by simp
    then show ?thesis
      using "1.IH" False by auto
  qed
qed


lemma download_loop_step:
  assumes "offset < fw_size f"
    and "libusb_bulk_out USB_FDL_OUT_EP (take (min (fw_size f - offset) 64) (drop offset (fw_buf f))) TI3410_TIMEOUT w = ((rc, r), w1)"
  shows "download_loop h f offset w =
           (if rc \<noteq> 0 \<and> rc \<noteq> LIBUSB_ERROR_TIMEOUT then (Inl (E_transfer rc), libusb_close h w1)
            else download_loop h f (offset + r) w1)"
  using assms by (simp add: download_loop.simps [of h f offset w] Let_def)

lemma download_loop_done: "\<not> offset < fw_size f \<Longrightarrow> download_loop h f offset w = (Inr (), w)"
  by (simp add: download_loop.simps [of h f offset w])

lemma image_packet1:
  assumes "n \<le> length xs"
  shows "take (min (n - off) 64) (drop off xs) = take 64 (drop off (take n xs))"
  using assms by (simp add: drop_take take_take min.commute)

lemma image_packet2:
  assumes "n \<le> length xs"
  shows "drop (off + min (n - off) 64) (take n xs) = drop 64 (drop off (take n xs))"
  using assms by (cases "n - off \<le> 64") (simp_all add: min_def add.commute)

text \<open>C24: When the bootloader acknowledges every packet, the download loop sends the image as consecutive packets of at most 64 bytes, in order, consuming one answer per packet.\<close>

theorem download_loop_acks:
  assumes "fw_size f \<le> length (fw_buf f)"
    and "script w = replicate (length (packets (drop offset (take (fw_size f) (fw_buf f))))) Ack @ rs"
  shows "download_loop h f offset w =
           (Inr (), w\<lparr>script := rs,
                      trace := trace w @ map (BulkOut USB_FDL_OUT_EP) (packets (drop offset (take (fw_size f) (fw_buf f))))\<rparr>)"
  using assms(2)
proof (induction "fw_size f - offset" arbitrary: offset w rule: less_induct)
  case less
  let ?img = "drop offset (take (fw_size f) (fw_buf f))"
  show ?case
  proof (cases "offset < fw_size f")
    case False
    then have "?img = []" by simp
    with less.prems False show ?thesis by (simp add: download_loop_done)
  next
    case True
    let ?p = "take (min (fw_size f - offset) 64) (drop offset (fw_buf f))"
    have "offset < min (length (fw_buf f)) (fw_size f)" using True assms(1) by simp
    then have ne: "?img \<noteq> []" by (simp add: min_le_iff_disj)
    have p: "?p = take 64 ?img" using image_packet1 [OF assms(1)] by simp
    have len: "length ?p = min (fw_size f - offset) 64" using True assms(1) by simp
    have s: "script w = Ack # replicate (length (packets (drop 64 ?img))) Ack @ rs"
      using less.prems packets_Cons [OF ne] by simp
    let ?w1 = "w\<lparr>script := replicate (length (packets (drop 64 ?img))) Ack @ rs,
                  trace := trace w @ [BulkOut USB_FDL_OUT_EP ?p]\<rparr>"
    have b: "libusb_bulk_out USB_FDL_OUT_EP ?p TI3410_TIMEOUT w = ((0, length ?p), ?w1)"
      using s by (simp add: libusb_bulk_out_def take_reply_def log_call_def)
    have nxt: "drop (offset + length ?p) (take (fw_size f) (fw_buf f)) = drop 64 ?img"
      using image_packet2 [OF assms(1)] len by simp
    have dec: "fw_size f - (offset + length ?p) < fw_size f - offset"
      using True len by (simp add: min_def split: if_splits)
    have "download_loop h f (offset + length ?p) ?w1 =
            (Inr (), ?w1\<lparr>script := rs, trace := trace ?w1 @ map (BulkOut USB_FDL_OUT_EP) (packets (drop 64 ?img))\<rparr>)"
      using less.hyps [OF dec, of ?w1] nxt by simp
    moreover have "download_loop h f offset w = download_loop h f (offset + length ?p) ?w1"
      using download_loop_step [OF True b] by simp
    ultimately show ?thesis
      using p packets_Cons [OF ne] by simp
  qed
qed
theorem download_loop_acks_witness:
  "download_loop 0 ti_fw_example_image 0 (empty_world [] [Ack, Ack]) =
     (Inr (), (empty_world [] [])\<lparr>trace := [BulkOut 1 (replicate 64 7), BulkOut 1 (replicate 6 7)]\<rparr>)"
proof -
  have pk: "packets (drop 0 (take (fw_size ti_fw_example_image) (fw_buf ti_fw_example_image))) = [replicate 64 7, replicate 6 7]"
    by (simp add: ti_fw_example_image_def packets_Cons)
  have h1: "fw_size ti_fw_example_image \<le> length (fw_buf ti_fw_example_image)" by (simp add: ti_fw_example_image_def)
  have h2: "script (empty_world [] [Ack, Ack]) =
              replicate (length (packets (drop 0 (take (fw_size ti_fw_example_image) (fw_buf ti_fw_example_image))))) Ack @ []"
    by (simp only: pk) (simp add: empty_world_def numeral_2_eq_2)
  from download_loop_acks [OF h1 h2, of 0] show ?thesis
    by (simp only: pk) (simp add: empty_world_def)
qed
end
