(* ===== verification/Cdc_Acm.thy ===== *)
theory Cdc_Acm
  imports Transport
begin

text \<open>
  The CDC-ACM backend, \<open>src/transport/cdc_acm.c\<close>: interface discovery by class 10,
  open and claim, the 7-byte line coding of \<open>configure_port\<close>, the direct modem-line
  mapping of \<open>usbtr_set_modem\<close>, and the intermediate read buffer of \<open>usbtr_recv\<close>
  (1024 bytes, a read cursor \<open>rbuf_ptr\<close> and a valid length \<open>rbuf_len\<close>). The C
  \<open>int\<close> lengths and cursors are never negative here and are natural numbers; the
  baud rate is an \<open>int\<close> whose bytes are taken from its 32-bit two's complement.
  Static functions whose names other backends reuse carry the prefix \<open>cdc_\<close>.
\<close>

unbundle bit_operations_syntax

subsection \<open>Constants and state\<close>

definition READ_BUFFER_SIZE :: nat where "READ_BUFFER_SIZE = 1024"
definition CDC_INTERFACE_CLASS :: byte where "CDC_INTERFACE_CLASS = 10"
definition CDC_TIMEOUT :: nat where "CDC_TIMEOUT = 30000"
definition CDC_REQTYPE_HOST_TO_DEVICE :: byte where "CDC_REQTYPE_HOST_TO_DEVICE = 0x21"
definition CDC_SET_CONTROL :: byte where "CDC_SET_CONTROL = 0x22"
definition CDC_SET_LINE_CODING :: byte where "CDC_SET_LINE_CODING = 0x20"
definition CDC_CTRL_DTR :: "16 word" where "CDC_CTRL_DTR = 0x01"
definition CDC_CTRL_RTS :: "16 word" where "CDC_CTRL_RTS = 0x02"

record cdc_acm_transport =
  cdc_int_number :: nat
  cdc_handle :: "handle option"
  cdc_in_ep :: int
  cdc_out_ep :: int
  rbuf_len :: nat
  rbuf_ptr :: nat
  rbuf :: "byte list"

text \<open>The instance after \<open>malloc\<close> and \<open>memset (tr, 0, sizeof (*tr))\<close>.\<close>

definition cdc_zero :: cdc_acm_transport where
  "cdc_zero = \<lparr>cdc_int_number = 0, cdc_handle = None, cdc_in_ep = 0, cdc_out_ep = 0,
                rbuf_len = 0, rbuf_ptr = 0, rbuf = replicate READ_BUFFER_SIZE 0\<rparr>"

subsection \<open>Transport operations\<close>

definition cdc_send :: "cdc_acm_transport \<Rightarrow> byte list \<Rightarrow> usb_world \<Rightarrow> (usb_error + unit) \<times> usb_world" where
  "cdc_send tr data w = send_loop (cdc_out_ep tr) CDC_TIMEOUT data w"

text \<open>
  Serving a request from the buffer: at most what lies between the cursor and the
  valid length, copied out, the cursor advanced.
\<close>

definition cdc_serve :: "cdc_acm_transport \<Rightarrow> nat \<Rightarrow> byte list \<times> cdc_acm_transport" where
  "cdc_serve tr len =
     (let n = (if rbuf_ptr tr + len > rbuf_len tr then rbuf_len tr - rbuf_ptr tr else len)
      in (take n (drop (rbuf_ptr tr) (rbuf tr)), tr\<lparr>rbuf_ptr := rbuf_ptr tr + n\<rparr>))"

text \<open>
  \<open>usbtr_recv\<close>: when the buffer is used up, reset the cursor and refill the buffer
  with one transfer of up to 1024 bytes (libusb writes what arrives into \<open>rbuf\<close>);
  a failed transfer returns before \<open>rbuf_len\<close> is updated. A timed-out transfer
  is not an error: the request is served from what arrived, possibly nothing.
\<close>

definition cdc_recv ::
  "cdc_acm_transport \<Rightarrow> nat \<Rightarrow> usb_world \<Rightarrow> (usb_error + byte list) \<times> cdc_acm_transport \<times> usb_world" where
  "cdc_recv tr len w =
     (if rbuf_len tr \<le> rbuf_ptr tr then
        (case libusb_bulk_in (cdc_in_ep tr) READ_BUFFER_SIZE CDC_TIMEOUT w of ((rc, d), w1) \<Rightarrow>
           let tr1 = tr\<lparr>rbuf_ptr := 0, rbuf := memcpy_at 0 d (rbuf tr)\<rparr> in
           if rc \<noteq> 0 \<and> rc \<noteq> LIBUSB_ERROR_TIMEOUT then (Inl (E_transfer rc), tr1, w1)
           else (case cdc_serve (tr1\<lparr>rbuf_len := length d\<rparr>) len of (bs, tr2) \<Rightarrow> (Inr bs, tr2, w1)))
      else (case cdc_serve tr len of (bs, tr2) \<Rightarrow> (Inr bs, tr2, w)))"

text \<open>
  \<open>usbtr_destroy\<close>: release the interface, close the handle (the reference count of
  the device, which \<open>libusb_unref_device\<close> drops, is not part of the world). It is
  only called on an instance with an open handle.
\<close>

definition cdc_destroy :: "cdc_acm_transport \<Rightarrow> usb_world \<Rightarrow> usb_world" where
  "cdc_destroy tr w = (case cdc_handle tr of
      None \<Rightarrow> w
    | Some h \<Rightarrow> libusb_close h (libusb_release_interface h (cdc_int_number tr) w))"

text \<open>\<open>usbtr_flush\<close>: the drain loop of 64-byte reads, then the buffer is emptied.\<close>

definition cdc_flush :: "cdc_acm_transport \<Rightarrow> usb_world \<Rightarrow> (cdc_acm_transport \<times> usb_world) option" where
  "cdc_flush tr w =
     map_option (\<lambda>w'. (tr\<lparr>rbuf_len := 0, rbuf_ptr := 0\<rparr>, w')) (drain_in (cdc_in_ep tr) 64 100 w)"

definition cdc_modem_value :: "nat \<Rightarrow> 16 word" where
  "cdc_modem_value state =
     (if modem_dtr state then CDC_CTRL_DTR else 0) OR (if modem_rts state then CDC_CTRL_RTS else 0)"

definition cdc_set_modem :: "cdc_acm_transport \<Rightarrow> nat \<Rightarrow> usb_world \<Rightarrow> (usb_error + unit) \<times> usb_world" where
  "cdc_set_modem tr state w =
     (case libusb_control_transfer CDC_REQTYPE_HOST_TO_DEVICE CDC_SET_CONTROL (cdc_modem_value state) 0 [] 300 w of
        (rc, w') \<Rightarrow> if rc \<noteq> 0 then (Inl (E_control rc), w') else (Inr (), w'))"

subsection \<open>Discovery, open and configuration\<close>

text \<open>
  \<open>find_interface\<close>: the first interface of class 10 with a bulk pair; the number
  recorded is the loop index. A class-10 interface without a pair leaves its
  partial scan in \<open>in_ep\<close> and \<open>out_ep\<close>.
\<close>

fun cdc_find_in :: "nat \<Rightarrow> intf_desc list \<Rightarrow> cdc_acm_transport \<Rightarrow> (usb_error + unit) \<times> cdc_acm_transport" where
  "cdc_find_in i [] tr = (Inl E_no_interface, tr)"
| "cdc_find_in i (d # ds) tr =
     (if bInterfaceClass d \<noteq> CDC_INTERFACE_CLASS then cdc_find_in (Suc i) ds tr
      else (case scan_endpoints (endpoints d) (-1, -1) of (ie, oe) \<Rightarrow>
              if 0 \<le> ie \<and> 0 \<le> oe then (Inr (), tr\<lparr>cdc_in_ep := ie, cdc_out_ep := oe, cdc_int_number := i\<rparr>)
              else cdc_find_in (Suc i) ds (tr\<lparr>cdc_in_ep := ie, cdc_out_ep := oe\<rparr>)))"

definition cdc_find_interface :: "cdc_acm_transport \<Rightarrow> usb_device \<Rightarrow> (usb_error + unit) \<times> cdc_acm_transport" where
  "cdc_find_interface tr dev = (case dev_config dev of
      None \<Rightarrow> (Inl E_config, tr)
    | Some c \<Rightarrow> cdc_find_in 0 (interfaces c) tr)"

text \<open>\<open>open_interface\<close>: open, detach a kernel driver, claim; a failed claim closes.\<close>

definition cdc_open_interface ::
  "cdc_acm_transport \<Rightarrow> usb_device \<Rightarrow> usb_world \<Rightarrow> (usb_error + unit) \<times> cdc_acm_transport \<times> usb_world" where
  "cdc_open_interface tr dev w =
     (case libusb_open dev w of ((rc, ho), w1) \<Rightarrow>
        let tr1 = (case ho of Some h \<Rightarrow> tr\<lparr>cdc_handle := Some h\<rparr> | None \<Rightarrow> tr) in
        (case cdc_handle tr1 of
           None \<Rightarrow> (Inl (E_open rc), tr1, w1)
         | Some h \<Rightarrow>
             (case libusb_claim_interface h (cdc_int_number tr1) (kernel_detach dev (cdc_int_number tr1) w1) of
                (rc2, w2) \<Rightarrow>
                  if rc2 \<noteq> 0 then (Inl (E_claim rc2), tr1, libusb_close h w2) else (Inr (), tr1, w2))))"

text \<open>
  The line coding: the baud rate's four bytes, least significant first (the bytes of
  its 32-bit two's complement), then 1 stop bit, no parity, 8 data bits.
\<close>

definition baud_byte :: "int \<Rightarrow> nat \<Rightarrow> byte" where
  "baud_byte baud_rate k = ucast (drop_bit (8 * k) (word_of_int baud_rate :: 32 word) AND 0xff)"

definition line_coding :: "int \<Rightarrow> byte list" where
  "line_coding baud_rate =
     [baud_byte baud_rate 0, baud_byte baud_rate 1, baud_byte baud_rate 2, baud_byte baud_rate 3, 0, 0, 8]"

text \<open>
  \<open>configure_port\<close> compares both control transfers' results with 0; libusb-1.0
  returns the 7 bytes of the line coding's data stage on success.
\<close>

definition cdc_configure_port :: "int \<Rightarrow> usb_world \<Rightarrow> (usb_error + unit) \<times> usb_world" where
  "cdc_configure_port baud_rate w =
     (case libusb_control_transfer CDC_REQTYPE_HOST_TO_DEVICE CDC_SET_LINE_CODING 0 0 (line_coding baud_rate) 300 w of
        (rc, w1) \<Rightarrow>
          if rc \<noteq> 0 then (Inl (E_control rc), w1)
          else (case libusb_control_transfer CDC_REQTYPE_HOST_TO_DEVICE CDC_SET_CONTROL 0 0 [] 300 w1 of
                  (rc2, w2) \<Rightarrow> if rc2 \<noteq> 0 then (Inl (E_control rc2), w2) else (Inr (), w2)))"

text \<open>
  \<open>cdc_acm_open\<close>: locate, find the interface, open it, configure the port (destroying
  the instance if that fails), then flush. The flush may not return, hence the
  \<open>option\<close>.
\<close>

definition cdc_acm_open ::
  "string option \<Rightarrow> string option \<Rightarrow> int \<Rightarrow> 16 word \<Rightarrow> 16 word \<Rightarrow> usb_world \<Rightarrow>
     ((usb_error + cdc_acm_transport) \<times> usb_world) option" where
  "cdc_acm_open devpath requested_serial baud_rate vendor product w =
     (case find_device devpath requested_serial vendor product w of
        (None, w0) \<Rightarrow> Some (Inl E_not_found, w0)
      | (Some dev, w0) \<Rightarrow>
          (case cdc_find_interface cdc_zero dev of
             (Inl e, _) \<Rightarrow> Some (Inl e, w0)
           | (Inr _, tr1) \<Rightarrow>
               (case cdc_open_interface tr1 dev w0 of
                  (Inl e, _, w1) \<Rightarrow> Some (Inl e, w1)
                | (Inr _, tr2, w1) \<Rightarrow>
                    (case cdc_configure_port baud_rate w1 of
                       (Inl e, w2) \<Rightarrow> Some (Inl e, cdc_destroy tr2 w2)
                     | (Inr _, w2) \<Rightarrow> map_option (\<lambda>(tr3, w3). (Inr tr3, w3)) (cdc_flush tr2 w2)))))"

subsection \<open>The read buffer and reference views\<close>

text \<open>
  The buffer invariant of the spec's data model (cursor \<open>\<le>\<close> valid length \<open>\<le>\<close> capacity)
  and the abstract view of the buffer: the bytes received and not yet delivered.
\<close>


definition cdc_ok :: "cdc_acm_transport \<Rightarrow> bool" where
  "cdc_ok tr \<longleftrightarrow> rbuf_ptr tr \<le> rbuf_len tr \<and> rbuf_len tr \<le> READ_BUFFER_SIZE \<and> length (rbuf tr) = READ_BUFFER_SIZE"

definition cdc_pending :: "cdc_acm_transport \<Rightarrow> byte list" where
  "cdc_pending tr = take (rbuf_len tr - rbuf_ptr tr) (drop (rbuf_ptr tr) (rbuf tr))"


definition cdc_example_dev :: usb_device where
  "cdc_example_dev = \<lparr>dev_bus = 2, dev_addr = 3, idVendor = 0x2047, idProduct = 0x0010, dev_serial = None,
     bNumConfigurations = 1,
     dev_config = Some \<lparr>bConfigurationValue = 1,
       interfaces = [\<lparr>bInterfaceClass = 10, bInterfaceNumber = 1,
                      endpoints = [\<lparr>bmAttributes = 2, bEndpointAddress = 0x81\<rparr>, \<lparr>bmAttributes = 2, bEndpointAddress = 0x02\<rparr>]\<rparr>]\<rparr>,
     dev_kernel_driver = False\<rparr>"

definition cdc_example_buf :: "nat \<Rightarrow> cdc_acm_transport" where
  "cdc_example_buf ptr = cdc_zero\<lparr>rbuf_len := 3, rbuf_ptr := ptr, rbuf := [1, 2, 3] @ replicate 1021 0\<rparr>"

lemmas cdc_consts [simp] = READ_BUFFER_SIZE_def CDC_INTERFACE_CLASS_def CDC_TIMEOUT_def
  CDC_REQTYPE_HOST_TO_DEVICE_def CDC_SET_CONTROL_def CDC_SET_LINE_CODING_def CDC_CTRL_DTR_def CDC_CTRL_RTS_def


subsection \<open>Read buffer\<close>

lemma cdc_serve_eq:
  "cdc_ok tr \<Longrightarrow> cdc_serve tr n = (take n (cdc_pending tr), tr\<lparr>rbuf_ptr := rbuf_ptr tr + min n (rbuf_len tr - rbuf_ptr tr)\<rparr>)"
  by (auto simp: cdc_serve_def cdc_ok_def cdc_pending_def Let_def min_def take_take simp del: cdc_consts)

lemma cdc_serve_ok: "cdc_ok tr \<Longrightarrow> cdc_ok (snd (cdc_serve tr n))"
  by (auto simp: cdc_serve_eq cdc_ok_def min_def simp del: cdc_consts)

lemma cdc_serve_pending: "cdc_ok tr \<Longrightarrow> cdc_pending (snd (cdc_serve tr n)) = drop n (cdc_pending tr)"
  by (auto simp: cdc_serve_eq cdc_ok_def cdc_pending_def min_def drop_take ac_simps simp del: cdc_consts)

lemma cdc_refill_ok:
  "cdc_ok tr \<Longrightarrow> length d \<le> READ_BUFFER_SIZE \<Longrightarrow>
     cdc_ok (tr\<lparr>rbuf_ptr := 0, rbuf := memcpy_at 0 d (rbuf tr), rbuf_len := length d\<rparr>)"
  by (simp add: cdc_ok_def memcpy_at_def del: cdc_consts)

lemma cdc_refill_pending:
  "cdc_ok tr \<Longrightarrow> length d \<le> READ_BUFFER_SIZE \<Longrightarrow>
     cdc_pending (tr\<lparr>rbuf_ptr := 0, rbuf := memcpy_at 0 d (rbuf tr), rbuf_len := length d\<rparr>) = d"
  by (simp add: cdc_ok_def cdc_pending_def memcpy_at_def del: cdc_consts)

text \<open>C25: usbtr_recv keeps the read-buffer invariant: the cursor never passes the valid length, the valid length never exceeds the 1024-byte buffer, on every path including a failed transfer.\<close>

theorem cdc_recv_ok:
  assumes "cdc_ok tr"
  shows "cdc_ok (fst (snd (cdc_recv tr len w)))"
proof (cases "rbuf_len tr \<le> rbuf_ptr tr")
  case False
  obtain bs tr2 where sv: "cdc_serve tr len = (bs, tr2)" by (metis prod.exhaust)
  have "cdc_ok tr2" using cdc_serve_ok [OF assms, of len] sv by simp
  with False sv show ?thesis by (simp add: cdc_recv_def del: cdc_consts)
next
  case True
  obtain rc d w1 where b: "libusb_bulk_in (cdc_in_ep tr) READ_BUFFER_SIZE CDC_TIMEOUT w = ((rc, d), w1)"
    by (metis prod.exhaust)
  have d: "length d \<le> READ_BUFFER_SIZE" using bulk_in_length [OF b] .
  have e: "cdc_ok (tr\<lparr>rbuf_ptr := 0, rbuf := memcpy_at 0 d (rbuf tr)\<rparr>)"
    using assms d by (simp add: cdc_ok_def memcpy_at_def del: cdc_consts)
  have r: "cdc_ok (tr\<lparr>rbuf_ptr := 0, rbuf := memcpy_at 0 d (rbuf tr), rbuf_len := length d\<rparr>)"
    using cdc_refill_ok [OF assms d] .
  obtain bs tr2 where sv: "cdc_serve (tr\<lparr>rbuf_ptr := 0, rbuf := memcpy_at 0 d (rbuf tr), rbuf_len := length d\<rparr>) len = (bs, tr2)"
    by (metis prod.exhaust)
  have "cdc_ok tr2" using cdc_serve_ok [OF r, of len] sv by simp
  with True b e sv show ?thesis
    by (simp add: cdc_recv_def Let_def del: cdc_consts)
qed

text \<open>C26: While the buffer holds unread bytes, usbtr_recv behaves as a queue of pending bytes: it returns the first len of them, leaves the rest pending and issues no transfer.\<close>

theorem cdc_recv_buffered:
  assumes "cdc_ok tr" and "cdc_pending tr \<noteq> []"
  shows "fst (cdc_recv tr n w) = Inr (take n (cdc_pending tr)) \<and>
         cdc_pending (fst (snd (cdc_recv tr n w))) = drop n (cdc_pending tr) \<and>
         snd (snd (cdc_recv tr n w)) = w"
proof -
  have "\<not> rbuf_len tr \<le> rbuf_ptr tr" using assms(2) by (auto simp: cdc_pending_def)
  then show ?thesis
    using cdc_serve_eq [OF assms(1), of n] cdc_serve_pending [OF assms(1), of n]
    by (simp add: cdc_recv_def del: cdc_consts)
qed

text \<open>C27: On an empty buffer, usbtr_recv performs one 1024-byte transfer, returns the first len bytes received and keeps the remainder pending for later calls.\<close>

theorem cdc_recv_refill:
  assumes "cdc_ok tr" and "cdc_pending tr = []" and "script w = Data 0 d # rs" and "length d \<le> READ_BUFFER_SIZE"
  shows "fst (cdc_recv tr n w) = Inr (take n d) \<and> cdc_pending (fst (snd (cdc_recv tr n w))) = drop n d"
proof -
  have e: "rbuf_len tr \<le> rbuf_ptr tr" using assms(1,2) by (auto simp: cdc_pending_def cdc_ok_def)
  let ?tr1 = "tr\<lparr>rbuf_ptr := 0, rbuf := memcpy_at 0 d (rbuf tr), rbuf_len := length d\<rparr>"
  have b: "libusb_bulk_in (cdc_in_ep tr) READ_BUFFER_SIZE CDC_TIMEOUT w =
             ((0, d), w\<lparr>script := rs, trace := trace w @ [BulkIn (cdc_in_ep tr) READ_BUFFER_SIZE]\<rparr>)"
    using assms(3,4) by (simp add: libusb_bulk_in_def take_reply_def log_call_def elapse_def del: cdc_consts)
  have r: "cdc_ok ?tr1" using cdc_refill_ok [OF assms(1,4)] .
  have p: "cdc_pending ?tr1 = d" using cdc_refill_pending [OF assms(1,4)] .
  show ?thesis
    using e b cdc_serve_eq [OF r, of n] cdc_serve_pending [OF r, of n] p
    by (simp add: cdc_recv_def Let_def del: cdc_consts)
qed

text \<open>C28: A failed refill resets the cursor but not the valid length, so the next usbtr_recv returns again bytes that were already delivered.\<close>

theorem cdc_recv_stale:
  assumes "cdc_ok tr" and "rbuf_ptr tr = rbuf_len tr" and "0 < rbuf_len tr"
    and "script w = Fail rc # rs" and "rc \<noteq> 0" and "rc \<noteq> LIBUSB_ERROR_TIMEOUT" and "0 < m"
  shows "fst (cdc_recv tr n w) = Inl (E_transfer rc) \<and>
         fst (cdc_recv (fst (snd (cdc_recv tr n w))) m (snd (snd (cdc_recv tr n w)))) =
           Inr (take (min m (rbuf_len tr)) (rbuf tr))"
proof -
  obtain w1 where b: "libusb_bulk_in (cdc_in_ep tr) READ_BUFFER_SIZE CDC_TIMEOUT w = ((rc, []), w1)"
    using assms(4) by (simp add: libusb_bulk_in_def take_reply_def log_call_def del: cdc_consts)
  let ?tr1 = "tr\<lparr>rbuf_ptr := 0, rbuf := memcpy_at 0 [] (rbuf tr)\<rparr>"
  have r1: "cdc_recv tr n w = (Inl (E_transfer rc), ?tr1, w1)"
    using assms(2,5,6) b by (simp add: cdc_recv_def Let_def del: cdc_consts)
  have ok1: "cdc_ok ?tr1" using assms(1) by (simp add: cdc_ok_def memcpy_at_def del: cdc_consts)
  have pend: "cdc_pending ?tr1 = take (rbuf_len tr) (rbuf tr)" by (simp add: cdc_pending_def memcpy_at_def)
  have "rbuf tr \<noteq> []" using assms(1) by (auto simp: cdc_ok_def)
  then have ne: "cdc_pending ?tr1 \<noteq> []" using assms(3) pend by simp
  have "\<not> rbuf_len ?tr1 \<le> rbuf_ptr ?tr1" using assms(3) by simp
  then have "fst (cdc_recv ?tr1 m w') = Inr (take m (cdc_pending ?tr1))" for w'
    using cdc_serve_eq [OF ok1, of m] by (simp add: cdc_recv_def del: cdc_consts)
  with r1 pend show ?thesis by (simp add: min_def take_take)
qed
text \<open>C29: The line coding sent by configure_port holds the baud rate as four little-endian bytes (its value modulo 2^32) followed by 1 stop bit, no parity and 8 data bits.\<close>

theorem line_coding_roundtrip:
  "unat (line_coding b ! 0) + 256 * unat (line_coding b ! 1) + 65536 * unat (line_coding b ! 2) +
     16777216 * unat (line_coding b ! 3) = nat (b mod 4294967296) \<and>
   length (line_coding b) = 7 \<and> drop 4 (line_coding b) = [0, 0, 8]"
proof -
  let ?x = "unat (word_of_int b :: 32 word)"
  have x: "?x = nat (b mod 4294967296)" by (simp add: unsigned_of_int take_bit_eq_mod)
  have lt: "?x < 4294967296" using unsigned_less [of "word_of_int b :: 32 word"] by simp
  have d: "nat (b mod 4294967296) div 16777216 < 256" using lt x by simp
  show ?thesis
    using nat_le_bytes32 [OF lt] x unat_byte_of_word32 [of 0 "word_of_int b"] d
    by (simp add: line_coding_def baud_byte_def unat_byte_of_word32)
qed

text \<open>The CDC-ACM modem-control value maps the lines directly: DTR to bit 0 and RTS to bit 1, nothing else.\<close>

lemma cdc_modem_direct:
  "cdc_modem_value state = word_of_nat (state mod 4)"
proof -
  have "state mod 4 = state mod 2 + 2 * (state div 2 mod 2)"
    using mod_mult2_eq [of state 2 2] by simp
  then show ?thesis
    by (cases "odd state"; cases "odd (state div 2)")
       (simp_all add: cdc_modem_value_def modem_dtr_def modem_rts_def odd_iff_mod_2_eq_one even_iff_mod_2_eq_zero)
qed

lemma cdc_find_in_handle:
  "cdc_find_in i ds tr = (r, tr') \<Longrightarrow> cdc_handle tr' = cdc_handle tr"
  by (induction i ds tr rule: cdc_find_in.induct) (auto split: if_splits prod.splits)

lemma cdc_find_interface_handle:
  "cdc_find_interface tr dev = (r, tr') \<Longrightarrow> cdc_handle tr' = cdc_handle tr"
  by (auto simp: cdc_find_interface_def dest: cdc_find_in_handle split: option.splits)

lemma cdc_open_interface_Inr:
  assumes "cdc_open_interface tr dev w = (Inr u, tr', w')" and "cdc_handle tr = None"
  shows "cdc_handle tr' = Some (next_handle w) \<and> cdc_int_number tr' = cdc_int_number tr \<and>
         open_handles w' = next_handle w # open_handles w \<and>
         claimed w' = (next_handle w, cdc_int_number tr) # claimed w \<and> next_handle w' = Suc (next_handle w)"
proof -
  obtain rc ho w1 where o: "libusb_open dev w = ((rc, ho), w1)" by (metis prod.exhaust)
  obtain h where h: "ho = Some h" using assms o by (cases ho) (simp_all add: cdc_open_interface_def)
  note o1 = libusb_open_Some [OF o [unfolded h]]
  obtain rc2 w2 where cl: "libusb_claim_interface h (cdc_int_number tr) (kernel_detach dev (cdc_int_number tr) w1) = (rc2, w2)"
    by (metis prod.exhaust)
  from assms o h cl have ok: "rc2 = 0" "tr' = tr\<lparr>cdc_handle := Some h\<rparr>" "w' = w2"
    by (simp_all add: cdc_open_interface_def Let_def split: if_splits)
  show ?thesis using libusb_claim_effect [OF cl] ok o1 by simp
qed

lemma cdc_open_interface_Inl:
  assumes "cdc_open_interface tr dev w = (Inl e, tr', w')" and "cdc_handle tr = None" and "fresh_handles w"
  shows "open_handles w' = open_handles w \<and> claimed w' = claimed w"
proof -
  obtain rc ho w1 where o: "libusb_open dev w = ((rc, ho), w1)" by (metis prod.exhaust)
  show ?thesis
  proof (cases ho)
    case None
    with assms o libusb_open_None [OF o [unfolded None]] show ?thesis by (simp add: cdc_open_interface_def)
  next
    case (Some h)
    note o1 = libusb_open_Some [OF o [unfolded Some]]
    obtain rc2 w2 where cl: "libusb_claim_interface h (cdc_int_number tr) (kernel_detach dev (cdc_int_number tr) w1) = (rc2, w2)"
      by (metis prod.exhaust)
    note c2 = libusb_claim_effect [OF cl]
    from assms(1,2) o Some cl have "rc2 \<noteq> 0" "w' = libusb_close h w2"
      by (simp_all add: cdc_open_interface_def Let_def split: if_splits)
    then show ?thesis
      using o1 c2 fresh_removeAll [OF assms(3)] fresh_filter [OF assms(3)] by simp
  qed
qed

lemma cdc_configure_port_io_frame: "cdc_configure_port b w = (r, w') \<Longrightarrow> io_frame w w'"
  by (auto simp: cdc_configure_port_def dest!: control_io_frame intro: io_frame_trans split: prod.splits if_splits)

lemma cdc_flush_Some:
  "cdc_flush tr w = Some (tr', w') \<Longrightarrow>
     io_frame w w' \<and> cdc_handle tr' = cdc_handle tr \<and> cdc_int_number tr' = cdc_int_number tr"
  using drain_in_needs_read by (auto simp: cdc_flush_def)

lemma cdc_acm_open_Inr:
  assumes "cdc_acm_open p s b v pr w = Some (Inr tr, w')"
  shows "\<exists>wl dev tr1 w1 tr2 w2. find_device p s v pr w = (Some dev, wl) \<and> cdc_find_interface cdc_zero dev = (Inr (), tr1) \<and>
           cdc_open_interface tr1 dev wl = (Inr (), tr2, w1) \<and> cdc_configure_port b w1 = (Inr (), w2) \<and>
           cdc_flush tr2 w2 = Some (tr, w')"
  using assms
  by (auto simp: cdc_acm_open_def split: option.splits sum.splits prod.splits)

lemma cdc_destroy_after_open:
  assumes "fresh_handles w" and "cdc_open_interface tr1 dev w = (Inr (), tr2, w1)" and "cdc_handle tr1 = None"
    and "io_frame w1 w2" and "cdc_handle tr = cdc_handle tr2" and "cdc_int_number tr = cdc_int_number tr2"
  shows "open_handles (cdc_destroy tr w2) = open_handles w \<and> claimed (cdc_destroy tr w2) = claimed w"
proof -
  note o = cdc_open_interface_Inr [OF assms(2,3)]
  have w2: "open_handles w2 = next_handle w # open_handles w"
           "claimed w2 = (next_handle w, cdc_int_number tr1) # claimed w"
    using assms(4) o by (simp_all add: io_frame_def)
  have "filter (\<lambda>c. fst c \<noteq> next_handle w) (removeAll (next_handle w, cdc_int_number tr1) (claimed w)) = claimed w"
    using fresh_filter [OF assms(1)] by (simp add: removeAll_filter_not_eq filter_filter) (metis (mono_tags, lifting) filter_cong fst_conv)
  then show ?thesis
    using assms(5,6) o w2 fresh_removeAll [OF assms(1)] by (simp add: cdc_destroy_def)
qed

text \<open>For a process holding consistent handles, cdc_acm_open followed by usbtr_destroy leaves no handle open and no interface claimed beyond those held before.\<close>

lemma cdc_acm_open_destroy_releases:
  assumes "fresh_handles w" and "cdc_acm_open p s b v pr w = Some (Inr tr, w')"
  shows "open_handles (cdc_destroy tr w') = open_handles w \<and> claimed (cdc_destroy tr w') = claimed w"
proof -
  from cdc_acm_open_Inr [OF assms(2)] obtain wl dev tr1 w1 tr2 w2 where
    fd: "find_device p s v pr w = (Some dev, wl)" and fi: "cdc_find_interface cdc_zero dev = (Inr (), tr1)" and
    oi: "cdc_open_interface tr1 dev wl = (Inr (), tr2, w1)" and
    cp: "cdc_configure_port b w1 = (Inr (), w2)" and fl: "cdc_flush tr2 w2 = Some (tr, w')"
    by blast
  note k = find_device_kept [OF fd assms(1)]
  have n1: "cdc_handle tr1 = None" using cdc_find_interface_handle [OF fi] by (simp add: cdc_zero_def)
  have f: "io_frame w1 w'" using cdc_configure_port_io_frame [OF cp] cdc_flush_Some [OF fl] by (blast intro: io_frame_trans)
  show ?thesis
    using cdc_destroy_after_open [OF handles_kept_fresh [OF k assms(1)] oi n1 f] cdc_flush_Some [OF fl] k
    by (simp add: handles_kept_def)
qed

lemma cdc_acm_open_Inl:
  assumes "cdc_acm_open p s b v pr w = Some (Inl e, w')"
  shows "\<exists>r0 wl. find_device p s v pr w = (r0, wl) \<and> (w' = wl \<or>
         (\<exists>dev tr1 tr2. cdc_find_interface cdc_zero dev = (Inr (), tr1) \<and> cdc_open_interface tr1 dev wl = (Inl e, tr2, w')) \<or>
         (\<exists>dev tr1 tr2 w1 w2. cdc_find_interface cdc_zero dev = (Inr (), tr1) \<and> cdc_open_interface tr1 dev wl = (Inr (), tr2, w1) \<and>
            cdc_configure_port b w1 = (Inl e, w2) \<and> w' = cdc_destroy tr2 w2))"
  using assms
  by (auto simp: cdc_acm_open_def split: option.splits sum.splits prod.splits) blast+

text \<open>When cdc_acm_open fails, every handle and claim it acquired has been released.\<close>

lemma cdc_acm_open_failure_unwinds:
  assumes "fresh_handles w" and "cdc_acm_open p s b v pr w = Some (Inl e, w')"
  shows "open_handles w' = open_handles w \<and> claimed w' = claimed w"
proof -
  from cdc_acm_open_Inl [OF assms(2)] obtain r0 wl where fd: "find_device p s v pr w = (r0, wl)"
    and alt: "w' = wl \<or>
         (\<exists>dev tr1 tr2. cdc_find_interface cdc_zero dev = (Inr (), tr1) \<and> cdc_open_interface tr1 dev wl = (Inl e, tr2, w')) \<or>
         (\<exists>dev tr1 tr2 w1 w2. cdc_find_interface cdc_zero dev = (Inr (), tr1) \<and> cdc_open_interface tr1 dev wl = (Inr (), tr2, w1) \<and>
            cdc_configure_port b w1 = (Inl e, w2) \<and> w' = cdc_destroy tr2 w2)"
    by blast
  note k = find_device_kept [OF fd assms(1)]
  note f = handles_kept_fresh [OF k assms(1)]
  have "open_handles w' = open_handles wl \<and> claimed w' = claimed wl"
    using alt
  proof (elim disjE exE conjE)
    assume "w' = wl"
    then show ?thesis by simp
  next
    fix dev tr1 tr2
    assume fi: "cdc_find_interface cdc_zero dev = (Inr (), tr1)" and oi: "cdc_open_interface tr1 dev wl = (Inl e, tr2, w')"
    have "cdc_handle tr1 = None" using cdc_find_interface_handle [OF fi] by (simp add: cdc_zero_def)
    from cdc_open_interface_Inl [OF oi this f] show ?thesis .
  next
    fix dev tr1 tr2 w1 w2
    assume fi: "cdc_find_interface cdc_zero dev = (Inr (), tr1)" and oi: "cdc_open_interface tr1 dev wl = (Inr (), tr2, w1)"
      and cp: "cdc_configure_port b w1 = (Inl e, w2)" and w': "w' = cdc_destroy tr2 w2"
    have "cdc_handle tr1 = None" using cdc_find_interface_handle [OF fi] by (simp add: cdc_zero_def)
    from cdc_destroy_after_open [OF f oi this cdc_configure_port_io_frame [OF cp]] w' show ?thesis by simp
  qed
  with k show ?thesis by (simp add: handles_kept_def)
qed

lemma cdc_open_interface_acks:
  assumes "cdc_handle tr = None" and "\<not> dev_kernel_driver dev" and "script w = Ack # Ack # rs"
  shows "cdc_open_interface tr dev w =
           (Inr (), tr\<lparr>cdc_handle := Some (next_handle w)\<rparr>,
            w\<lparr>script := rs, trace := trace w @ [Open (dev_bus dev) (dev_addr dev), Claim (cdc_int_number tr)],
              next_handle := Suc (next_handle w), open_handles := next_handle w # open_handles w,
              claimed := (next_handle w, cdc_int_number tr) # claimed w\<rparr>)"
  using assms
  by (simp add: cdc_open_interface_def libusb_open_def libusb_claim_interface_def status_call_def
                take_reply_def log_call_def kernel_detach_def reply_status_def elapse_def)

text \<open>C33: configure_port compares the result of the 7-byte SET_LINE_CODING transfer with 0, but libusb returns the 7 bytes transferred on success: on an adapter that accepts the line coding, cdc_acm_open fails with that byte count.\<close>

theorem cdc_acm_open_rejects_ack:
  assumes "find_device p s v pr w = (Some dev, w0)" and "fst (cdc_find_interface cdc_zero dev) = Inr ()"
    and "\<not> dev_kernel_driver dev" and "script w0 = Ack # Ack # Ack # rs"
  shows "map_option fst (cdc_acm_open p s b v pr w) = Some (Inl (E_control 7))"
proof -
  obtain tr1 where fi: "cdc_find_interface cdc_zero dev = (Inr (), tr1)"
    using assms(2) by (cases "cdc_find_interface cdc_zero dev") auto
  have n1: "cdc_handle tr1 = None" using cdc_find_interface_handle [OF fi] by (simp add: cdc_zero_def)
  note oi = cdc_open_interface_acks [OF n1 assms(3,4)]
  have "fst (cdc_configure_port b (w0\<lparr>script := Ack # rs, trace := trace w0 @ [Open (dev_bus dev) (dev_addr dev), Claim (cdc_int_number tr1)],
              next_handle := Suc (next_handle w0), open_handles := next_handle w0 # open_handles w0,
              claimed := (next_handle w0, cdc_int_number tr1) # claimed w0\<rparr>)) = Inl (E_control 7)"
    by (simp add: cdc_configure_port_def libusb_control_transfer_def take_reply_def log_call_def reply_status_def
                  elapse_def line_coding_def)
  then show ?thesis
    using assms(1) fi oi by (auto simp: cdc_acm_open_def split: prod.splits sum.splits)
qed
lemma cdc_example_find:
  "find_device None None 0x2047 0x0010 (empty_world [cdc_example_dev] rs) =
     (Some cdc_example_dev, empty_world [cdc_example_dev] rs)"
  by (simp add: find_device_no_serial find_by_id_ref_def serial_matches_def empty_world_def cdc_example_dev_def)

lemma cdc_example_interface:
  "cdc_find_interface cdc_zero cdc_example_dev = (Inr (), cdc_zero\<lparr>cdc_in_ep := 129, cdc_out_ep := 2, cdc_int_number := 0\<rparr>)"
  by (simp add: cdc_find_interface_def cdc_example_dev_def cdc_zero_def)

lemma cdc_acm_open_path:
  assumes "find_device p s v pr w = (Some dev, w0)" and "cdc_find_interface cdc_zero dev = (Inr (), tr1)"
    and "cdc_open_interface tr1 dev w0 = (Inr (), tr2, w1)"
  shows "cdc_acm_open p s b v pr w =
           (case cdc_configure_port b w1 of
              (Inl e, w2) \<Rightarrow> Some (Inl e, cdc_destroy tr2 w2)
            | (Inr _, w2) \<Rightarrow> map_option (\<lambda>(tr3, w3). (Inr tr3, w3)) (cdc_flush tr2 w2))"
  using assms by (simp add: cdc_acm_open_def)

lemma cdc_example_open_iface:
  "cdc_open_interface (cdc_zero\<lparr>cdc_in_ep := 129, cdc_out_ep := 2, cdc_int_number := 0\<rparr>) cdc_example_dev
      (empty_world [cdc_example_dev] (Ack # Ack # rs)) =
     (Inr (), cdc_zero\<lparr>cdc_in_ep := 129, cdc_out_ep := 2, cdc_int_number := 0, cdc_handle := Some 0\<rparr>,
      (empty_world [cdc_example_dev] rs)\<lparr>trace := [Open 2 3, Claim 0], next_handle := 1, open_handles := [0], claimed := [(0, 0)]\<rparr>)"
proof -
  have h1: "cdc_handle (cdc_zero\<lparr>cdc_in_ep := 129, cdc_out_ep := 2, cdc_int_number := 0\<rparr>) = None" by (simp add: cdc_zero_def)
  have h2: "\<not> dev_kernel_driver cdc_example_dev" by (simp add: cdc_example_dev_def)
  have h3: "script (empty_world [cdc_example_dev] (Ack # Ack # rs)) = Ack # Ack # rs" by (simp add: empty_world_def)
  from cdc_open_interface_acks [OF h1 h2 h3] show ?thesis
    by (simp add: empty_world_def cdc_example_dev_def cdc_zero_def)
qed

theorem cdc_recv_ok_witness:
  "cdc_ok cdc_zero \<and> cdc_ok (fst (snd (cdc_recv cdc_zero 2 (empty_world [] [Data 0 [1, 2, 3]]))))"
proof -
  have h: "cdc_ok cdc_zero" by (simp add: cdc_ok_def cdc_zero_def)
  from h cdc_recv_ok [OF h] show ?thesis by simp
qed

theorem cdc_recv_buffered_witness:
  "cdc_ok (cdc_example_buf 1) \<and> cdc_pending (cdc_example_buf 1) \<noteq> [] \<and>
   fst (cdc_recv (cdc_example_buf 1) 1 (empty_world [] [])) = Inr [2] \<and>
   cdc_pending (fst (snd (cdc_recv (cdc_example_buf 1) 1 (empty_world [] [])))) = [3]"
proof -
  have h1: "cdc_ok (cdc_example_buf 1)" by (simp add: cdc_ok_def cdc_example_buf_def cdc_zero_def)
  have p: "cdc_pending (cdc_example_buf 1) = [2, 3]" by (simp add: cdc_pending_def cdc_example_buf_def cdc_zero_def)
  have h2: "cdc_pending (cdc_example_buf 1) \<noteq> []" using p by simp
  from cdc_recv_buffered [OF h1 h2, of 1 "empty_world [] []"] h1 h2 p show ?thesis by simp
qed

theorem cdc_recv_refill_witness:
  "fst (cdc_recv cdc_zero 2 (empty_world [] [Data 0 [1, 2, 3]])) = Inr [1, 2] \<and>
   cdc_pending (fst (snd (cdc_recv cdc_zero 2 (empty_world [] [Data 0 [1, 2, 3]])))) = [3]"
proof -
  have h1: "cdc_ok cdc_zero" by (simp add: cdc_ok_def cdc_zero_def)
  have h2: "cdc_pending cdc_zero = []" by (simp add: cdc_pending_def cdc_zero_def)
  have h3: "script (empty_world [] [Data 0 [1, 2, 3]]) = Data 0 [1, 2, 3] # []" by (simp add: empty_world_def)
  have h4: "length [1, 2, 3 :: byte] \<le> READ_BUFFER_SIZE" by simp
  from cdc_recv_refill [OF h1 h2 h3 h4, of 2] show ?thesis by simp
qed

theorem cdc_recv_stale_witness:
  "fst (cdc_recv (cdc_example_buf 3) 4 (empty_world [] [Fail (-1)])) = Inl (E_transfer (-1)) \<and>
   fst (cdc_recv (fst (snd (cdc_recv (cdc_example_buf 3) 4 (empty_world [] [Fail (-1)])))) 2
          (snd (snd (cdc_recv (cdc_example_buf 3) 4 (empty_world [] [Fail (-1)]))))) = Inr [1, 2]"
proof -
  have h1: "cdc_ok (cdc_example_buf 3)" by (simp add: cdc_ok_def cdc_example_buf_def cdc_zero_def)
  have h2: "rbuf_ptr (cdc_example_buf 3) = rbuf_len (cdc_example_buf 3)" by (simp add: cdc_example_buf_def)
  have h3: "0 < rbuf_len (cdc_example_buf 3)" by (simp add: cdc_example_buf_def)
  have h4: "script (empty_world [] [Fail (-1)]) = Fail (-1) # []" by (simp add: empty_world_def)
  from cdc_recv_stale [OF h1 h2 h3 h4, of 2 4] show ?thesis by (simp add: cdc_example_buf_def)
qed

theorem cdc_acm_open_rejects_ack_witness:
  "map_option fst (cdc_acm_open None None 9600 0x2047 0x0010 (empty_world [cdc_example_dev] [Ack, Ack, Ack])) = Some (Inl (E_control 7))"
proof -
  have h4: "script (empty_world [cdc_example_dev] [Ack, Ack, Ack]) = Ack # Ack # Ack # []" by (simp add: empty_world_def)
  show ?thesis
    using cdc_acm_open_rejects_ack [OF cdc_example_find _ _ h4, of 9600] cdc_example_interface
    by (simp add: cdc_example_dev_def)
qed

lemma cdc_example_open_ok:
  "cdc_acm_open None None 9600 0x2047 0x0010 (empty_world [cdc_example_dev] [Ack, Ack, Fail 0, Ack, Ack]) =
     Some (Inr (cdc_zero\<lparr>cdc_in_ep := 129, cdc_out_ep := 2, cdc_int_number := 0, cdc_handle := Some 0\<rparr>),
           snd (the (cdc_acm_open None None 9600 0x2047 0x0010 (empty_world [cdc_example_dev] [Ack, Ack, Fail 0, Ack, Ack]))))"
  unfolding cdc_acm_open_path [OF cdc_example_find cdc_example_interface cdc_example_open_iface]
  by (simp add: empty_world_def cdc_configure_port_def libusb_control_transfer_def take_reply_def
                log_call_def reply_status_def elapse_def line_coding_def cdc_flush_def drain_in_first_ok read_ok_def
                libusb_bulk_in_def cdc_zero_def)

text \<open>C31: cdc_acm_open keeps the handles balanced: when it fails, every handle and claim it acquired has been released; when it succeeds, usbtr_destroy releases what it acquired.\<close>

theorem cdc_acm_open_balanced:
  assumes "fresh_handles w" and "cdc_acm_open p s b v pr w = Some (r, w')"
  shows "case r of
           Inl _ \<Rightarrow> open_handles w' = open_handles w \<and> claimed w' = claimed w
         | Inr tr \<Rightarrow> open_handles (cdc_destroy tr w') = open_handles w \<and> claimed (cdc_destroy tr w') = claimed w"
proof (cases r)
  case (Inl e)
  with cdc_acm_open_failure_unwinds [OF assms(1)] assms(2) show ?thesis by simp
next
  case (Inr tr)
  with cdc_acm_open_destroy_releases [OF assms(1)] assms(2) show ?thesis by simp
qed

theorem cdc_acm_open_balanced_witness:
  "open_handles (cdc_destroy (cdc_zero\<lparr>cdc_in_ep := 129, cdc_out_ep := 2, cdc_int_number := 0, cdc_handle := Some 0\<rparr>)
       (snd (the (cdc_acm_open None None 9600 0x2047 0x0010 (empty_world [cdc_example_dev] [Ack, Ack, Fail 0, Ack, Ack]))))) = [] \<and>
   claimed (cdc_destroy (cdc_zero\<lparr>cdc_in_ep := 129, cdc_out_ep := 2, cdc_int_number := 0, cdc_handle := Some 0\<rparr>)
       (snd (the (cdc_acm_open None None 9600 0x2047 0x0010 (empty_world [cdc_example_dev] [Ack, Ack, Fail 0, Ack, Ack]))))) = []"
proof -
  have h: "fresh_handles (empty_world [cdc_example_dev] [Ack, Ack, Fail 0, Ack, Ack])" by (simp add: fresh_handles_def empty_world_def)
  from cdc_acm_open_balanced [OF h cdc_example_open_ok] show ?thesis by (simp add: empty_world_def)
qed

end
