(* ===== verification/Cp210x.thy ===== *)
theory Cp210x
  imports Transport
begin

text \<open>
  The CP210x backend, \<open>src/unnamed/part_001\<close> (\<open>cp210x.c\<close>): the UART enable, baud
  divisor and modem-handshake commands of \<open>configure_port\<close>, the interface loop of
  \<open>open_device\<close> that tries every vendor-class interface in turn, the deadline loop
  of \<open>usbtr_recv\<close> and the inverted modem lines of \<open>usbtr_set_modem\<close>. Static
  functions whose names other backends reuse carry the prefix \<open>cp_\<close>.
\<close>

unbundle bit_operations_syntax

subsection \<open>Constants and state\<close>

definition CP210X_CLOCK :: int where "CP210X_CLOCK = 3500000"
definition V1_INTERFACE_CLASS :: byte where "V1_INTERFACE_CLASS = 255"
definition V1_IN_EP :: int where "V1_IN_EP = 0x81"
definition V1_OUT_EP :: int where "V1_OUT_EP = 0x01"
definition CP210x_REQTYPE_HOST_TO_DEVICE :: byte where "CP210x_REQTYPE_HOST_TO_DEVICE = 0x41"
definition CP210X_IFC_ENABLE :: byte where "CP210X_IFC_ENABLE = 0x00"
definition CP210X_SET_BAUDDIV :: byte where "CP210X_SET_BAUDDIV = 0x01"
definition CP210X_SET_MHS :: byte where "CP210X_SET_MHS = 0x07"
definition CP210X_DTR :: "16 word" where "CP210X_DTR = 0x0001"
definition CP210X_RTS :: "16 word" where "CP210X_RTS = 0x0002"
definition CP210X_WRITE_DTR :: "16 word" where "CP210X_WRITE_DTR = 0x0100"
definition CP210X_WRITE_RTS :: "16 word" where "CP210X_WRITE_RTS = 0x0200"
definition CP210X_TIMEOUT_S :: nat where "CP210X_TIMEOUT_S = 30"

record cp210x_transport =
  cp_handle :: "handle option"
  cp_int_number :: nat

definition cp_zero :: cp210x_transport where
  "cp_zero = \<lparr>cp_handle = None, cp_int_number = 0\<rparr>"

subsection \<open>Configuration and open\<close>

text \<open>
  The baud divisor \<open>CP210X_CLOCK / baud_rate\<close> is a C \<open>int\<close> division (undefined for
  a zero rate) passed as the 16-bit \<open>wValue\<close> of the control transfer, which keeps
  its low 16 bits.
\<close>

definition cp_baud_div :: "int \<Rightarrow> 16 word" where
  "cp_baud_div baud_rate = word_of_int (c_div CP210X_CLOCK baud_rate)"

text \<open>\<open>configure_port\<close> tests each result with \<open>rc < 0\<close>.\<close>

definition cp_configure_port :: "int \<Rightarrow> usb_world \<Rightarrow> (usb_error + unit) \<times> usb_world" where
  "cp_configure_port baud_rate w =
     (case libusb_control_transfer CP210x_REQTYPE_HOST_TO_DEVICE CP210X_IFC_ENABLE 0x1 0 [] 300 w of
        (rc, w1) \<Rightarrow>
          if rc < 0 then (Inl (E_control rc), w1)
          else if baud_rate = 0 then (Inl E_div_zero, w1)
          else (case libusb_control_transfer CP210x_REQTYPE_HOST_TO_DEVICE CP210X_SET_BAUDDIV
                       (cp_baud_div baud_rate) 0 [] 300 w1 of
                  (rc2, w2) \<Rightarrow>
                    if rc2 < 0 then (Inl (E_control rc2), w2)
                    else (case libusb_control_transfer CP210x_REQTYPE_HOST_TO_DEVICE CP210X_SET_MHS 0x303 0 [] 300 w2 of
                            (rc3, w3) \<Rightarrow> if rc3 < 0 then (Inl (E_control rc3), w3) else (Inr (), w3))))"

text \<open>
  \<open>open_interface\<close>: record the interface number, open (a failed \<open>libusb_open\<close>
  leaves \<open>tr->handle\<close> as it was), detach a kernel driver, claim, configure; a
  failed claim or configuration closes the handle but leaves \<open>tr->handle\<close> set.
\<close>

definition cp_open_interface ::
  "cp210x_transport \<Rightarrow> usb_device \<Rightarrow> nat \<Rightarrow> int \<Rightarrow> usb_world \<Rightarrow> (usb_error + unit) \<times> cp210x_transport \<times> usb_world" where
  "cp_open_interface tr dev ino baud_rate w =
     (let tr1 = tr\<lparr>cp_int_number := ino\<rparr> in
      case libusb_open dev w of ((rc, ho), w1) \<Rightarrow>
        let tr2 = (case ho of Some h \<Rightarrow> tr1\<lparr>cp_handle := Some h\<rparr> | None \<Rightarrow> tr1) in
        (case cp_handle tr2 of
           None \<Rightarrow> (Inl (E_open rc), tr2, w1)
         | Some h \<Rightarrow>
             (case libusb_claim_interface h ino (kernel_detach dev ino w1) of (rc2, w2) \<Rightarrow>
                if rc2 \<noteq> 0 then (Inl (E_claim rc2), tr2, libusb_close h w2)
                else (case cp_configure_port baud_rate w2 of
                        (Inl e, w3) \<Rightarrow> (Inl e, tr2, libusb_close h w3)
                      | (Inr _, w3) \<Rightarrow> (Inr (), tr2, w3)))))"

text \<open>\<open>open_device\<close>: try every interface of class 255 until one opens.\<close>

fun cp_try_interfaces ::
  "intf_desc list \<Rightarrow> usb_device \<Rightarrow> int \<Rightarrow> cp210x_transport \<Rightarrow> usb_world \<Rightarrow>
     (usb_error + unit) \<times> cp210x_transport \<times> usb_world" where
  "cp_try_interfaces [] dev baud_rate tr w = (Inl E_no_interface, tr, w)"
| "cp_try_interfaces (d # ds) dev baud_rate tr w =
     (if bInterfaceClass d = V1_INTERFACE_CLASS then
        (case cp_open_interface tr dev (bInterfaceNumber d) baud_rate w of
           (Inr u, tr', w') \<Rightarrow> (Inr u, tr', w')
         | (Inl _, tr', w') \<Rightarrow> cp_try_interfaces ds dev baud_rate tr' w')
      else cp_try_interfaces ds dev baud_rate tr w)"

definition cp_open_device ::
  "cp210x_transport \<Rightarrow> usb_device \<Rightarrow> int \<Rightarrow> usb_world \<Rightarrow> (usb_error + unit) \<times> cp210x_transport \<times> usb_world" where
  "cp_open_device tr dev baud_rate w = (case dev_config dev of
      None \<Rightarrow> (Inl E_config, tr, w)
    | Some c \<Rightarrow> cp_try_interfaces (interfaces c) dev baud_rate tr w)"

subsection \<open>Transport operations\<close>

definition cp_send :: "cp210x_transport \<Rightarrow> byte list \<Rightarrow> usb_world \<Rightarrow> (usb_error + unit) \<times> usb_world" where
  "cp_send tr data w = send_loop V1_OUT_EP (CP210X_TIMEOUT_S * 1000) data w"

text \<open>
  The read loop of \<open>usbtr_recv\<close>: read until a transfer succeeds (returning what it
  brought, possibly nothing) or the whole-second deadline passes; a timeout retries
  only while the deadline has not passed.
\<close>

function cp_recv_loop :: "nat \<Rightarrow> nat \<Rightarrow> usb_world \<Rightarrow> (usb_error + byte list) \<times> usb_world" where
  "cp_recv_loop deadline max_len w =
     (if time_now w < deadline then
        (case libusb_bulk_in V1_IN_EP max_len (CP210X_TIMEOUT_S * 1000) w of ((rc, d), w') \<Rightarrow>
           if rc \<noteq> 0 \<and> rc \<noteq> LIBUSB_ERROR_TIMEOUT then (Inl (E_transfer rc), w')
           else if rc = 0 then (Inr d, w')
           else cp_recv_loop deadline max_len w')
      else (Inl E_timeout, w))"
  by pat_completeness auto
termination
  by (relation "measure (\<lambda>(deadline, max_len, w). length (script w))")
     (auto simp: libusb_bulk_in_def take_reply_def elapse_def split: list.splits reply.splits if_splits)

declare cp_recv_loop.simps [simp del]

definition cp_recv :: "cp210x_transport \<Rightarrow> nat \<Rightarrow> usb_world \<Rightarrow> (usb_error + byte list) \<times> usb_world" where
  "cp_recv tr max_len w = cp_recv_loop (time_now w + CP210X_TIMEOUT_S) max_len w"

definition cp_destroy :: "cp210x_transport \<Rightarrow> usb_world \<Rightarrow> usb_world" where
  "cp_destroy tr w = (case cp_handle tr of
      None \<Rightarrow> w
    | Some h \<Rightarrow> libusb_close h (libusb_release_interface h (cp_int_number tr) w))"

definition cp_flush :: "cp210x_transport \<Rightarrow> usb_world \<Rightarrow> usb_world option" where
  "cp_flush tr w = drain_in V1_IN_EP 64 100 w"

text \<open>The modem lines are active low: a line is driven by clearing its bit.\<close>

definition cp_modem_value :: "nat \<Rightarrow> 16 word" where
  "cp_modem_value state =
     CP210X_WRITE_DTR OR CP210X_WRITE_RTS OR (if modem_dtr state then 0 else CP210X_DTR)
       OR (if modem_rts state then 0 else CP210X_RTS)"

definition cp_set_modem :: "cp210x_transport \<Rightarrow> nat \<Rightarrow> usb_world \<Rightarrow> (usb_error + unit) \<times> usb_world" where
  "cp_set_modem tr state w =
     (case libusb_control_transfer CP210x_REQTYPE_HOST_TO_DEVICE CP210X_SET_MHS (cp_modem_value state) 0 [] 300 w of
        (rc, w') \<Rightarrow> if rc \<noteq> 0 then (Inl (E_control rc), w') else (Inr (), w'))"

text \<open>
  \<open>cp210x_open\<close> takes \<open>product\<close> before \<open>vendor\<close> and passes them in that order as
  \<open>usbutil_find_by_id\<close>'s vendor and product; then open the device and flush.
\<close>

definition cp210x_open ::
  "string option \<Rightarrow> string option \<Rightarrow> int \<Rightarrow> 16 word \<Rightarrow> 16 word \<Rightarrow> usb_world \<Rightarrow>
     ((usb_error + cp210x_transport) \<times> usb_world) option" where
  "cp210x_open devpath requested_serial baud_rate product vendor w =
     (case find_device devpath requested_serial product vendor w of
        (None, w0) \<Rightarrow> Some (Inl E_not_found, w0)
      | (Some dev, w0) \<Rightarrow>
          (case cp_open_device cp_zero dev baud_rate w0 of
             (Inl e, _, w1) \<Rightarrow> Some (Inl e, w1)
           | (Inr _, tr, w1) \<Rightarrow> map_option (\<lambda>w2. (Inr tr, w2)) (cp_flush tr w1)))"

subsection \<open>Reference definitions\<close>

text \<open>
  The state of the interface loop of \<open>open_device\<close> between attempts: the process holds
  the handles and claims it held before \<open>cp210x_open\<close>, and \<open>tr->handle\<close>, when set, is a
  handle numbered after them; and its state after an attempt that succeeded. An example
  adapter with two vendor-class interfaces and a script on which the first attempt fails
  at the claim and the second at \<open>libusb_open\<close>.
\<close>

definition cp_attempt_inv :: "usb_world \<Rightarrow> cp210x_transport \<Rightarrow> usb_world \<Rightarrow> bool" where
  "cp_attempt_inv w0 tr w \<longleftrightarrow>
     open_handles w = open_handles w0 \<and> claimed w = claimed w0 \<and> next_handle w0 \<le> next_handle w \<and>
     (case cp_handle tr of None \<Rightarrow> True | Some h \<Rightarrow> next_handle w0 \<le> h)"

definition cp_opened :: "usb_world \<Rightarrow> cp210x_transport \<Rightarrow> usb_world \<Rightarrow> bool" where
  "cp_opened w0 tr w \<longleftrightarrow> (case cp_handle tr of
      None \<Rightarrow> False
    | Some h \<Rightarrow> next_handle w0 \<le> h \<and> removeAll h (open_handles w) = open_handles w0 \<and>
                claimed w = (h, cp_int_number tr) # claimed w0)"

definition cp_example_dev :: usb_device where
  "cp_example_dev = \<lparr>dev_bus = 1, dev_addr = 4, idVendor = 0x10c4, idProduct = 0xea60, dev_serial = None,
     bNumConfigurations = 1,
     dev_config = Some \<lparr>bConfigurationValue = 1,
       interfaces = [\<lparr>bInterfaceClass = 255, bInterfaceNumber = 0, endpoints = []\<rparr>,
                     \<lparr>bInterfaceClass = 255, bInterfaceNumber = 1, endpoints = []\<rparr>]\<rparr>,
     dev_kernel_driver = False\<rparr>"

definition cp_stale_script :: "reply list" where
  "cp_stale_script = [Ack, Fail (-6), Fail (-3), Ack, Ack, Ack, Ack, Ack]"

subsection \<open>Properties\<close>

lemmas cp210x_consts [simp] = CP210X_CLOCK_def V1_INTERFACE_CLASS_def V1_IN_EP_def V1_OUT_EP_def
  CP210x_REQTYPE_HOST_TO_DEVICE_def CP210X_IFC_ENABLE_def CP210X_SET_BAUDDIV_def CP210X_SET_MHS_def
  CP210X_DTR_def CP210X_RTS_def CP210X_WRITE_DTR_def CP210X_WRITE_RTS_def

lemma cp_timeout_pos: "0 < CP210X_TIMEOUT_S"
  by (simp add: CP210X_TIMEOUT_S_def)

lemma cp_recv_loop_expired:
  "\<not> time_now w < d \<Longrightarrow> cp_recv_loop d n w = (Inl E_timeout, w)"
  by (subst cp_recv_loop.simps) simp

text \<open>C36: usbtr_recv makes exactly one bulk read: a read that times out uses up the whole 30-second deadline (its transfer timeout is 30 s), so the retry loop never runs a second time.\<close>

theorem cp_recv_single_transfer:
  "trace (snd (cp_recv tr n w)) = trace w @ [BulkIn V1_IN_EP n]"
  unfolding cp_recv_def
  by (subst cp_recv_loop.simps)
     (auto simp: libusb_bulk_in_def take_reply_def cp_recv_loop_expired time_now_elapse cp_timeout_pos
           split: list.splits reply.splits)

lemma cp_configure_port_io_frame: "cp_configure_port b w = (r, w') \<Longrightarrow> io_frame w w'"
  by (auto simp: cp_configure_port_def dest!: control_io_frame intro: io_frame_trans split: prod.splits if_splits)

lemma cp_open_interface_attempt:
  assumes f: "fresh_handles w0" and inv: "cp_attempt_inv w0 tr w"
    and oi: "cp_open_interface tr dev ino b w = (r, tr', w')"
  shows "case r of Inl _ \<Rightarrow> cp_attempt_inv w0 tr' w' | Inr _ \<Rightarrow> cp_opened w0 tr' w'"
proof -
  obtain rc ho w1 where o: "libusb_open dev w = ((rc, ho), w1)" by (metis prod.exhaust)
  let ?tr2 = "(case ho of Some h \<Rightarrow> tr\<lparr>cp_int_number := ino, cp_handle := Some h\<rparr> | None \<Rightarrow> tr\<lparr>cp_int_number := ino\<rparr>)"
  have eq: "cp_open_interface tr dev ino b w =
      (case cp_handle ?tr2 of
         None \<Rightarrow> (Inl (E_open rc), ?tr2, w1)
       | Some h \<Rightarrow>
           (case libusb_claim_interface h ino (kernel_detach dev ino w1) of (rc2, w2) \<Rightarrow>
              if rc2 \<noteq> 0 then (Inl (E_claim rc2), ?tr2, libusb_close h w2)
              else (case cp_configure_port b w2 of
                      (Inl e, w3) \<Rightarrow> (Inl e, ?tr2, libusb_close h w3)
                    | (Inr _, w3) \<Rightarrow> (Inr (), ?tr2, w3))))"
    using o by (cases ho) (auto simp: cp_open_interface_def Let_def split: option.splits)
  have w1: "claimed w1 = claimed w0 \<and> next_handle w0 \<le> next_handle w1 \<and>
            (case cp_handle ?tr2 of None \<Rightarrow> open_handles w1 = open_handles w0
             | Some h \<Rightarrow> next_handle w0 \<le> h \<and> removeAll h (open_handles w1) = open_handles w0)"
  proof (cases ho)
    case None
    with libusb_open_None [OF o [unfolded None]] inv f show ?thesis
      by (auto simp: cp_attempt_inv_def fresh_removeAll_ge split: option.splits)
  next
    case (Some h)
    with libusb_open_Some [OF o [unfolded Some]] inv f show ?thesis
      by (auto simp: cp_attempt_inv_def fresh_removeAll_ge)
  qed
  show ?thesis
  proof (cases "cp_handle ?tr2")
    case None
    with oi eq w1 show ?thesis by (auto simp: cp_attempt_inv_def)
  next
    case (Some h)
    obtain rc2 w2 where cl: "libusb_claim_interface h ino (kernel_detach dev ino w1) = (rc2, w2)"
      by (metis prod.exhaust)
    note c2 = libusb_claim_effect [OF cl]
    have ino: "cp_int_number ?tr2 = ino" by (simp add: split: option.splits)
    show ?thesis
    proof (cases "rc2 = 0")
      case False
      with oi eq Some cl c2 w1 f show ?thesis by (auto simp: cp_attempt_inv_def fresh_filter_ge)
    next
      case True
      obtain r3 w3 where cp: "cp_configure_port b w2 = (r3, w3)" by (metis prod.exhaust)
      note fr = cp_configure_port_io_frame [OF cp]
      show ?thesis
        using oi eq Some cl c2 w1 f True cp fr ino
        by (cases r3) (auto simp: cp_attempt_inv_def cp_opened_def fresh_filter_ge io_frame_def)
    qed
  qed
qed

lemma cp_try_interfaces_attempt:
  "fresh_handles w0 \<Longrightarrow> cp_attempt_inv w0 tr w \<Longrightarrow> cp_try_interfaces ds dev b tr w = (r, tr', w') \<Longrightarrow>
     case r of Inl _ \<Rightarrow> cp_attempt_inv w0 tr' w' | Inr _ \<Rightarrow> cp_opened w0 tr' w'"
proof (induction ds arbitrary: tr w)
  case Nil
  then show ?case by auto
next
  case (Cons d ds)
  obtain r1 tr1 w1 where oi: "cp_open_interface tr dev (bInterfaceNumber d) b w = (r1, tr1, w1)"
    by (metis prod.exhaust)
  note a = cp_open_interface_attempt [OF Cons.prems(1,2) oi]
  show ?case
  proof (cases "bInterfaceClass d = V1_INTERFACE_CLASS")
    case True
    show ?thesis
    proof (cases r1)
      case (Inl e)
      with Cons.prems True oi a Cons.IH [of tr1 w1] show ?thesis by simp
    next
      case (Inr u)
      with Cons.prems True oi a show ?thesis by auto
    qed
  next
    case False
    with Cons.prems Cons.IH [of tr w] show ?thesis by simp
  qed
qed

lemma cp_open_device_attempt:
  assumes "fresh_handles w" and "cp_open_device cp_zero dev b w = (r, tr', w')"
  shows "case r of Inl _ \<Rightarrow> open_handles w' = open_handles w \<and> claimed w' = claimed w
                 | Inr _ \<Rightarrow> cp_opened w tr' w'"
proof (cases "dev_config dev")
  case None
  with assms show ?thesis by (auto simp: cp_open_device_def)
next
  case (Some c)
  have "cp_attempt_inv w cp_zero w" by (simp add: cp_attempt_inv_def cp_zero_def)
  from cp_try_interfaces_attempt [OF assms(1) this, of "interfaces c" dev b r tr' w'] Some assms(2)
  show ?thesis by (cases r) (simp_all add: cp_open_device_def cp_attempt_inv_def)
qed

text \<open>C34: cp210x_open keeps the handles balanced: when it fails, no handle or claim it acquired is left; when it succeeds, usbtr_destroy releases what it acquired.\<close>

theorem cp210x_open_balanced:
  assumes "fresh_handles w" and "cp210x_open p s b pr v w = Some (r, w')"
  shows "case r of
           Inl _ \<Rightarrow> open_handles w' = open_handles w \<and> claimed w' = claimed w
         | Inr tr \<Rightarrow> open_handles (cp_destroy tr w') = open_handles w \<and> claimed (cp_destroy tr w') = claimed w"
proof -
  obtain r0 wl where fd: "find_device p s pr v w = (r0, wl)" by (metis prod.exhaust)
  note k = find_device_kept [OF fd assms(1)]
  note f = handles_kept_fresh [OF k assms(1)]
  have "case r of
           Inl _ \<Rightarrow> open_handles w' = open_handles wl \<and> claimed w' = claimed wl
         | Inr tr \<Rightarrow> open_handles (cp_destroy tr w') = open_handles wl \<and> claimed (cp_destroy tr w') = claimed wl"
  proof (cases r0)
    case None
    with assms(2) fd show ?thesis by (auto simp: cp210x_open_def)
  next
    case (Some dev)
    obtain r1 tr1 w1 where od: "cp_open_device cp_zero dev b wl = (r1, tr1, w1)" by (metis prod.exhaust)
    note a = cp_open_device_attempt [OF f od]
    show ?thesis
    proof (cases r1)
      case (Inl e)
      with assms(2) fd Some od a show ?thesis by (auto simp: cp210x_open_def)
    next
      case (Inr u)
      with assms(2) fd Some od obtain w2 where fl: "cp_flush tr1 w1 = Some w2" and r: "r = Inr tr1" and w': "w' = w2"
        by (auto simp: cp210x_open_def)
      have fr: "io_frame w1 w2" using drain_in_needs_read fl by (simp add: cp_flush_def)
      from a Inr obtain h where h: "cp_handle tr1 = Some h" "next_handle wl \<le> h"
          "removeAll h (open_handles w1) = open_handles wl" "claimed w1 = (h, cp_int_number tr1) # claimed wl"
        by (auto simp: cp_opened_def split: option.splits)
      show ?thesis
        using h fr r w' fresh_release_close [OF f h(2)] fresh_filter_ge [OF f h(2)]
        by (simp add: cp_destroy_def io_frame_def)
    qed
  qed
  with k show ?thesis by (simp add: handles_kept_def split: sum.splits)
qed

text \<open>C35: When libusb_open fails in open_interface, tr->handle keeps the handle of an earlier attempt, which that attempt has closed: the code claims and configures the interface through the closed handle and reports success.\<close>

theorem cp_open_interface_stale_handle:
  assumes "cp_handle tr = Some h" and "h \<notin> set (open_handles w)" and "b \<noteq> 0"
    and "script w = Fail rc # Ack # Ack # Ack # Ack # rs"
  shows "case cp_open_interface tr dev ino b w of (r, tr', w') \<Rightarrow>
           r = Inr () \<and> cp_handle tr' = Some h \<and> h \<notin> set (open_handles w') \<and> (h, ino) \<in> set (claimed w')"
  using assms
  by (simp add: cp_open_interface_def Let_def libusb_open_def take_reply_def log_call_def reply_status_def
                libusb_claim_interface_def status_call_def elapse_def kernel_detach_def cp_configure_port_def
                libusb_control_transfer_def)

lemma cp_example_find:
  "find_device None None 0x10c4 0xea60 (empty_world [cp_example_dev] rs) =
     (Some cp_example_dev, empty_world [cp_example_dev] rs)"
  by (simp add: find_device_no_serial find_by_id_ref_def serial_matches_def empty_world_def cp_example_dev_def)

theorem cp_open_interface_stale_handle_witness:
  "case cp_open_interface (cp_zero\<lparr>cp_handle := Some 0\<rparr>) cp_example_dev 1 500000
          (empty_world [cp_example_dev] [Fail (-3), Ack, Ack, Ack, Ack]) of (r, tr', w') \<Rightarrow>
     r = Inr () \<and> cp_handle tr' = Some 0 \<and> 0 \<notin> set (open_handles w') \<and> (0, 1) \<in> set (claimed w')"
proof -
  have h1: "cp_handle (cp_zero\<lparr>cp_handle := Some 0\<rparr>) = Some 0" by simp
  have h2: "(0::nat) \<notin> set (open_handles (empty_world [cp_example_dev] [Fail (-3), Ack, Ack, Ack, Ack]))"
    by (simp add: empty_world_def)
  have h4: "script (empty_world [cp_example_dev] [Fail (-3), Ack, Ack, Ack, Ack]) = Fail (-3) # Ack # Ack # Ack # Ack # []"
    by (simp add: empty_world_def)
  from cp_open_interface_stale_handle [OF h1 h2 _ h4, where b = 500000 and dev = cp_example_dev and ino = 1] show ?thesis by simp
qed

lemma cp_example_open_stale:
  "cp210x_open None None 500000 0x10c4 0xea60 (empty_world [cp_example_dev] cp_stale_script) =
     Some (Inr (cp_zero\<lparr>cp_handle := Some 0, cp_int_number := 1\<rparr>),
           snd (the (cp210x_open None None 500000 0x10c4 0xea60 (empty_world [cp_example_dev] cp_stale_script))))"
  unfolding cp210x_open_def cp_example_find
  by (simp add: cp_open_device_def cp_example_dev_def cp_open_interface_def Let_def
        libusb_open_def take_reply_def log_call_def reply_status_def libusb_claim_interface_def status_call_def
        elapse_def kernel_detach_def cp_configure_port_def libusb_control_transfer_def empty_world_def
        cp_stale_script_def cp_zero_def cp_flush_def drain_in_first_ok read_ok_def libusb_bulk_in_def libusb_close_def)

theorem cp210x_open_balanced_witness:
  "open_handles (cp_destroy (cp_zero\<lparr>cp_handle := Some 0, cp_int_number := 1\<rparr>)
      (snd (the (cp210x_open None None 500000 0x10c4 0xea60 (empty_world [cp_example_dev] cp_stale_script))))) = [] \<and>
   claimed (cp_destroy (cp_zero\<lparr>cp_handle := Some 0, cp_int_number := 1\<rparr>)
      (snd (the (cp210x_open None None 500000 0x10c4 0xea60 (empty_world [cp_example_dev] cp_stale_script))))) = []"
proof -
  have h: "fresh_handles (empty_world [cp_example_dev] cp_stale_script)" by (simp add: fresh_handles_def empty_world_def)
  from cp210x_open_balanced [OF h cp_example_open_stale] show ?thesis by (simp add: empty_world_def)
qed

end
