(* ===== verification/Ftdi.thy ===== *)
theory Ftdi
  imports Transport
begin

text \<open>
  The FTDI backend, \<open>src/transport/ftdi.c\<close>: the chain of eight vendor commands of
  \<open>configure_ftdi\<close>, the fixed-interface open of \<open>open_device\<close>, the receive loop of
  \<open>tr_recv\<close> that strips the two status bytes the chip puts in front of every
  inbound packet, and the two operations (\<open>tr_flush\<close>, \<open>tr_set_modem\<close>) that act on
  a freshly allocated, uninitialised instance instead of the caller's.
\<close>

unbundle bit_operations_syntax

subsection \<open>Constants and state\<close>

definition FTDI_USB_INTERFACE :: nat where "FTDI_USB_INTERFACE = 0"
definition FTDI_EP_IN :: int where "FTDI_EP_IN = 0x81"
definition FTDI_EP_OUT :: int where "FTDI_EP_OUT = 0x02"
definition FTDI_TIMEOUT_S :: nat where "FTDI_TIMEOUT_S = 30"
definition REQ_TIMEOUT_MS :: nat where "REQ_TIMEOUT_MS = 100"
definition REQTYPE_HOST_TO_DEVICE :: byte where "REQTYPE_HOST_TO_DEVICE = 0x40"
definition FTDI_SIO_RESET :: byte where "FTDI_SIO_RESET = 0"
definition FTDI_SIO_MODEM_CTRL :: byte where "FTDI_SIO_MODEM_CTRL = 1"
definition FTDI_SIO_SET_FLOW_CTRL :: byte where "FTDI_SIO_SET_FLOW_CTRL = 2"
definition FTDI_SIO_SET_BAUD_RATE :: byte where "FTDI_SIO_SET_BAUD_RATE = 3"
definition FTDI_SIO_SET_DATA :: byte where "FTDI_SIO_SET_DATA = 4"
definition FTDI_SIO_SET_LATENCY_TIMER :: byte where "FTDI_SIO_SET_LATENCY_TIMER = 9"
definition FTDI_SIO_RESET_SIO :: int where "FTDI_SIO_RESET_SIO = 0"
definition FTDI_SIO_RESET_PURGE_RX :: int where "FTDI_SIO_RESET_PURGE_RX = 1"
definition FTDI_SIO_RESET_PURGE_TX :: int where "FTDI_SIO_RESET_PURGE_TX = 2"
definition FTDI_PACKET_SIZE :: nat where "FTDI_PACKET_SIZE = 64"
definition FTDI_CLOCK :: int where "FTDI_CLOCK = 3000000"
definition FTDI_DTR :: int where "FTDI_DTR = 0x0001"
definition FTDI_RTS :: int where "FTDI_RTS = 0x0002"
definition FTDI_WRITE_DTR :: int where "FTDI_WRITE_DTR = 0x0100"
definition FTDI_WRITE_RTS :: int where "FTDI_WRITE_RTS = 0x0200"

record ftdi_transport =
  ftdi_handle :: "handle option"

definition ftdi_zero :: ftdi_transport where
  "ftdi_zero = \<lparr>ftdi_handle = None\<rparr>"

subsection \<open>Configuration\<close>

text \<open>
  \<open>do_cfg\<close>: one vendor request without data stage; the \<open>int\<close> value becomes the
  16-bit \<open>wValue\<close> (its low 16 bits), and any status but 0 fails.
\<close>

definition do_cfg :: "byte \<Rightarrow> int \<Rightarrow> usb_world \<Rightarrow> (usb_error + unit) \<times> usb_world" where
  "do_cfg request value w =
     (case libusb_control_transfer REQTYPE_HOST_TO_DEVICE request (word_of_int value) 0 [] REQ_TIMEOUT_MS w of
        (rc, w') \<Rightarrow> if rc \<noteq> 0 then (Inl (E_control rc), w') else (Inr (), w'))"

text \<open>
  \<open>configure_ftdi\<close>: the \<open>||\<close> chain stops at the first failing command. The divisor
  \<open>FTDI_CLOCK / baud_rate\<close> is evaluated only when the fifth command is reached, so a
  zero rate is undefined behaviour after four commands have been sent.
\<close>

definition configure_ftdi :: "int \<Rightarrow> usb_world \<Rightarrow> (usb_error + unit) \<times> usb_world" where
  "configure_ftdi baud_rate =
     usb_seq (do_cfg FTDI_SIO_RESET FTDI_SIO_RESET_SIO)
    (usb_seq (do_cfg FTDI_SIO_SET_DATA 8)
    (usb_seq (do_cfg FTDI_SIO_SET_FLOW_CTRL 0)
    (usb_seq (do_cfg FTDI_SIO_MODEM_CTRL 0x303)
    (usb_seq (\<lambda>w. if baud_rate = 0 then (Inl E_div_zero, w)
                   else do_cfg FTDI_SIO_SET_BAUD_RATE (c_div FTDI_CLOCK baud_rate) w)
    (usb_seq (do_cfg FTDI_SIO_SET_LATENCY_TIMER 50)
    (usb_seq (do_cfg FTDI_SIO_RESET FTDI_SIO_RESET_PURGE_TX)
             (do_cfg FTDI_SIO_RESET FTDI_SIO_RESET_PURGE_RX)))))))"

text \<open>
  \<open>open_device\<close>: open (a failed \<open>libusb_open\<close> leaves \<open>tr->handle\<close> null), detach a
  kernel driver from interface 0, claim it, configure; a failed claim or
  configuration closes the handle.
\<close>

definition ftdi_open_device ::
  "ftdi_transport \<Rightarrow> usb_device \<Rightarrow> int \<Rightarrow> usb_world \<Rightarrow> (usb_error + unit) \<times> ftdi_transport \<times> usb_world" where
  "ftdi_open_device tr dev baud_rate w =
     (case libusb_open dev w of ((rc, ho), w1) \<Rightarrow>
        let tr1 = (case ho of Some h \<Rightarrow> tr\<lparr>ftdi_handle := Some h\<rparr> | None \<Rightarrow> tr) in
        (case ftdi_handle tr1 of
           None \<Rightarrow> (Inl (E_open rc), tr1, w1)
         | Some h \<Rightarrow>
             (case libusb_claim_interface h FTDI_USB_INTERFACE (kernel_detach dev FTDI_USB_INTERFACE w1) of
                (rc2, w2) \<Rightarrow>
                  if rc2 \<noteq> 0 then (Inl (E_claim rc2), tr1, libusb_close h w2)
                  else (case configure_ftdi baud_rate w2 of
                          (Inl e, w3) \<Rightarrow> (Inl e, tr1, libusb_close h w3)
                        | (Inr _, w3) \<Rightarrow> (Inr (), tr1, w3)))))"

subsection \<open>Transport operations\<close>

text \<open>\<open>tr_destroy\<close> closes the handle (which releases its claim) without a release call.\<close>

definition ftdi_destroy :: "ftdi_transport \<Rightarrow> usb_world \<Rightarrow> usb_world" where
  "ftdi_destroy tr w = (case ftdi_handle tr of None \<Rightarrow> w | Some h \<Rightarrow> libusb_close h w)"

text \<open>
  The loop of \<open>tr_recv\<close> for a request capped at \<open>len\<close> payload bytes: read
  \<open>len + 2\<close> bytes; a success with more than the two status bytes returns the rest,
  a success with only status bytes and a timeout both retry until the deadline.
\<close>

function ftdi_recv_loop :: "nat \<Rightarrow> nat \<Rightarrow> usb_world \<Rightarrow> (usb_error + byte list) \<times> usb_world" where
  "ftdi_recv_loop deadline len w =
     (if time_now w < deadline then
        (case libusb_bulk_in FTDI_EP_IN (len + 2) (FTDI_TIMEOUT_S * 1000) w of ((rc, d), w') \<Rightarrow>
           if rc \<noteq> 0 \<and> rc \<noteq> LIBUSB_ERROR_TIMEOUT then (Inl (E_transfer rc), w')
           else if rc = 0 \<and> 2 < length d then (Inr (drop 2 d), w')
           else ftdi_recv_loop deadline len w')
      else (Inl E_timeout, w))"
  by pat_completeness auto
termination
  by (relation "measure (\<lambda>(deadline, len, w). length (script w))")
     (auto simp: libusb_bulk_in_def take_reply_def elapse_def split: list.splits reply.splits if_splits)

declare ftdi_recv_loop.simps [simp del]

definition ftdi_recv :: "ftdi_transport \<Rightarrow> nat \<Rightarrow> usb_world \<Rightarrow> (usb_error + byte list) \<times> usb_world" where
  "ftdi_recv tr max_len w =
     ftdi_recv_loop (time_now w + FTDI_TIMEOUT_S) (min max_len (FTDI_PACKET_SIZE - 2)) w"

definition ftdi_send :: "ftdi_transport \<Rightarrow> byte list \<Rightarrow> usb_world \<Rightarrow> (usb_error + unit) \<times> usb_world" where
  "ftdi_send tr data w = send_loop FTDI_EP_OUT (FTDI_TIMEOUT_S * 1000) data w"

text \<open>The modem-control value: write-enable bits set, the active-low line bits inverted.\<close>

definition ftdi_modem_value :: "nat \<Rightarrow> int" where
  "ftdi_modem_value state =
     FTDI_WRITE_DTR OR FTDI_WRITE_RTS OR (if modem_dtr state then 0 else FTDI_DTR)
       OR (if modem_rts state then 0 else FTDI_RTS)"

text \<open>
  \<open>tr_flush\<close> and \<open>tr_set_modem\<close> read \<open>tr->handle\<close> from a fresh \<open>malloc\<close> that was
  never initialised (and never freed), not from the caller's instance: both end in
  undefined behaviour before any transfer is made.
\<close>

definition ftdi_flush :: "ftdi_transport \<Rightarrow> usb_world \<Rightarrow> (usb_error + unit) \<times> usb_world" where
  "ftdi_flush tr w = (Inl E_uninit, w)"

definition ftdi_set_modem :: "ftdi_transport \<Rightarrow> nat \<Rightarrow> usb_world \<Rightarrow> (usb_error + unit) \<times> usb_world" where
  "ftdi_set_modem tr state w = (Inl E_uninit, w)"

text \<open>\<open>ftdi_open\<close>: locate the device, open it; no flush.\<close>

definition ftdi_open ::
  "string option \<Rightarrow> string option \<Rightarrow> 16 word \<Rightarrow> 16 word \<Rightarrow> int \<Rightarrow> usb_world \<Rightarrow>
     (usb_error + ftdi_transport) \<times> usb_world" where
  "ftdi_open devpath requested_serial vendor product baud_rate w =
     (case find_device devpath requested_serial vendor product w of
        (None, w0) \<Rightarrow> (Inl E_not_found, w0)
      | (Some dev, w0) \<Rightarrow>
          (case ftdi_open_device ftdi_zero dev baud_rate w0 of
             (Inl e, _, w1) \<Rightarrow> (Inl e, w1)
           | (Inr _, tr, w1) \<Rightarrow> (Inr tr, w1)))"

subsection \<open>Reference definitions\<close>

text \<open>
  The eight vendor requests of \<open>configure_ftdi\<close> for a baud rate, as they reach the bus,
  and an example FT2232 adapter with a kernel driver bound.
\<close>

definition ftdi_cfg_calls :: "int \<Rightarrow> usb_call list" where
  "ftdi_cfg_calls b =
     [Control 0x40 0 0 0 [], Control 0x40 4 8 0 [], Control 0x40 2 0 0 [], Control 0x40 1 0x303 0 [],
      Control 0x40 3 (word_of_int (c_div 3000000 b)) 0 [], Control 0x40 9 50 0 [], Control 0x40 0 2 0 [],
      Control 0x40 0 1 0 []]"

definition ftdi_example_dev :: usb_device where
  "ftdi_example_dev = \<lparr>dev_bus = 1, dev_addr = 5, idVendor = 0x0403, idProduct = 0x6010, dev_serial = None,
     bNumConfigurations = 1,
     dev_config = Some \<lparr>bConfigurationValue = 1, interfaces = []\<rparr>,
     dev_kernel_driver = True\<rparr>"

subsection \<open>Properties\<close>

lemmas ftdi_consts [simp] = FTDI_USB_INTERFACE_def FTDI_EP_IN_def FTDI_EP_OUT_def REQ_TIMEOUT_MS_def
  REQTYPE_HOST_TO_DEVICE_def FTDI_SIO_RESET_def FTDI_SIO_MODEM_CTRL_def FTDI_SIO_SET_FLOW_CTRL_def
  FTDI_SIO_SET_BAUD_RATE_def FTDI_SIO_SET_DATA_def FTDI_SIO_SET_LATENCY_TIMER_def FTDI_SIO_RESET_SIO_def
  FTDI_SIO_RESET_PURGE_RX_def FTDI_SIO_RESET_PURGE_TX_def FTDI_PACKET_SIZE_def FTDI_CLOCK_def
  FTDI_DTR_def FTDI_RTS_def FTDI_WRITE_DTR_def FTDI_WRITE_RTS_def

lemma do_cfg_io_frame: "io_frame w (snd (do_cfg r v w))"
  by (cases "libusb_control_transfer REQTYPE_HOST_TO_DEVICE r (word_of_int v) 0 [] REQ_TIMEOUT_MS w")
     (auto simp: do_cfg_def dest: control_io_frame simp del: ftdi_consts)

lemma configure_ftdi_io_frame: "io_frame w (snd (configure_ftdi b w))"
  unfolding configure_ftdi_def
  by (intro usb_seq_io_frame do_cfg_io_frame) (simp add: do_cfg_io_frame)

lemma do_cfg_ack:
  "script w = Ack # rs \<Longrightarrow>
     do_cfg r v w = (Inr (), w\<lparr>script := rs, trace := trace w @ [Control 0x40 r (word_of_int v) 0 []]\<rparr>)"
  by (simp add: do_cfg_def libusb_control_transfer_def take_reply_def log_call_def reply_status_def elapse_def)

text \<open>C39: configure_ftdi sends its eight vendor requests in the order of the source (reset, 8-N-1, no flow control, modem lines, baud divisor, latency 50, purge TX, purge RX); a zero baud rate is a division by zero once the first four have been sent.\<close>

theorem configure_ftdi_sequence:
  assumes "script w = replicate 8 Ack @ rs"
  shows "configure_ftdi b w =
           (if b = 0 then (Inl E_div_zero, w\<lparr>script := replicate 4 Ack @ rs, trace := trace w @ take 4 (ftdi_cfg_calls b)\<rparr>)
            else (Inr (), w\<lparr>script := rs, trace := trace w @ ftdi_cfg_calls b\<rparr>))"
  using assms
  by (simp add: configure_ftdi_def do_cfg_ack ftdi_cfg_calls_def numeral_eq_Suc)

lemma ftdi_timeout_pos: "0 < FTDI_TIMEOUT_S"
  by (simp add: FTDI_TIMEOUT_S_def)

lemma ftdi_recv_loop_payload:
  assumes "list_all (\<lambda>q. length q \<le> 2) qs" and "length st = 2" and "p \<noteq> []" and "length p \<le> len"
    and "time_now w < d" and "script w = map (Data 0) qs @ Data 0 (st @ p) # rs"
  shows "fst (ftdi_recv_loop d len w) = Inr p"
  using assms
proof (induction qs arbitrary: w)
  case Nil
  then show ?case
    by (subst ftdi_recv_loop.simps) (simp add: libusb_bulk_in_def take_reply_def)
next
  case (Cons q qs)
  let ?w1 = "elapse 0 (FTDI_TIMEOUT_S * 1000) (log_call (BulkIn FTDI_EP_IN (len + 2)) w\<lparr>script := map (Data 0) qs @ Data 0 (st @ p) # rs\<rparr>)"
  have "fst (ftdi_recv_loop d len ?w1) = Inr p"
    using Cons.prems by (intro Cons.IH) (simp_all add: time_now_elapse)
  then show ?case
    using Cons.prems by (subst ftdi_recv_loop.simps) (simp add: libusb_bulk_in_def take_reply_def del: ftdi_consts)
qed

text \<open>C38: tr_recv strips the two status bytes of the FTDI chip: after any number of status-only packets, a packet of the two status bytes and N > 0 payload bytes (N within the request and within 62) is received as exactly those N payload bytes.\<close>

theorem ftdi_recv_payload:
  assumes "list_all (\<lambda>q. length q \<le> 2) qs" and "length st = 2" and "p \<noteq> []" and "length p \<le> min n 62"
    and "script w = map (Data 0) qs @ Data 0 (st @ p) # rs"
  shows "fst (ftdi_recv tr n w) = Inr p"
  unfolding ftdi_recv_def
  using assms by (intro ftdi_recv_loop_payload) (simp_all add: ftdi_timeout_pos)

lemma ftdi_open_device_attempt:
  assumes f: "fresh_handles w" and od: "ftdi_open_device ftdi_zero dev b w = (r, tr', w')"
  shows "case r of
           Inl _ \<Rightarrow> open_handles w' = open_handles w \<and> claimed w' = claimed w
         | Inr _ \<Rightarrow> ftdi_handle tr' = Some (next_handle w) \<and> open_handles w' = next_handle w # open_handles w \<and>
                  claimed w' = (next_handle w, FTDI_USB_INTERFACE) # claimed w"
proof -
  obtain rc ho w1 where o: "libusb_open dev w = ((rc, ho), w1)" by (metis prod.exhaust)
  show ?thesis
  proof (cases ho)
    case None
    with od o libusb_open_None [OF o [unfolded None]] show ?thesis
      by (auto simp: ftdi_open_device_def ftdi_zero_def)
  next
    case (Some h)
    note o1 = libusb_open_Some [OF o [unfolded Some]]
    obtain rc2 w2 where cl: "libusb_claim_interface h FTDI_USB_INTERFACE (kernel_detach dev FTDI_USB_INTERFACE w1) = (rc2, w2)"
      by (metis prod.exhaust)
    note c2 = libusb_claim_effect [OF cl]
    obtain r3 w3 where cf: "configure_ftdi b w2 = (r3, w3)" by (metis prod.exhaust)
    have fr: "io_frame w2 w3" using configure_ftdi_io_frame [of w2 b] cf by simp
    show ?thesis
      using od o Some o1 cl c2 cf fr fresh_removeAll [OF f] fresh_filter [OF f]
      by (cases "rc2 = 0"; cases r3) (auto simp: ftdi_open_device_def ftdi_zero_def io_frame_def simp del: ftdi_consts)
  qed
qed

text \<open>C37: ftdi_open keeps the handles balanced: when it fails, no handle or claim it acquired is left; when it succeeds, tr_destroy releases what it acquired.\<close>

theorem ftdi_open_balanced:
  assumes "fresh_handles w" and "ftdi_open p s v pr b w = (r, w')"
  shows "case r of
           Inl _ \<Rightarrow> open_handles w' = open_handles w \<and> claimed w' = claimed w
         | Inr tr \<Rightarrow> open_handles (ftdi_destroy tr w') = open_handles w \<and> claimed (ftdi_destroy tr w') = claimed w"
proof -
  obtain r0 wl where fd: "find_device p s v pr w = (r0, wl)" by (metis prod.exhaust)
  note k = find_device_kept [OF fd assms(1)]
  note f = handles_kept_fresh [OF k assms(1)]
  have "case r of
           Inl _ \<Rightarrow> open_handles w' = open_handles wl \<and> claimed w' = claimed wl
         | Inr tr \<Rightarrow> open_handles (ftdi_destroy tr w') = open_handles wl \<and> claimed (ftdi_destroy tr w') = claimed wl"
  proof (cases r0)
    case None
    with assms(2) fd show ?thesis by (auto simp: ftdi_open_def)
  next
    case (Some dev)
    obtain r1 tr1 w1 where od: "ftdi_open_device ftdi_zero dev b wl = (r1, tr1, w1)" by (metis prod.exhaust)
    note a = ftdi_open_device_attempt [OF f od]
    show ?thesis
      using assms(2) fd Some od a fresh_removeAll [OF f] fresh_filter [OF f]
      by (cases r1) (auto simp: ftdi_open_def ftdi_destroy_def)
  qed
  with k show ?thesis by (simp add: handles_kept_def split: sum.splits)
qed

lemma ftdi_example_find:
  "find_device None None 0x0403 0x6010 (empty_world [ftdi_example_dev] rs) =
     (Some ftdi_example_dev, empty_world [ftdi_example_dev] rs)"
  by (simp add: find_device_no_serial find_by_id_ref_def serial_matches_def empty_world_def ftdi_example_dev_def)

lemma ftdi_example_open:
  "ftdi_open None None 0x0403 0x6010 9600 (empty_world [ftdi_example_dev] (replicate 10 Ack)) =
     (Inr \<lparr>ftdi_handle = Some 0\<rparr>, snd (ftdi_open None None 0x0403 0x6010 9600 (empty_world [ftdi_example_dev] (replicate 10 Ack))))"
  unfolding ftdi_open_def ftdi_example_find
  by (simp add: ftdi_open_device_def ftdi_zero_def libusb_open_def take_reply_def log_call_def empty_world_def
                libusb_claim_interface_def status_call_def reply_status_def elapse_def kernel_detach_def
                ftdi_example_dev_def configure_ftdi_def do_cfg_ack numeral_eq_Suc)

theorem ftdi_open_balanced_witness:
  "open_handles (ftdi_destroy \<lparr>ftdi_handle = Some 0\<rparr>
      (snd (ftdi_open None None 0x0403 0x6010 9600 (empty_world [ftdi_example_dev] (replicate 10 Ack))))) = [] \<and>
   claimed (ftdi_destroy \<lparr>ftdi_handle = Some 0\<rparr>
      (snd (ftdi_open None None 0x0403 0x6010 9600 (empty_world [ftdi_example_dev] (replicate 10 Ack))))) = []"
proof -
  have h: "fresh_handles (empty_world [ftdi_example_dev] (replicate 10 Ack))" by (simp add: fresh_handles_def empty_world_def)
  from ftdi_open_balanced [OF h ftdi_example_open] show ?thesis by (simp add: empty_world_def)
qed

theorem ftdi_recv_payload_witness:
  "fst (ftdi_recv ftdi_zero 100 (empty_world [] [Data 0 [0x31, 0x60], Data 0 [0x31, 0x60, 0x41, 0x42]])) = Inr [0x41, 0x42]"
proof -
  have h5: "script (empty_world [] [Data 0 [0x31, 0x60], Data 0 [0x31, 0x60, 0x41, 0x42]]) =
            map (Data 0) [[0x31, 0x60]] @ Data 0 ([0x31, 0x60] @ [0x41, 0x42]) # []"
    by (simp add: empty_world_def)
  from ftdi_recv_payload [OF _ _ _ _ h5, where tr = ftdi_zero and n = 100] show ?thesis by simp
qed

theorem configure_ftdi_sequence_witness:
  "configure_ftdi 9600 (empty_world [] (replicate 8 Ack)) =
     (Inr (), (empty_world [] [])\<lparr>trace := ftdi_cfg_calls 9600\<rparr>)"
proof -
  have h: "script (empty_world [] (replicate 8 Ack)) = replicate 8 Ack @ []" by (simp add: empty_world_def)
  from configure_ftdi_sequence [OF h, of 9600] show ?thesis by (simp add: empty_world_def)
qed

end
