(* ===== verification/Backends.thy ===== *)
theory Backends
  imports Bslhid Ti3410_Bringup Cdc_Acm Cp210x Ftdi
begin

text \<open>
  The operation table every backend fills in (\<open>struct transport_class\<close> of
  \<open>transport.h\<close>, modelled from the spec) and the five tables of the sources
  (\<open>bslhid_transport_class\<close>, \<open>ti3410_transport\<close>, \<open>cdc_acm_class\<close>, \<open>cp210x_class\<close>,
  \<open>ftdi_class\<close>). A caller holds a \<open>transport_t\<close> and calls through the table; the
  model's \<open>backend\<close> is that closed set of variants and \<open>backend_step\<close> the dispatch.
  Results of the operations are brought to one shape: an error or the bytes read
  (empty for the operations that read nothing), the new state of the instance and
  the world; \<open>None\<close> is the flush loop that never returns. A session is an open
  (\<open>backend_opened\<close>) followed by calls (\<open>backend_run\<close>).

  The lemmas: the contract a table meets (\<open>class_step_wf\<close>, over any state type) and
  its proof for each table; that every open function, on every path of its
  \<open>open_device\<close> (stale handles and the TI3410 firmware download included), returns a
  well-formed instance; the same for liveness (\<open>class_step_live\<close>: the handle an
  instance holds is open with its interface claimed), which every open function but
  CP210x's establishes and every session call (anything but \<open>destroy\<close> and a
  failed \<open>resume\<close>) keeps, the data path never replacing the handle.
\<close>

record 's transport_class =
  tc_destroy :: "'s \<Rightarrow> usb_world \<Rightarrow> usb_world"
  tc_send :: "'s \<Rightarrow> byte list \<Rightarrow> usb_world \<Rightarrow> (usb_error + unit) \<times> usb_world"
  tc_recv :: "'s \<Rightarrow> nat \<Rightarrow> usb_world \<Rightarrow> (usb_error + byte list) \<times> 's \<times> usb_world"
  tc_flush :: "'s \<Rightarrow> usb_world \<Rightarrow> ((usb_error + unit) \<times> 's \<times> usb_world) option"
  tc_set_modem :: "'s \<Rightarrow> nat \<Rightarrow> usb_world \<Rightarrow> (usb_error + unit) \<times> usb_world"
  tc_suspend :: "('s \<Rightarrow> usb_world \<Rightarrow> (usb_error + unit) \<times> 's \<times> usb_world) option"
  tc_resume :: "('s \<Rightarrow> usb_world \<Rightarrow> (usb_error + unit) \<times> 's \<times> usb_world) option"

subsection \<open>The tables of the five backends\<close>

definition bslhid_transport_class :: "bslhid_transport transport_class" where
  "bslhid_transport_class =
     \<lparr>tc_destroy = bslhid_destroy,
      tc_send = bslhid_send,
      tc_recv = (\<lambda>tr n w. case bslhid_recv tr n w of (r, w') \<Rightarrow> (r, tr, w')),
      tc_flush = (\<lambda>tr w. map_option (\<lambda>w'. (Inr (), tr, w')) (bslhid_flush tr w)),
      tc_set_modem = bslhid_set_modem,
      tc_suspend = Some (\<lambda>tr w. case bslhid_suspend tr w of (tr', w') \<Rightarrow> (Inr (), tr', w')),
      tc_resume = Some bslhid_resume\<rparr>"

definition ti3410_transport_class :: "ti3410_transport transport_class" where
  "ti3410_transport_class =
     \<lparr>tc_destroy = ti3410_destroy,
      tc_send = ti3410_send,
      tc_recv = (\<lambda>tr n w. case ti3410_recv tr n w of (r, w') \<Rightarrow> (r, tr, w')),
      tc_flush = (\<lambda>tr w. case ti3410_flush tr w of (r, w') \<Rightarrow> Some (r, tr, w')),
      tc_set_modem = ti3410_set_modem,
      tc_suspend = None,
      tc_resume = None\<rparr>"

definition cdc_acm_class :: "cdc_acm_transport transport_class" where
  "cdc_acm_class =
     \<lparr>tc_destroy = cdc_destroy,
      tc_send = cdc_send,
      tc_recv = cdc_recv,
      tc_flush = (\<lambda>tr w. map_option (\<lambda>(tr', w'). (Inr (), tr', w')) (cdc_flush tr w)),
      tc_set_modem = cdc_set_modem,
      tc_suspend = None,
      tc_resume = None\<rparr>"

definition cp210x_class :: "cp210x_transport transport_class" where
  "cp210x_class =
     \<lparr>tc_destroy = cp_destroy,
      tc_send = cp_send,
      tc_recv = (\<lambda>tr n w. case cp_recv tr n w of (r, w') \<Rightarrow> (r, tr, w')),
      tc_flush = (\<lambda>tr w. map_option (\<lambda>w'. (Inr (), tr, w')) (cp_flush tr w)),
      tc_set_modem = cp_set_modem,
      tc_suspend = None,
      tc_resume = None\<rparr>"

definition ftdi_class :: "ftdi_transport transport_class" where
  "ftdi_class =
     \<lparr>tc_destroy = ftdi_destroy,
      tc_send = ftdi_send,
      tc_recv = (\<lambda>tr n w. case ftdi_recv tr n w of (r, w') \<Rightarrow> (r, tr, w')),
      tc_flush = (\<lambda>tr w. case ftdi_flush tr w of (r, w') \<Rightarrow> Some (r, tr, w')),
      tc_set_modem = ftdi_set_modem,
      tc_suspend = None,
      tc_resume = None\<rparr>"

subsection \<open>Calling through the table\<close>

datatype transport_op =
    Op_send "byte list"
  | Op_recv nat
  | Op_flush
  | Op_set_modem nat
  | Op_suspend
  | Op_resume
  | Op_destroy

definition unit_result :: "usb_error + unit \<Rightarrow> usb_error + byte list" where
  "unit_result r = map_sum id (\<lambda>_. []) r"

text \<open>
  An operation a table leaves \<open>NULL\<close> (suspend and resume outside the HID backend) is
  reported as unsupported, as the spec asks.
\<close>

definition optional_op ::
  "('s \<Rightarrow> usb_world \<Rightarrow> (usb_error + unit) \<times> 's \<times> usb_world) option \<Rightarrow> 's \<Rightarrow> usb_world \<Rightarrow>
     ((usb_error + byte list) \<times> 's \<times> usb_world) option" where
  "optional_op f s w = (case f of
      None \<Rightarrow> Some (Inl E_unsupported, s, w)
    | Some g \<Rightarrow> (case g s w of (r, s', w') \<Rightarrow> Some (unit_result r, s', w')))"

definition class_step ::
  "'s transport_class \<Rightarrow> 's \<Rightarrow> transport_op \<Rightarrow> usb_world \<Rightarrow> ((usb_error + byte list) \<times> 's \<times> usb_world) option" where
  "class_step C s op w = (case op of
      Op_send d \<Rightarrow> (case tc_send C s d w of (r, w') \<Rightarrow> Some (unit_result r, s, w'))
    | Op_recv n \<Rightarrow> Some (tc_recv C s n w)
    | Op_flush \<Rightarrow> map_option (\<lambda>(r, s', w'). (unit_result r, s', w')) (tc_flush C s w)
    | Op_set_modem st \<Rightarrow> (case tc_set_modem C s st w of (r, w') \<Rightarrow> Some (unit_result r, s, w'))
    | Op_suspend \<Rightarrow> optional_op (tc_suspend C) s w
    | Op_resume \<Rightarrow> optional_op (tc_resume C) s w
    | Op_destroy \<Rightarrow> Some (Inr [], s, tc_destroy C s w))"

datatype backend =
    B_bslhid bslhid_transport
  | B_ti3410 ti3410_transport
  | B_cdc cdc_acm_transport
  | B_cp210x cp210x_transport
  | B_ftdi ftdi_transport

fun backend_step :: "backend \<Rightarrow> transport_op \<Rightarrow> usb_world \<Rightarrow> ((usb_error + byte list) \<times> backend \<times> usb_world) option" where
  "backend_step (B_bslhid s) op w = map_option (\<lambda>(r, s', w'). (r, B_bslhid s', w')) (class_step bslhid_transport_class s op w)"
| "backend_step (B_ti3410 s) op w = map_option (\<lambda>(r, s', w'). (r, B_ti3410 s', w')) (class_step ti3410_transport_class s op w)"
| "backend_step (B_cdc s) op w = map_option (\<lambda>(r, s', w'). (r, B_cdc s', w')) (class_step cdc_acm_class s op w)"
| "backend_step (B_cp210x s) op w = map_option (\<lambda>(r, s', w'). (r, B_cp210x s', w')) (class_step cp210x_class s op w)"
| "backend_step (B_ftdi s) op w = map_option (\<lambda>(r, s', w'). (r, B_ftdi s', w')) (class_step ftdi_class s op w)"

fun backend_handle :: "backend \<Rightarrow> handle option" where
  "backend_handle (B_bslhid s) = hid_handle s"
| "backend_handle (B_ti3410 s) = ti_handle s"
| "backend_handle (B_cdc s) = cdc_handle s"
| "backend_handle (B_cp210x s) = cp_handle s"
| "backend_handle (B_ftdi s) = ftdi_handle s"

fun backend_kind :: "backend \<Rightarrow> nat" where
  "backend_kind (B_bslhid _) = 0"
| "backend_kind (B_ti3410 _) = 1"
| "backend_kind (B_cdc _) = 2"
| "backend_kind (B_cp210x _) = 3"
| "backend_kind (B_ftdi _) = 4"

subsection \<open>Sessions\<close>

text \<open>
  A session: one of the five \<open>open\<close> functions returns an instance, and the caller
  then calls through its table any number of times. \<open>backend_run\<close> runs a given list
  of calls and collects their results.
\<close>

inductive backend_opened :: "usb_world \<Rightarrow> backend \<Rightarrow> usb_world \<Rightarrow> bool" where
  open_bslhid: "bslhid_open p s w = Some (Inr tr, w') \<Longrightarrow> backend_opened w (B_bslhid tr) w'"
| open_ti3410: "ti3410_open p s w = (Inr tr, w') \<Longrightarrow> backend_opened w (B_ti3410 tr) w'"
| open_cdc: "cdc_acm_open p s b v pr w = Some (Inr tr, w') \<Longrightarrow> backend_opened w (B_cdc tr) w'"
| open_cp210x: "cp210x_open p s b pr v w = Some (Inr tr, w') \<Longrightarrow> backend_opened w (B_cp210x tr) w'"
| open_ftdi: "ftdi_open p s v pr b w = (Inr tr, w') \<Longrightarrow> backend_opened w (B_ftdi tr) w'"

fun backend_run ::
  "backend \<Rightarrow> transport_op list \<Rightarrow> usb_world \<Rightarrow> ((usb_error + byte list) list \<times> backend \<times> usb_world) option" where
  "backend_run b [] w = Some ([], b, w)"
| "backend_run b (op # ops) w = (case backend_step b op w of
      None \<Rightarrow> None
    | Some (r, b', w') \<Rightarrow> map_option (\<lambda>(rs, b'', w''). (r # rs, b'', w'')) (backend_run b' ops w'))"

subsection \<open>Well-formed instances\<close>

text \<open>
  An instance is well formed in a world when the world's handles are consistent and
  the instance's handle, if any, is one the world has handed out.
\<close>

definition handle_below :: "handle option \<Rightarrow> usb_world \<Rightarrow> bool" where
  "handle_below ho w \<longleftrightarrow> (case ho of None \<Rightarrow> True | Some h \<Rightarrow> h < next_handle w)"

definition backend_wf :: "backend \<Rightarrow> usb_world \<Rightarrow> bool" where
  "backend_wf b w \<longleftrightarrow> fresh_handles w \<and> handle_below (backend_handle b) w"

definition class_wf :: "('s \<Rightarrow> handle option) \<Rightarrow> 's \<Rightarrow> usb_world \<Rightarrow> bool" where
  "class_wf handle_of s w \<longleftrightarrow> fresh_handles w \<and> handle_below (handle_of s) w"

subsection \<open>Live instances\<close>

text \<open>
  The interface each backend claims in its \<open>open_device\<close>, and what it means for an
  instance to be live: the handle it holds, if any, is open and holds that interface
  claimed. A session call is any call but \<open>destroy\<close> (after which the C frees the
  instance) and a \<open>resume\<close> that failed (whose HID handle dangles, a finding).
\<close>

fun backend_interface :: "backend \<Rightarrow> nat" where
  "backend_interface (B_bslhid s) = hid_int_number s"
| "backend_interface (B_ti3410 s) = USB_FET_INTERFACE"
| "backend_interface (B_cdc s) = cdc_int_number s"
| "backend_interface (B_cp210x s) = cp_int_number s"
| "backend_interface (B_ftdi s) = FTDI_USB_INTERFACE"

definition handle_live :: "handle option \<Rightarrow> nat \<Rightarrow> usb_world \<Rightarrow> bool" where
  "handle_live ho i w \<longleftrightarrow> (case ho of
      None \<Rightarrow> True
    | Some h \<Rightarrow> h \<in> set (open_handles w) \<and> (h, i) \<in> set (claimed w))"

definition backend_live :: "backend \<Rightarrow> usb_world \<Rightarrow> bool" where
  "backend_live b w \<longleftrightarrow> backend_wf b w \<and> handle_live (backend_handle b) (backend_interface b) w"

definition session_call :: "transport_op \<Rightarrow> usb_error + byte list \<Rightarrow> bool" where
  "session_call op r \<longleftrightarrow> op \<noteq> Op_destroy \<and> (op = Op_resume \<longrightarrow> \<not> isl r)"

subsection \<open>The operations keep instances well formed\<close>

lemma class_wf_frame: "io_frame w w' \<Longrightarrow> class_wf f s w \<Longrightarrow> class_wf f s w'"
  by (simp add: class_wf_def io_frame_def fresh_handles_def handle_below_def split: option.splits)

lemma class_wf_close: "class_wf f s w \<Longrightarrow> class_wf f s (libusb_close h w)"
  by (auto simp: class_wf_def fresh_handles_def handle_below_def split: option.splits)

lemma class_wf_release: "class_wf f s w \<Longrightarrow> class_wf f s (libusb_release_interface h i w)"
  by (auto simp: class_wf_def fresh_handles_def handle_below_def split: option.splits)

lemma class_wf_None: "f s' = None \<Longrightarrow> class_wf f s w \<Longrightarrow> class_wf f s' w"
  by (simp add: class_wf_def handle_below_def)

text \<open>
  The contract a table must meet, stated over any state type: transfers keep the
  handles and claims, operations that change the instance keep it well formed. Every
  call through such a table keeps the instance well formed.
\<close>

lemma class_step_wf:
  assumes send: "\<And>s d w r w'. class_wf f s w \<Longrightarrow> tc_send C s d w = (r, w') \<Longrightarrow> io_frame w w'"
    and recv: "\<And>s n w r s' w'. class_wf f s w \<Longrightarrow> tc_recv C s n w = (r, s', w') \<Longrightarrow> class_wf f s' w'"
    and flush: "\<And>s w r s' w'. class_wf f s w \<Longrightarrow> tc_flush C s w = Some (r, s', w') \<Longrightarrow> class_wf f s' w'"
    and modem: "\<And>s st w r w'. class_wf f s w \<Longrightarrow> tc_set_modem C s st w = (r, w') \<Longrightarrow> io_frame w w'"
    and susp: "\<And>g s w r s' w'. tc_suspend C = Some g \<Longrightarrow> class_wf f s w \<Longrightarrow> g s w = (r, s', w') \<Longrightarrow> class_wf f s' w'"
    and res: "\<And>g s w r s' w'. tc_resume C = Some g \<Longrightarrow> class_wf f s w \<Longrightarrow> g s w = (r, s', w') \<Longrightarrow> class_wf f s' w'"
    and destroy: "\<And>s w. class_wf f s w \<Longrightarrow> class_wf f s (tc_destroy C s w)"
    and wf: "class_wf f s w" and st: "class_step C s op w = Some (r, s', w')"
  shows "class_wf f s' w'"
proof (cases op)
  case (Op_send d)
  obtain r0 w0 where e: "tc_send C s d w = (r0, w0)" by (metis prod.exhaust)
  with st Op_send have "s' = s" "w' = w0" by (auto simp: class_step_def)
  with class_wf_frame [OF send [OF wf e] wf] show ?thesis by simp
next
  case (Op_recv n)
  with st wf recv show ?thesis by (simp add: class_step_def)
next
  case Op_flush
  with st wf flush show ?thesis by (auto simp: class_step_def)
next
  case (Op_set_modem m)
  obtain r0 w0 where e: "tc_set_modem C s m w = (r0, w0)" by (metis prod.exhaust)
  with st Op_set_modem have "s' = s" "w' = w0" by (auto simp: class_step_def)
  with class_wf_frame [OF modem [OF wf e] wf] show ?thesis by simp
next
  case Op_suspend
  with st wf susp show ?thesis
    by (auto simp: class_step_def optional_op_def split: option.splits prod.splits)
next
  case Op_resume
  with st wf res show ?thesis
    by (auto simp: class_step_def optional_op_def split: option.splits prod.splits)
next
  case Op_destroy
  with st wf destroy show ?thesis by (auto simp: class_step_def)
qed

lemma ti3410_recv_loop_io_frame: "io_frame w (snd (ti3410_recv_loop d n w))"
  by (induction d n w rule: ti3410_recv_loop.induct)
     (subst ti3410_recv_loop.simps, auto split: prod.splits dest: bulk_in_io_frame intro: io_frame_trans)

lemma cp_recv_loop_io_frame: "io_frame w (snd (cp_recv_loop d n w))"
  by (induction d n w rule: cp_recv_loop.induct)
     (subst cp_recv_loop.simps, auto split: prod.splits dest: bulk_in_io_frame intro: io_frame_trans)

lemma ftdi_recv_loop_io_frame: "io_frame w (snd (ftdi_recv_loop d n w))"
  by (induction d n w rule: ftdi_recv_loop.induct)
     (subst ftdi_recv_loop.simps, auto split: prod.splits dest: bulk_in_io_frame intro: io_frame_trans)

lemma drain_in_io_frame: "drain_in ep len tmo w = Some w' \<Longrightarrow> io_frame w w'"
  using drain_in_needs_read by blast

lemma bslhid_open_device_wf:
  assumes od: "bslhid_open_device tr dev w = (r, tr', w')" and n: "hid_handle tr = None"
    and wf: "class_wf hid_handle tr w"
  shows "class_wf hid_handle tr' w'"
proof -
  obtain fr tr1 where fi: "bslhid_find_interface tr dev = (fr, tr1)" by (metis prod.exhaust)
  note h1 = bslhid_find_interface_handle [OF fi]
  show ?thesis
  proof (cases fr)
    case (Inl e)
    with od fi have "tr' = tr1" "w' = w" by (simp_all add: bslhid_open_device_def)
    with wf h1 show ?thesis by (simp add: class_wf_def)
  next
    case (Inr u)
    obtain rc ho w1 where op: "libusb_open dev w = ((rc, ho), w1)" by (metis prod.exhaust)
    show ?thesis
    proof (cases ho)
      case None
      with od fi Inr op h1 n have "tr' = tr1" "w' = w1" by (simp_all add: bslhid_open_device_def)
      with libusb_open_None [OF op [unfolded None]] wf h1 n show ?thesis
        by (simp add: class_wf_def fresh_handles_def handle_below_def)
    next
      case (Some h)
      note o = libusb_open_Some [OF op [unfolded Some]]
      obtain rc2 w2 where cl: "libusb_claim_interface h (hid_int_number tr1) (kernel_detach dev (hid_int_number tr1) w1) = (rc2, w2)"
        by (metis prod.exhaust)
      note c = libusb_claim_effect [OF cl]
      have eq: "tr' = tr1\<lparr>hid_handle := Some h\<rparr> \<and> (w' = w2 \<or> w' = libusb_close h w2)"
        using od fi Inr op Some cl by (auto simp: bslhid_open_device_def Let_def split: if_splits)
      have "class_wf hid_handle (tr1\<lparr>hid_handle := Some h\<rparr>) w2"
        using wf o c by (auto simp: class_wf_def fresh_handles_def handle_below_def split: if_splits)
      with eq show ?thesis using class_wf_close by auto
    qed
  qed
qed

lemma class_wf_keep:
  "io_frame w (snd p) \<Longrightarrow> (case p of (r0, w0) \<Rightarrow> (r0, s, w0)) = (r, s', w') \<Longrightarrow> class_wf g s w \<Longrightarrow> class_wf g s' w'"
  by (cases p) (auto intro: class_wf_frame)

lemma class_wf_teardown: "class_wf g s w \<Longrightarrow> class_wf g s (libusb_close x (libusb_release_interface x i w))"
  by (intro class_wf_close class_wf_release)

lemma class_wf_suspend: "g s' = None \<Longrightarrow> class_wf g s w \<Longrightarrow> class_wf g s' (libusb_close x (libusb_release_interface x i w))"
  by (intro class_wf_None [of g s' s] class_wf_teardown)

lemma bslhid_class_wf:
  assumes "class_wf hid_handle s w" and "class_step bslhid_transport_class s op w = Some (r, s', w')"
  shows "class_wf hid_handle s' w'"
  apply (rule class_step_wf [OF _ _ _ _ _ _ _ assms])
  subgoal by (simp add: bslhid_transport_class_def bslhid_send_io_frame)
  subgoal premises prems for s n w r s' w'
    by (rule class_wf_keep [where p = "bslhid_recv s n w"])
       (insert prems, auto simp: bslhid_transport_class_def intro: bslhid_recv_io_frame [OF prod.collapse [symmetric]])
  subgoal by (auto simp: bslhid_transport_class_def intro: class_wf_frame dest: bslhid_flush_io_frame)
  subgoal by (simp add: bslhid_transport_class_def bslhid_set_modem_def)
  subgoal for g s w r s' w'
    by (auto simp: bslhid_transport_class_def bslhid_suspend_def intro!: class_wf_suspend [of hid_handle _ s] split: option.splits)
  subgoal premises prems for g s w r s' w'
  proof (cases "hid_handle s")
    case None
    with prems have "bslhid_resume s w = (r, s', w')" by (simp add: bslhid_transport_class_def)
    with None prems(2) show ?thesis
      using bslhid_resume_open_device [of s w r s' w'] bslhid_open_device_wf [of s _ w r s' w'] by auto
  qed (use prems in \<open>auto simp: bslhid_transport_class_def bslhid_resume_def\<close>)
  subgoal by (auto simp: bslhid_transport_class_def bslhid_destroy_def intro: class_wf_teardown split: option.splits)
  done

lemma ti3410_class_wf:
  assumes "class_wf ti_handle s w" and "class_step ti3410_transport_class s op w = Some (r, s', w')"
  shows "class_wf ti_handle s' w'"
  apply (rule class_step_wf [OF _ _ _ _ _ _ _ assms])
  subgoal by (auto simp: ti3410_transport_class_def ti3410_send_def dest: send_loop_io_frame)
  subgoal premises prems for s n w r s' w'
    by (rule class_wf_keep [where p = "ti3410_recv_loop (time_now w + TI3410_READ_TIMEOUT div 1000) n w"])
       (insert prems, simp_all add: ti3410_transport_class_def ti3410_recv_def ti3410_recv_loop_io_frame)
  subgoal by (simp add: ti3410_transport_class_def ti3410_flush_def)
  subgoal by (simp add: ti3410_transport_class_def ti3410_set_modem_def)
  subgoal by (simp add: ti3410_transport_class_def)
  subgoal by (simp add: ti3410_transport_class_def)
  subgoal by (simp add: ti3410_transport_class_def ti3410_destroy_def class_wf_frame [OF teardown_port_io_frame])
  done

lemma cdc_recv_keeps_handle:
  "cdc_recv tr len w = (r, tr', w') \<Longrightarrow> cdc_handle tr' = cdc_handle tr \<and> io_frame w w'"
  by (auto simp: cdc_recv_def cdc_serve_def Let_def split: prod.splits if_splits dest: bulk_in_io_frame)

lemma class_wf_handle_eq: "g s' = g s \<Longrightarrow> io_frame w w' \<Longrightarrow> class_wf g s w \<Longrightarrow> class_wf g s' w'"
  by (simp add: class_wf_def handle_below_def io_frame_def fresh_handles_def split: option.splits)

lemma cdc_class_wf:
  assumes "class_wf cdc_handle s w" and "class_step cdc_acm_class s op w = Some (r, s', w')"
  shows "class_wf cdc_handle s' w'"
  apply (rule class_step_wf [OF _ _ _ _ _ _ _ assms])
  subgoal by (auto simp: cdc_acm_class_def cdc_send_def dest: send_loop_io_frame)
  subgoal by (auto simp: cdc_acm_class_def intro: class_wf_handle_eq dest: cdc_recv_keeps_handle)
  subgoal
    by (auto simp: cdc_acm_class_def cdc_flush_def intro: class_wf_handle_eq dest: drain_in_io_frame)
  subgoal by (auto simp: cdc_acm_class_def cdc_set_modem_def split: prod.splits if_splits dest: control_io_frame)
  subgoal by (simp add: cdc_acm_class_def)
  subgoal by (simp add: cdc_acm_class_def)
  subgoal by (auto simp: cdc_acm_class_def cdc_destroy_def intro: class_wf_teardown split: option.splits)
  done

lemma cp210x_class_wf:
  assumes "class_wf cp_handle s w" and "class_step cp210x_class s op w = Some (r, s', w')"
  shows "class_wf cp_handle s' w'"
  apply (rule class_step_wf [OF _ _ _ _ _ _ _ assms])
  subgoal by (auto simp: cp210x_class_def cp_send_def dest: send_loop_io_frame)
  subgoal premises prems for s n w r s' w'
    by (rule class_wf_keep [where p = "cp_recv_loop (time_now w + CP210X_TIMEOUT_S) n w"])
       (insert prems, simp_all add: cp210x_class_def cp_recv_def cp_recv_loop_io_frame)
  subgoal by (auto simp: cp210x_class_def cp_flush_def intro: class_wf_frame dest: drain_in_io_frame)
  subgoal by (auto simp: cp210x_class_def cp_set_modem_def split: prod.splits if_splits dest: control_io_frame)
  subgoal by (simp add: cp210x_class_def)
  subgoal by (simp add: cp210x_class_def)
  subgoal by (auto simp: cp210x_class_def cp_destroy_def intro: class_wf_teardown split: option.splits)
  done

lemma ftdi_class_wf:
  assumes "class_wf ftdi_handle s w" and "class_step ftdi_class s op w = Some (r, s', w')"
  shows "class_wf ftdi_handle s' w'"
  apply (rule class_step_wf [OF _ _ _ _ _ _ _ assms])
  subgoal by (auto simp: ftdi_class_def ftdi_send_def dest: send_loop_io_frame)
  subgoal premises prems for s n w r s' w'
    by (rule class_wf_keep [where p = "ftdi_recv_loop (time_now w + FTDI_TIMEOUT_S) (min n (FTDI_PACKET_SIZE - 2)) w"])
       (insert prems, simp_all add: ftdi_class_def ftdi_recv_def ftdi_recv_loop_io_frame)
  subgoal by (simp add: ftdi_class_def ftdi_flush_def)
  subgoal by (simp add: ftdi_class_def ftdi_set_modem_def)
  subgoal by (simp add: ftdi_class_def)
  subgoal by (simp add: ftdi_class_def)
  subgoal by (auto simp: ftdi_class_def ftdi_destroy_def intro: class_wf_close split: option.splits)
  done

lemma backend_step_Some:
  "map_option (\<lambda>(r, s', w'). (r, K s', w')) x = Some (r, b', w') \<Longrightarrow> \<exists>s'. x = Some (r, s', w') \<and> b' = K s'"
  by (cases x) auto

lemma control_trace:
  "libusb_control_transfer rt req v i d tmo w = (rc, w') \<Longrightarrow> trace w' = trace w @ [Control rt req v i d]"
  by (auto simp: libusb_control_transfer_def take_reply_def split: list.splits)

lemma modem_value_inverted:
  "unat (cp_modem_value state) = nat (ftdi_modem_value state) \<and>
   ftdi_modem_value state = 0x300 + (if modem_dtr state then 0 else 1) + (if modem_rts state then 0 else 2)"
  by (cases "modem_dtr state"; cases "modem_rts state")
     (simp_all add: cp_modem_value_def ftdi_modem_value_def)

subsection \<open>Opening yields well-formed instances\<close>

lemma class_wf_res:
  "open_handles w' = open_handles w \<Longrightarrow> claimed w' = claimed w \<Longrightarrow> next_handle w' = next_handle w \<Longrightarrow>
     class_wf g s w \<Longrightarrow> class_wf g s w'"
  by (simp add: class_wf_def fresh_handles_def handle_below_def split: option.splits)

lemma class_wf_detach: "class_wf g s w \<Longrightarrow> class_wf g s (kernel_detach dev i w)"
  by (rule class_wf_res) simp_all

lemma class_wf_open_None: "libusb_open dev w = ((rc, None), w') \<Longrightarrow> class_wf g s w \<Longrightarrow> class_wf g s w'"
  using libusb_open_None by (blast intro: class_wf_res)

lemma class_wf_open_Some:
  "libusb_open dev w = ((rc, Some h), w') \<Longrightarrow> g s' = Some h \<Longrightarrow> class_wf g s w \<Longrightarrow> class_wf g s' w'"
  by (drule libusb_open_Some) (auto simp: class_wf_def fresh_handles_def handle_below_def split: option.splits)

lemma class_wf_claim:
  "libusb_claim_interface h i w = (rc, w') \<Longrightarrow> g s = Some h \<Longrightarrow> class_wf g s w \<Longrightarrow> class_wf g s w'"
  by (drule libusb_claim_effect) (auto simp: class_wf_def fresh_handles_def handle_below_def)

lemma class_wf_set_config:
  "libusb_set_configuration c w = (rc, w') \<Longrightarrow> class_wf g s w \<Longrightarrow> class_wf g s w'"
  by (rule class_wf_res)
     (auto simp: libusb_set_configuration_def status_call_def take_reply_def log_call_def elapse_def split: list.splits)

lemma class_wf_fresh: "class_wf g s w \<Longrightarrow> fresh_handles w"
  by (simp add: class_wf_def)

lemma class_wf_start: "fresh_handles w \<Longrightarrow> g s = None \<Longrightarrow> class_wf g s w"
  by (simp add: class_wf_def handle_below_def)

lemmas class_wf_steps = class_wf_detach class_wf_close class_wf_release class_wf_frame

lemma class_wf_open:
  assumes "libusb_open dev w = ((rc, ho), w1)" and "class_wf g s w"
    and "ho = None \<Longrightarrow> s1 = s" and "\<And>h. ho = Some h \<Longrightarrow> g s1 = Some h"
  shows "class_wf g s1 w1"
  using assms class_wf_open_None class_wf_open_Some by (cases ho) auto

lemma class_wf_claim_detach:
  "libusb_claim_interface h i (kernel_detach dev i w) = (rc, w') \<Longrightarrow> g s = Some h \<Longrightarrow> class_wf g s w \<Longrightarrow>
     class_wf g s w'"
  by (erule class_wf_claim) (simp_all add: class_wf_detach)

lemma cdc_open_interface_wf:
  assumes oi: "cdc_open_interface tr dev w = (r, tr', w')" and wf: "class_wf cdc_handle tr w"
  shows "class_wf cdc_handle tr' w'"
proof -
  obtain rc ho w1 where o: "libusb_open dev w = ((rc, ho), w1)" by (metis prod.exhaust)
  define tr1 where "tr1 = (case ho of Some h \<Rightarrow> tr\<lparr>cdc_handle := Some h\<rparr> | None \<Rightarrow> tr)"
  have w1: "class_wf cdc_handle tr1 w1" by (rule class_wf_open [OF o wf]) (simp_all add: tr1_def)
  have eq: "cdc_open_interface tr dev w = (case cdc_handle tr1 of
           None \<Rightarrow> (Inl (E_open rc), tr1, w1)
         | Some h \<Rightarrow>
             (case libusb_claim_interface h (cdc_int_number tr1) (kernel_detach dev (cdc_int_number tr1) w1) of
                (rc2, w2) \<Rightarrow>
                  if rc2 \<noteq> 0 then (Inl (E_claim rc2), tr1, libusb_close h w2) else (Inr (), tr1, w2)))"
    unfolding tr1_def by (simp add: cdc_open_interface_def o Let_def)
  show ?thesis
    using oi w1 unfolding eq
    by (auto split: option.splits prod.splits if_splits intro: class_wf_close dest: class_wf_claim_detach)
qed

lemma cp_open_interface_wf:
  assumes oi: "cp_open_interface tr dev ino b w = (r, tr', w')" and wf: "class_wf cp_handle tr w"
  shows "class_wf cp_handle tr' w'"
proof -
  obtain rc ho w1 where o: "libusb_open dev w = ((rc, ho), w1)" by (metis prod.exhaust)
  define tr2 where "tr2 = (case ho of Some h \<Rightarrow> tr\<lparr>cp_int_number := ino, cp_handle := Some h\<rparr> | None \<Rightarrow> tr\<lparr>cp_int_number := ino\<rparr>)"
  have wf1: "class_wf cp_handle (tr\<lparr>cp_int_number := ino\<rparr>) w" using wf by (simp add: class_wf_def)
  have w1: "class_wf cp_handle tr2 w1" by (rule class_wf_open [OF o wf1]) (simp_all add: tr2_def)
  have eq: "cp_open_interface tr dev ino b w = (case cp_handle tr2 of
           None \<Rightarrow> (Inl (E_open rc), tr2, w1)
         | Some h \<Rightarrow>
             (case libusb_claim_interface h ino (kernel_detach dev ino w1) of (rc2, w2) \<Rightarrow>
                if rc2 \<noteq> 0 then (Inl (E_claim rc2), tr2, libusb_close h w2)
                else (case cp_configure_port b w2 of
                        (Inl e, w3) \<Rightarrow> (Inl e, tr2, libusb_close h w3)
                      | (Inr _, w3) \<Rightarrow> (Inr (), tr2, w3))))"
    unfolding tr2_def by (simp add: cp_open_interface_def o Let_def split: option.splits)
  show ?thesis
  proof (cases "cp_handle tr2")
    case None
    with oi w1 show ?thesis unfolding eq by simp
  next
    case (Some h)
    obtain rc2 w2 where cl: "libusb_claim_interface h ino (kernel_detach dev ino w1) = (rc2, w2)" by (metis prod.exhaust)
    have w2: "class_wf cp_handle tr2 w2" by (rule class_wf_claim_detach [OF cl Some w1])
    obtain r3 w3 where cf: "cp_configure_port b w2 = (r3, w3)" by (metis prod.exhaust)
    have w3: "class_wf cp_handle tr2 w3" by (rule class_wf_frame [OF cp_configure_port_io_frame [OF cf] w2])
    from oi Some cl cf have "tr' = tr2 \<and> (w' = libusb_close h w2 \<or> w' = libusb_close h w3 \<or> w' = w3)"
      unfolding eq by (auto split: if_splits sum.splits)
    with w2 w3 show ?thesis by (auto intro: class_wf_close)
  qed
qed

lemma cp_try_interfaces_wf:
  "cp_try_interfaces ds dev b tr w = (r, tr', w') \<Longrightarrow> class_wf cp_handle tr w \<Longrightarrow> class_wf cp_handle tr' w'"
proof (induction ds dev b tr w arbitrary: r tr' w' rule: cp_try_interfaces.induct)
  case (2 d ds dev b tr w)
  then show ?case
    by (auto split: if_splits prod.splits sum.splits dest: cp_open_interface_wf)
qed simp

lemma cp210x_open_wf:
  assumes "cp210x_open p s b pr v w = Some (Inr tr, w')" and "fresh_handles w"
  shows "class_wf cp_handle tr w'"
proof -
  have "\<exists>dev cs wl w1. find_device p s pr v w = (Some dev, wl) \<and>
      cp_try_interfaces cs dev b cp_zero wl = (Inr (), tr, w1) \<and> cp_flush tr w1 = Some w'"
    using assms(1) by (auto simp: cp210x_open_def cp_open_device_def split: option.splits prod.splits sum.splits)
  then obtain dev wl w1 cs where fd: "find_device p s pr v w = (Some dev, wl)" and
    od: "cp_try_interfaces cs dev b cp_zero wl = (Inr (), tr, w1)" and fl: "cp_flush tr w1 = Some w'"
    by blast
  have "class_wf cp_handle cp_zero wl"
    using find_device_fresh [OF fd assms(2)] by (simp add: class_wf_start cp_zero_def)
  from cp_try_interfaces_wf [OF od this] fl show ?thesis
    by (auto simp: cp_flush_def dest: drain_in_io_frame intro: class_wf_frame)
qed

lemma ftdi_open_device_wf:
  assumes oi: "ftdi_open_device tr dev b w = (r, tr', w')" and wf: "class_wf ftdi_handle tr w"
  shows "class_wf ftdi_handle tr' w'"
proof -
  obtain rc ho w1 where o: "libusb_open dev w = ((rc, ho), w1)" by (metis prod.exhaust)
  define tr1 where "tr1 = (case ho of Some h \<Rightarrow> tr\<lparr>ftdi_handle := Some h\<rparr> | None \<Rightarrow> tr)"
  have w1: "class_wf ftdi_handle tr1 w1" by (rule class_wf_open [OF o wf]) (simp_all add: tr1_def)
  have eq: "ftdi_open_device tr dev b w = (case ftdi_handle tr1 of
           None \<Rightarrow> (Inl (E_open rc), tr1, w1)
         | Some h \<Rightarrow>
             (case libusb_claim_interface h FTDI_USB_INTERFACE (kernel_detach dev FTDI_USB_INTERFACE w1) of
                (rc2, w2) \<Rightarrow>
                  if rc2 \<noteq> 0 then (Inl (E_claim rc2), tr1, libusb_close h w2)
                  else (case configure_ftdi b w2 of
                          (Inl e, w3) \<Rightarrow> (Inl e, tr1, libusb_close h w3)
                        | (Inr _, w3) \<Rightarrow> (Inr (), tr1, w3))))"
    unfolding tr1_def by (simp add: ftdi_open_device_def o Let_def)
  show ?thesis
  proof (cases "ftdi_handle tr1")
    case None
    with oi w1 show ?thesis unfolding eq by simp
  next
    case (Some h)
    obtain rc2 w2 where cl: "libusb_claim_interface h FTDI_USB_INTERFACE (kernel_detach dev FTDI_USB_INTERFACE w1) = (rc2, w2)"
      by (metis prod.exhaust)
    have w2: "class_wf ftdi_handle tr1 w2" by (rule class_wf_claim_detach [OF cl Some w1])
    obtain r3 w3 where cf: "configure_ftdi b w2 = (r3, w3)" by (metis prod.exhaust)
    have w3: "class_wf ftdi_handle tr1 w3"
      using class_wf_frame [OF configure_ftdi_io_frame [of w2 b] w2] cf by simp
    from oi Some cl cf have "tr' = tr1 \<and> (w' = libusb_close h w2 \<or> w' = libusb_close h w3 \<or> w' = w3)"
      unfolding eq by (auto split: if_splits sum.splits)
    with w2 w3 show ?thesis by (auto intro: class_wf_close)
  qed
qed

lemma ftdi_open_wf:
  assumes "ftdi_open p s v pr b w = (Inr tr, w')" and "fresh_handles w"
  shows "class_wf ftdi_handle tr w'"
proof -
  have "\<exists>dev wl u. find_device p s v pr w = (Some dev, wl) \<and> ftdi_open_device ftdi_zero dev b wl = (Inr u, tr, w')"
    using assms(1) by (auto simp: ftdi_open_def split: option.splits prod.splits sum.splits)
  then obtain dev wl u where fd: "find_device p s v pr w = (Some dev, wl)"
    and od: "ftdi_open_device ftdi_zero dev b wl = (Inr u, tr, w')" by blast
  have "class_wf ftdi_handle ftdi_zero wl"
    using find_device_fresh [OF fd assms(2)] by (simp add: class_wf_start ftdi_zero_def)
  with od show ?thesis by (rule ftdi_open_device_wf)
qed

lemma cdc_acm_open_wf:
  assumes "cdc_acm_open p s b v pr w = Some (Inr tr, w')" and "fresh_handles w"
  shows "class_wf cdc_handle tr w'"
proof -
  obtain wl dev tr1 w1 tr2 w2 where fd: "find_device p s v pr w = (Some dev, wl)"
    and fi: "cdc_find_interface cdc_zero dev = (Inr (), tr1)"
    and oi: "cdc_open_interface tr1 dev wl = (Inr (), tr2, w1)" and cf: "cdc_configure_port b w1 = (Inr (), w2)"
    and fl: "cdc_flush tr2 w2 = Some (tr, w')"
    using cdc_acm_open_Inr [OF assms(1)] by blast
  have "class_wf cdc_handle tr1 wl"
    using find_device_fresh [OF fd assms(2)] cdc_find_interface_handle [OF fi] by (simp add: class_wf_start cdc_zero_def)
  from class_wf_frame [OF cdc_configure_port_io_frame [OF cf] cdc_open_interface_wf [OF oi this]] fl
  show ?thesis by (auto simp: cdc_flush_def intro: class_wf_handle_eq dest: drain_in_io_frame)
qed

lemma bslhid_open_wf:
  assumes "bslhid_open p s w = Some (Inr tr, w')" and "fresh_handles w"
  shows "class_wf hid_handle tr w'"
proof -
  obtain wl tr0 d w0 u where fd: "find_device p s BSLHID_VID BSLHID_PID w = (Some d, wl)"
    and od: "bslhid_open_device tr0 d wl = (Inr u, tr, w0)" and n: "hid_handle tr0 = None"
    and fl: "bslhid_flush tr w0 = Some w'"
    using bslhid_open_Inr [OF assms(1)] by blast
  have "class_wf hid_handle tr0 wl" using find_device_fresh [OF fd assms(2)] n by (rule class_wf_start)
  then have "class_wf hid_handle tr w0" by (rule bslhid_open_device_wf [OF od n])
  with bslhid_flush_io_frame [OF fl] show ?thesis by (rule class_wf_frame)
qed

lemma download_loop_wf:
  "download_loop h f off w = (r, w') \<Longrightarrow> class_wf g s w \<Longrightarrow> class_wf g s w'"
proof (induction h f off w arbitrary: r rule: download_loop.induct)
  case (1 h f offset w)
  show ?case
  proof (cases "offset < fw_size f")
    case False
    with 1 show ?thesis by (simp add: download_loop.simps [of h f offset w])
  next
    case lt: True
    let ?plen = "min (fw_size f - offset) TI_DOWNLOAD_MAX_PACKET_SIZE"
    obtain rc n w1 where bo: "libusb_bulk_out USB_FDL_OUT_EP (take ?plen (drop offset (fw_buf f))) TI3410_TIMEOUT w = ((rc, n), w1)"
      by (metis prod.exhaust)
    have w1: "class_wf g s w1" by (rule class_wf_frame [OF bulk_out_io_frame [OF bo] 1(3)])
    have eq: "download_loop h f offset w =
        (if rc \<noteq> 0 \<and> rc \<noteq> LIBUSB_ERROR_TIMEOUT then (Inl (E_transfer rc), libusb_close h w1)
         else download_loop h f (offset + n) w1)"
      using lt bo by (simp add: download_loop.simps [of h f offset w] Let_def del: ti3410_consts)
    show ?thesis
    proof (cases "rc \<noteq> 0 \<and> rc \<noteq> LIBUSB_ERROR_TIMEOUT")
      case True
      with 1(2) eq w1 show ?thesis by (auto intro: class_wf_close)
    next
      case False
      with 1(2) eq have "download_loop h f (offset + n) w1 = (r, w')" by auto
      with 1(1) [of ?plen "(rc, n)" w1 rc n r] lt bo False w1 show ?thesis by (simp del: ti3410_consts)
    qed
  qed
qed

lemma class_wf_reset: "class_wf g s w \<Longrightarrow> class_wf g s (libusb_close h (libusb_reset_device (delay_ms n w)))"
  by (rule class_wf_close, rule class_wf_res) (simp_all add: libusb_reset_device_def delay_ms_def log_call_def)

lemma do_download_fresh:
  assumes "do_download dev f w = (r, w')" and "fresh_handles w"
  shows "fresh_handles w'"
proof -
  have wf: "class_wf id None w" using assms(2) by (simp add: class_wf_start)
  obtain rc ho w1 where o: "libusb_open dev w = ((rc, ho), w1)" by (metis prod.exhaust)
  show ?thesis
  proof (cases ho)
    case None
    with assms(1) o class_wf_open [OF o wf] show ?thesis by (auto simp: do_download_def class_wf_def)
  next
    case (Some h)
    have w1: "class_wf id (Some h) w1" by (rule class_wf_open [OF o wf]) (simp_all add: Some)
    obtain rc2 w2 where cl: "libusb_claim_interface h USB_FDL_INTERFACE (kernel_detach dev USB_FDL_INTERFACE w1) = (rc2, w2)"
      by (metis prod.exhaust)
    have w2: "class_wf id (Some h) w2" by (rule class_wf_claim_detach [OF cl _ w1]) simp
    obtain r3 w3 where dl: "download_loop h f 0 w2 = (r3, w3)" by (metis prod.exhaust)
    have w3: "class_wf id (Some h) w3" by (rule download_loop_wf [OF dl w2])
    from assms(1) o Some cl dl
    have "w' = libusb_close h w2 \<or> w' = w3 \<or> w' = libusb_close h (libusb_reset_device (delay_ms 100 w3))"
      by (auto simp: do_download_def split: if_splits sum.splits)
    with w2 w3 show ?thesis by (auto dest: class_wf_fresh class_wf_close class_wf_reset)
  qed
qed

lemma download_firmware_fresh:
  assumes "download_firmware dev w = (r, w')" and "fresh_handles w"
  shows "fresh_handles w'"
proof (cases "load_firmware w")
  case (Inr f)
  obtain r1 w1 where dd: "do_download dev (prepare_firmware f) w = (r1, w1)" by (metis prod.exhaust)
  moreover have "fresh_handles (delay_ms 2000 w1)"
    using do_download_fresh [OF dd assms(2)] by (simp add: delay_ms_def fresh_handles_def)
  ultimately show ?thesis using assms Inr do_download_fresh [OF dd assms(2)]
    by (auto simp: download_firmware_def split: sum.splits)
qed (use assms in \<open>simp add: download_firmware_def\<close>)

lemma ti3410_open_device_wf:
  assumes oi: "ti3410_open_device tr dev w = (r, tr', w')" and wf: "class_wf ti_handle tr w"
  shows "class_wf ti_handle tr' w'"
proof (cases "dev_config dev")
  case None
  with oi wf show ?thesis by (simp add: ti3410_open_device_def)
next
  case (Some c)
  obtain rc ho w1 where o: "libusb_open dev w = ((rc, ho), w1)" by (metis prod.exhaust)
  define tr1 where "tr1 = (case ho of Some h \<Rightarrow> tr\<lparr>ti_handle := Some h\<rparr> | None \<Rightarrow> tr)"
  have w1: "class_wf ti_handle tr1 w1" by (rule class_wf_open [OF o wf]) (simp_all add: tr1_def)
  show ?thesis
  proof (cases "ti_handle tr1")
    case None
    with oi Some o show ?thesis using w1
      unfolding tr1_def by (auto simp: ti3410_open_device_def Let_def split: option.splits)
  next
    case (Some h)
    obtain rc2 w3 where sc: "(if bConfigurationValue c = TI_BOOT_CONFIG
        then libusb_set_configuration TI_ACTIVE_CONFIG (kernel_detach dev USB_FET_INTERFACE w1)
        else (0, kernel_detach dev USB_FET_INTERFACE w1)) = (rc2, w3)" by (metis prod.exhaust)
    have w3: "class_wf ti_handle tr1 w3"
      using sc by (auto split: if_splits intro: class_wf_set_config [OF _ class_wf_detach [OF w1]] class_wf_detach [OF w1])
    obtain rc3 w4 where cl: "libusb_claim_interface h USB_FET_INTERFACE w3 = (rc3, w4)" by (metis prod.exhaust)
    have w4: "class_wf ti_handle tr1 w4" by (rule class_wf_claim [OF cl Some w3])
    from oi \<open>dev_config dev = Some c\<close> o Some sc cl
    have "tr' = tr1 \<and> (w' = libusb_close h w3 \<or> w' = libusb_close h w4 \<or> w' = w4)"
      unfolding tr1_def by (auto simp: ti3410_open_device_def Let_def split: if_splits option.splits)
    with w3 w4 show ?thesis by (auto intro: class_wf_close)
  qed
qed

lemma ti3410_open_wf:
  assumes "ti3410_open p s w = (Inr tr, w')" and "fresh_handles w"
  shows "class_wf ti_handle tr w'"
proof -
  have "\<exists>dev1 w1 u w2 u2 r1. (r1 = Inr dev1 \<and> fresh_handles w1) \<and>
      ti3410_open_device \<lparr>ti_handle = None\<rparr> dev1 w1 = (Inr u, tr, w2) \<and> setup_port w2 = (Inr u2, w')"
    using assms
    by (auto simp: ti3410_open_def split: option.splits if_splits sum.splits prod.splits
             dest: download_firmware_fresh find_device_fresh)
  then obtain dev1 w1 u w2 u2 where f1: "fresh_handles w1"
    and od: "ti3410_open_device \<lparr>ti_handle = None\<rparr> dev1 w1 = (Inr u, tr, w2)" and sp: "setup_port w2 = (Inr u2, w')"
    by blast
  have "class_wf ti_handle \<lparr>ti_handle = None\<rparr> w1" using f1 by (simp add: class_wf_start)
  from class_wf_frame [OF _ ti3410_open_device_wf [OF od this]] setup_port_io_frame [of w2] sp
  show ?thesis by simp
qed

lemma backend_step_wf:
  assumes "backend_wf b w" and "backend_step b op w = Some (r, b', w')"
  shows "backend_wf b' w' \<and> backend_kind b' = backend_kind b"
proof (cases b)
  case (B_bslhid s)
  with assms(2) obtain s' where c: "class_step bslhid_transport_class s op w = Some (r, s', w')" and "b' = B_bslhid s'"
    using backend_step_Some [of B_bslhid] by (metis backend_step.simps(1))
  with bslhid_class_wf [OF _ c] assms(1) B_bslhid show ?thesis by (simp add: backend_wf_def class_wf_def)
next
  case (B_ti3410 s)
  with assms(2) obtain s' where c: "class_step ti3410_transport_class s op w = Some (r, s', w')" and "b' = B_ti3410 s'"
    using backend_step_Some [of B_ti3410] by (metis backend_step.simps(2))
  with ti3410_class_wf [OF _ c] assms(1) B_ti3410 show ?thesis by (simp add: backend_wf_def class_wf_def)
next
  case (B_cdc s)
  with assms(2) obtain s' where c: "class_step cdc_acm_class s op w = Some (r, s', w')" and "b' = B_cdc s'"
    using backend_step_Some [of B_cdc] by (metis backend_step.simps(3))
  with cdc_class_wf [OF _ c] assms(1) B_cdc show ?thesis by (simp add: backend_wf_def class_wf_def)
next
  case (B_cp210x s)
  with assms(2) obtain s' where c: "class_step cp210x_class s op w = Some (r, s', w')" and "b' = B_cp210x s'"
    using backend_step_Some [of B_cp210x] by (metis backend_step.simps(4))
  with cp210x_class_wf [OF _ c] assms(1) B_cp210x show ?thesis by (simp add: backend_wf_def class_wf_def)
next
  case (B_ftdi s)
  with assms(2) obtain s' where c: "class_step ftdi_class s op w = Some (r, s', w')" and "b' = B_ftdi s'"
    using backend_step_Some [of B_ftdi] by (metis backend_step.simps(5))
  with ftdi_class_wf [OF _ c] assms(1) B_ftdi show ?thesis by (simp add: backend_wf_def class_wf_def)
qed

lemma backend_opened_wf:
  assumes "backend_opened w0 b w" and "fresh_handles w0"
  shows "backend_wf b w"
  using assms(1)
proof cases
  case open_bslhid
  then show ?thesis using assms(2) by (auto simp: backend_wf_def dest: bslhid_open_wf simp: class_wf_def)
next
  case open_ti3410
  then show ?thesis using assms(2) by (auto simp: backend_wf_def dest: ti3410_open_wf simp: class_wf_def)
next
  case open_cdc
  then show ?thesis using assms(2) by (auto simp: backend_wf_def dest: cdc_acm_open_wf simp: class_wf_def)
next
  case open_cp210x
  then show ?thesis using assms(2) by (auto simp: backend_wf_def dest: cp210x_open_wf simp: class_wf_def)
next
  case open_ftdi
  then show ?thesis using assms(2) by (auto simp: backend_wf_def dest: ftdi_open_wf simp: class_wf_def)
qed

subsection \<open>Sessions keep instances live\<close>

lemma handle_live_frame: "io_frame w w' \<Longrightarrow> handle_live ho i w' = handle_live ho i w"
  by (simp add: handle_live_def io_frame_def split: option.splits)

lemma handle_live_None [simp]: "handle_live None i w"
  by (simp add: handle_live_def)

text \<open>
  The contract for liveness, over any state type: transfers keep the handles and
  claims, reads and flushes keep the handle and interface, suspend keeps the
  instance live and a successful resume makes it live without replacing a handle it
  held.
\<close>

lemma class_step_live:
  assumes send: "\<And>s d w r w'. tc_send C s d w = (r, w') \<Longrightarrow> io_frame w w'"
    and recv: "\<And>s n w r s' w'. tc_recv C s n w = (r, s', w') \<Longrightarrow> f s' = f s \<and> g s' = g s \<and> io_frame w w'"
    and flush: "\<And>s w r s' w'. tc_flush C s w = Some (r, s', w') \<Longrightarrow> f s' = f s \<and> g s' = g s \<and> io_frame w w'"
    and modem: "\<And>s st w r w'. tc_set_modem C s st w = (r, w') \<Longrightarrow> io_frame w w'"
    and susp: "\<And>G s w r s' w'. tc_suspend C = Some G \<Longrightarrow> handle_live (f s) (g s) w \<Longrightarrow> G s w = (r, s', w') \<Longrightarrow>
                 handle_live (f s') (g s') w'"
    and res: "\<And>G s w u s' w'. tc_resume C = Some G \<Longrightarrow> handle_live (f s) (g s) w \<Longrightarrow> G s w = (Inr u, s', w') \<Longrightarrow>
                 handle_live (f s') (g s') w' \<and> (f s \<noteq> None \<longrightarrow> f s' = f s)"
    and live: "handle_live (f s) (g s) w" and st: "class_step C s op w = Some (r, s', w')"
    and call: "session_call op r"
  shows "handle_live (f s') (g s') w' \<and> (op \<noteq> Op_suspend \<longrightarrow> f s \<noteq> None \<longrightarrow> f s' = f s)"
proof (cases op)
  case (Op_send d)
  obtain r0 w0 where e: "tc_send C s d w = (r0, w0)" by (metis prod.exhaust)
  with st Op_send have "s' = s" "w' = w0" by (auto simp: class_step_def)
  with handle_live_frame [OF send [OF e]] live show ?thesis by simp
next
  case (Op_recv n)
  with st have "tc_recv C s n w = (r, s', w')" by (simp add: class_step_def)
  with recv [OF this] live show ?thesis using handle_live_frame by metis
next
  case Op_flush
  with st obtain r0 where "tc_flush C s w = Some (r0, s', w')" by (auto simp: class_step_def)
  from flush [OF this] live show ?thesis using handle_live_frame by metis
next
  case (Op_set_modem m)
  obtain r0 w0 where e: "tc_set_modem C s m w = (r0, w0)" by (metis prod.exhaust)
  with st Op_set_modem have "s' = s" "w' = w0" by (auto simp: class_step_def)
  with handle_live_frame [OF modem [OF e]] live show ?thesis by simp
next
  case Op_suspend
  with st live susp show ?thesis
    by (auto simp: class_step_def optional_op_def split: option.splits prod.splits)
next
  case Op_resume
  show ?thesis
  proof (cases "tc_resume C")
    case None
    with st Op_resume live show ?thesis by (auto simp: class_step_def optional_op_def)
  next
    case (Some G)
    obtain r0 s0 w0 where e: "G s w = (r0, s0, w0)" by (metis prod.exhaust)
    with st Op_resume Some have "r = unit_result r0" "s' = s0" "w' = w0"
      by (auto simp: class_step_def optional_op_def)
    with call Op_resume obtain u where "r0 = Inr u"
      by (cases r0) (auto simp: session_call_def unit_result_def)
    with res [OF Some live] e \<open>s' = s0\<close> \<open>w' = w0\<close> show ?thesis by simp
  qed
next
  case Op_destroy
  with call show ?thesis by (simp add: session_call_def)
qed

lemma bslhid_class_live:
  assumes "handle_live (hid_handle s) (hid_int_number s) w"
    and "class_step bslhid_transport_class s op w = Some (r, s', w')" and "session_call op r"
  shows "handle_live (hid_handle s') (hid_int_number s') w' \<and>
         (op \<noteq> Op_suspend \<longrightarrow> hid_handle s \<noteq> None \<longrightarrow> hid_handle s' = hid_handle s)"
  apply (rule class_step_live [where f = hid_handle and g = hid_int_number, OF _ _ _ _ _ _ assms])
  subgoal by (simp add: bslhid_transport_class_def bslhid_send_io_frame)
  subgoal by (auto simp: bslhid_transport_class_def split: prod.splits dest: bslhid_recv_io_frame)
  subgoal by (auto simp: bslhid_transport_class_def dest: bslhid_flush_io_frame)
  subgoal by (simp add: bslhid_transport_class_def bslhid_set_modem_def)
  subgoal by (auto simp: bslhid_transport_class_def bslhid_suspend_def split: option.splits)
  subgoal premises prems for G s w u s' w'
  proof (cases "hid_handle s")
    case None
    with prems have r: "bslhid_resume s w = (Inr u, s', w')" by (simp add: bslhid_transport_class_def)
    with bslhid_resume_open_device [OF r None] obtain dev where "bslhid_open_device s dev w = (Inr u, s', w')"
      by auto
    from bslhid_open_device_cases [OF this None] None show ?thesis by (simp add: handle_live_def)
  qed (use prems in \<open>auto simp: bslhid_transport_class_def bslhid_resume_def\<close>)
  done

lemma ti3410_class_live:
  assumes "handle_live (ti_handle s) USB_FET_INTERFACE w"
    and "class_step ti3410_transport_class s op w = Some (r, s', w')" and "session_call op r"
  shows "handle_live (ti_handle s') USB_FET_INTERFACE w' \<and>
         (op \<noteq> Op_suspend \<longrightarrow> ti_handle s \<noteq> None \<longrightarrow> ti_handle s' = ti_handle s)"
  apply (rule class_step_live [where f = ti_handle and g = "\<lambda>_. USB_FET_INTERFACE", OF _ _ _ _ _ _ assms])
  subgoal by (auto simp: ti3410_transport_class_def ti3410_send_def dest: send_loop_io_frame)
  subgoal for s n w r s' w'
    using ti3410_recv_loop_io_frame [of w "time_now w + TI3410_READ_TIMEOUT div 1000" n]
    by (simp add: ti3410_transport_class_def ti3410_recv_def split: prod.splits)
  subgoal by (simp add: ti3410_transport_class_def ti3410_flush_def)
  subgoal by (simp add: ti3410_transport_class_def ti3410_set_modem_def)
  subgoal by (simp add: ti3410_transport_class_def)
  subgoal by (simp add: ti3410_transport_class_def)
  done

lemma cdc_recv_keeps_interface: "cdc_recv tr len w = (r, tr', w') \<Longrightarrow> cdc_int_number tr' = cdc_int_number tr"
  by (auto simp: cdc_recv_def cdc_serve_def Let_def split: prod.splits if_splits)

lemma cdc_class_live:
  assumes "handle_live (cdc_handle s) (cdc_int_number s) w"
    and "class_step cdc_acm_class s op w = Some (r, s', w')" and "session_call op r"
  shows "handle_live (cdc_handle s') (cdc_int_number s') w' \<and>
         (op \<noteq> Op_suspend \<longrightarrow> cdc_handle s \<noteq> None \<longrightarrow> cdc_handle s' = cdc_handle s)"
  apply (rule class_step_live [where f = cdc_handle and g = cdc_int_number, OF _ _ _ _ _ _ assms])
  subgoal by (auto simp: cdc_acm_class_def cdc_send_def dest: send_loop_io_frame)
  subgoal by (auto simp: cdc_acm_class_def dest: cdc_recv_keeps_handle cdc_recv_keeps_interface)
  subgoal by (auto simp: cdc_acm_class_def dest: cdc_flush_Some)
  subgoal by (auto simp: cdc_acm_class_def cdc_set_modem_def split: prod.splits if_splits dest: control_io_frame)
  subgoal by (simp add: cdc_acm_class_def)
  subgoal by (simp add: cdc_acm_class_def)
  done

lemma cp210x_class_live:
  assumes "handle_live (cp_handle s) (cp_int_number s) w"
    and "class_step cp210x_class s op w = Some (r, s', w')" and "session_call op r"
  shows "handle_live (cp_handle s') (cp_int_number s') w' \<and>
         (op \<noteq> Op_suspend \<longrightarrow> cp_handle s \<noteq> None \<longrightarrow> cp_handle s' = cp_handle s)"
  apply (rule class_step_live [where f = cp_handle and g = cp_int_number, OF _ _ _ _ _ _ assms])
  subgoal by (auto simp: cp210x_class_def cp_send_def dest: send_loop_io_frame)
  subgoal for s n w r s' w'
    using cp_recv_loop_io_frame [of w "time_now w + CP210X_TIMEOUT_S" n]
    by (simp add: cp210x_class_def cp_recv_def split: prod.splits)
  subgoal by (auto simp: cp210x_class_def cp_flush_def dest: drain_in_io_frame)
  subgoal by (auto simp: cp210x_class_def cp_set_modem_def split: prod.splits if_splits dest: control_io_frame)
  subgoal by (simp add: cp210x_class_def)
  subgoal by (simp add: cp210x_class_def)
  done

lemma ftdi_class_live:
  assumes "handle_live (ftdi_handle s) FTDI_USB_INTERFACE w"
    and "class_step ftdi_class s op w = Some (r, s', w')" and "session_call op r"
  shows "handle_live (ftdi_handle s') FTDI_USB_INTERFACE w' \<and>
         (op \<noteq> Op_suspend \<longrightarrow> ftdi_handle s \<noteq> None \<longrightarrow> ftdi_handle s' = ftdi_handle s)"
  apply (rule class_step_live [where f = ftdi_handle and g = "\<lambda>_. FTDI_USB_INTERFACE", OF _ _ _ _ _ _ assms])
  subgoal by (auto simp: ftdi_class_def ftdi_send_def dest: send_loop_io_frame)
  subgoal for s n w r s' w'
    using ftdi_recv_loop_io_frame [of w "time_now w + FTDI_TIMEOUT_S" "min n (FTDI_PACKET_SIZE - 2)"]
    by (simp add: ftdi_class_def ftdi_recv_def split: prod.splits)
  subgoal by (simp add: ftdi_class_def ftdi_flush_def)
  subgoal by (simp add: ftdi_class_def ftdi_set_modem_def)
  subgoal by (simp add: ftdi_class_def)
  subgoal by (simp add: ftdi_class_def)
  done

lemma backend_step_live:
  assumes "backend_live b w" and "backend_step b op w = Some (r, b', w')" and "session_call op r"
  shows "backend_live b' w' \<and> (op \<noteq> Op_suspend \<longrightarrow> backend_handle b \<noteq> None \<longrightarrow> backend_handle b' = backend_handle b)"
proof -
  have wf: "backend_wf b' w'" using backend_step_wf assms(1,2) by (auto simp: backend_live_def)
  have "handle_live (backend_handle b') (backend_interface b') w' \<and>
        (op \<noteq> Op_suspend \<longrightarrow> backend_handle b \<noteq> None \<longrightarrow> backend_handle b' = backend_handle b)"
  proof (cases b)
    case (B_bslhid s)
    with assms(2) obtain s' where c: "class_step bslhid_transport_class s op w = Some (r, s', w')" and "b' = B_bslhid s'"
      using backend_step_Some [of B_bslhid] by (metis backend_step.simps(1))
    with bslhid_class_live [OF _ c assms(3)] assms(1) B_bslhid show ?thesis by (simp add: backend_live_def)
  next
    case (B_ti3410 s)
    with assms(2) obtain s' where c: "class_step ti3410_transport_class s op w = Some (r, s', w')" and "b' = B_ti3410 s'"
      using backend_step_Some [of B_ti3410] by (metis backend_step.simps(2))
    with ti3410_class_live [OF _ c assms(3)] assms(1) B_ti3410 show ?thesis by (simp add: backend_live_def)
  next
    case (B_cdc s)
    with assms(2) obtain s' where c: "class_step cdc_acm_class s op w = Some (r, s', w')" and "b' = B_cdc s'"
      using backend_step_Some [of B_cdc] by (metis backend_step.simps(3))
    with cdc_class_live [OF _ c assms(3)] assms(1) B_cdc show ?thesis by (simp add: backend_live_def)
  next
    case (B_cp210x s)
    with assms(2) obtain s' where c: "class_step cp210x_class s op w = Some (r, s', w')" and "b' = B_cp210x s'"
      using backend_step_Some [of B_cp210x] by (metis backend_step.simps(4))
    with cp210x_class_live [OF _ c assms(3)] assms(1) B_cp210x show ?thesis by (simp add: backend_live_def)
  next
    case (B_ftdi s)
    with assms(2) obtain s' where c: "class_step ftdi_class s op w = Some (r, s', w')" and "b' = B_ftdi s'"
      using backend_step_Some [of B_ftdi] by (metis backend_step.simps(5))
    with ftdi_class_live [OF _ c assms(3)] assms(1) B_ftdi show ?thesis by (simp add: backend_live_def)
  qed
  with wf show ?thesis by (simp add: backend_live_def)
qed

lemma backend_run_live:
  "backend_run b ops w = Some (rs, b', w') \<Longrightarrow> backend_live b w \<Longrightarrow> list_all2 session_call ops rs \<Longrightarrow>
     backend_live b' w' \<and> (Op_suspend \<notin> set ops \<longrightarrow> backend_handle b \<noteq> None \<longrightarrow> backend_handle b' = backend_handle b)"
proof (induction ops arbitrary: b w rs)
  case Nil
  then show ?case by simp
next
  case (Cons op ops)
  from Cons.prems(1) obtain r b1 w1 rs1 where st: "backend_step b op w = Some (r, b1, w1)"
    and run: "backend_run b1 ops w1 = Some (rs1, b', w')" and rs: "rs = r # rs1"
    by (auto split: option.splits prod.splits)
  from Cons.prems(3) rs have c: "session_call op r" and cs: "list_all2 session_call ops rs1" by auto
  note s1 = backend_step_live [OF Cons.prems(2) st c]
  from Cons.IH [OF run conjunct1 [OF s1] cs] s1 show ?case by auto
qed

lemma bslhid_open_live:
  assumes "bslhid_open p s w = Some (Inr tr, w')"
  shows "handle_live (hid_handle tr) (hid_int_number tr) w' \<and> hid_handle tr \<noteq> None"
proof -
  obtain wl tr0 d w1 u where od: "bslhid_open_device tr0 d wl = (Inr u, tr, w1)" and n: "hid_handle tr0 = None"
    and fl: "bslhid_flush tr w1 = Some w'"
    using bslhid_open_Inr [OF assms] by blast
  from bslhid_open_device_cases [OF od n] have "handle_live (hid_handle tr) (hid_int_number tr) w1 \<and> hid_handle tr \<noteq> None"
    by (simp add: handle_live_def)
  with handle_live_frame [OF bslhid_flush_io_frame [OF fl]] show ?thesis by simp
qed

lemma cdc_acm_open_live:
  assumes "cdc_acm_open p s b v pr w = Some (Inr tr, w')"
  shows "handle_live (cdc_handle tr) (cdc_int_number tr) w' \<and> cdc_handle tr \<noteq> None"
proof -
  obtain wl dev tr1 w1 tr2 w2 where fi: "cdc_find_interface cdc_zero dev = (Inr (), tr1)"
    and oi: "cdc_open_interface tr1 dev wl = (Inr (), tr2, w1)" and cf: "cdc_configure_port b w1 = (Inr (), w2)"
    and fl: "cdc_flush tr2 w2 = Some (tr, w')"
    using cdc_acm_open_Inr [OF assms] by blast
  have n: "cdc_handle tr1 = None" using cdc_find_interface_handle [OF fi] by (simp add: cdc_zero_def)
  from cdc_open_interface_Inr [OF oi n]
  have "handle_live (cdc_handle tr2) (cdc_int_number tr2) w1 \<and> cdc_handle tr2 \<noteq> None"
    by (simp add: handle_live_def)
  with handle_live_frame [OF cdc_configure_port_io_frame [OF cf]] cdc_flush_Some [OF fl] show ?thesis
    using handle_live_frame [of w2 w'] by simp
qed

lemma ftdi_open_live:
  assumes "ftdi_open p s v pr b w = (Inr tr, w')" and "fresh_handles w"
  shows "handle_live (ftdi_handle tr) FTDI_USB_INTERFACE w' \<and> ftdi_handle tr \<noteq> None"
proof -
  obtain dev wl u where fd: "find_device p s v pr w = (Some dev, wl)"
    and od: "ftdi_open_device ftdi_zero dev b wl = (Inr u, tr, w')"
    using assms(1) by (auto simp: ftdi_open_def split: option.splits prod.splits sum.splits)
  from ftdi_open_device_attempt [OF find_device_fresh [OF fd assms(2)] od] show ?thesis
    by (simp add: handle_live_def)
qed

text \<open>
  Every open function but CP210x's returns a live instance; CP210x's can return one
  holding the stale handle of an earlier interface attempt, closed already.
\<close>

lemma backend_opened_live:
  assumes "backend_opened w0 b w" and "fresh_handles w0" and "backend_kind b \<noteq> 3"
  shows "backend_live b w \<and> backend_handle b \<noteq> None"
proof -
  have "handle_live (backend_handle b) (backend_interface b) w \<and> backend_handle b \<noteq> None"
    using assms(1)
  proof cases
    case open_bslhid
    then show ?thesis by (auto dest: bslhid_open_live)
  next
    case open_ti3410
    then show ?thesis by (auto simp: handle_live_def dest: ti3410_open_Inr)
  next
    case open_cdc
    then show ?thesis by (auto dest: cdc_acm_open_live)
  next
    case open_cp210x
    with assms(3) show ?thesis by simp
  next
    case open_ftdi
    with assms(2) show ?thesis by (auto dest: ftdi_open_live)
  qed
  with backend_opened_wf [OF assms(1,2)] show ?thesis by (simp add: backend_live_def)
qed

end
