(* ===== verification/Spec2Isabelle.thy ===== *)
theory Spec2Isabelle
  imports Backends
begin

text \<open>
  \<^bold>\<open>The USB transports of MSPDebug.\<close>
  The program is the host side of five USB adapters: a byte-stream transport
  (\<open>transport.h\<close>: open, send, recv, flush, set_modem, suspend, resume, destroy) with one
  backend per adapter family, all on libusb-1.0, and a device locator they share. Each
  backend is a C file with a \<open>struct\<close> of state behind a table of operations; the
  operations are synchronous sequences of libusb calls.

  \<^bold>\<open>The world.\<close> \<open>Usb\<close> models libusb and the device, which are not repository code,
  as an explicit state passed through every operation (\<open>usb_world\<close>): the device's
  answers as a script consumed one per transfer (\<open>Ack\<close>, \<open>Fail rc\<close>, \<open>Part rc n\<close>,
  \<open>Data rc bytes\<close>; an exhausted script is a device that is gone, and every call then
  returns \<open>LIBUSB_ERROR_NO_DEVICE\<close>), the trace of calls made, a millisecond clock that a
  timed-out transfer advances by its timeout, the devices on the bus, the open handles
  and the claimed interfaces, the firmware files and the environment variable. A control
  transfer succeeds with the number of data bytes, as libusb-1.0 documents. Errors are
  values of \<open>usb_error\<close> in \<open>usb_error + 'a\<close>; \<open>E_null_deref\<close>, \<open>E_uninit\<close> and
  \<open>E_div_zero\<close> mark undefined behaviour of the C code. \<open>usb_seq\<close> is the idiom
  \<open>if (step () < 0) return -1;\<close>; \<open>io_frame\<close> says a step left handles, claims, bus and
  files alone; \<open>fresh_handles\<close> says no handle at or above \<open>next_handle\<close> is in use.

  \<^bold>\<open>Theories and the code they translate.\<close>
  \<^item> \<open>Prelude\<close>: \<open>memcpy\<close> into a buffer, the 8-bit sum, C's truncating division, byte
    splitting of 16- and 32-bit words, the shared \<open>named_theorems\<close>.
  \<^item> \<open>Usb\<close>: the libusb calls (\<open>libusb_open\<close>, \<open>libusb_claim_interface\<close>,
    \<open>libusb_control_transfer\<close>, \<open>libusb_bulk_transfer\<close> in and out, ...), their
    frame and resource lemmas, the clock lemmas and the sequencing combinator.
  \<^item> \<open>Usbutil\<close>: \<open>src/unnamed/part_000\<close> (usbutil.c): \<open>usbutil_find_by_loc\<close> with
    \<open>strtok\<close>/\<open>atoi\<close>, \<open>usbutil_find_by_id\<close> with \<open>strcasecmp\<close>, the adapter table,
    and the text \<open>usbutil_list\<close> prints (bus headers, \<open>%03d:%03d\<close> locations,
    \<open>%04x:%04x\<close> ids, the serial \<open>read_serial\<close> reads, truncated to 127 bytes).
    \<open>read_serial\<close> opens the device, reads its serial string descriptor and closes
    it, threading the world, so both \<open>usbutil_find_by_id\<close> and \<open>usbutil_list\<close>
    consume the device's answers; \<open>find_device\<close> is the lookup every backend's
    open starts with (by location when a path is given, by id and serial otherwise).
  \<^item> \<open>Transport\<close>: the modem flags of \<open>transport.h\<close> (from the spec), the endpoint scan,
    the send loop and the flush drain loop every backend repeats.
  \<^item> \<open>Bslhid\<close>: \<open>src/transport/bslhid.c\<close>, every operation including suspend/resume.
  \<^item> \<open>Ti3410\<close> and \<open>Ti3410_Bringup\<close>: \<open>src/transport/ti3410.c\<close>: the firmware search,
    Intel-HEX accumulation, header and download, the bring-up state machine, the port
    setup sequence, send/recv/flush/set_modem/destroy; the second theory holds the
    bring-up proofs over whole call sequences.
  \<^item> \<open>Cdc_Acm\<close>: \<open>src/transport/cdc_acm.c\<close>, with the read buffer of \<open>usbtr_recv\<close>.
  \<^item> \<open>Cp210x\<close>: \<open>src/unnamed/part_001\<close> (cp210x.c): configure_port, the loop of
    open_device over vendor-class interfaces, the deadline loop of usbtr_recv,
    destroy, flush, the inverted modem lines, cp210x_open.
  \<^item> \<open>Ftdi\<close>: \<open>src/transport/ftdi.c\<close>: do_cfg and the eight-command configure_ftdi,
    open_device, tr_recv with status-byte stripping, tr_send, tr_destroy, and tr_flush
    and tr_set_modem, which act on an uninitialised instance.
  \<^item> \<open>Backends\<close>: \<open>struct transport_class\<close> (from the spec) as a record of operations
    over the backend's state, the five tables (\<open>bslhid_transport_class\<close>,
    \<open>ti3410_transport\<close>, \<open>cdc_acm_class\<close>, \<open>cp210x_class\<close>, \<open>ftdi_class\<close>), the
    call through a table (\<open>class_step\<close>, a \<open>NULL\<close> suspend or resume being
    unsupported) and the closed set of backends with its dispatch \<open>backend_step\<close>; the
    contract a table meets (\<open>class_step_wf\<close>, over any state type) and its proof for
    each of the five tables; the same for liveness (\<open>class_step_live\<close>,
    \<open>handle_live\<close>: the handle held is open and its interface claimed).
    Sessions: \<open>backend_opened\<close> (one of the five open functions returned an
    instance) and the executable \<open>backend_run\<close> of a list of calls; a session call
    (\<open>session_call\<close>) is any call but \<open>destroy\<close> and a failed \<open>resume\<close>. The lemmas that every open
    function returns a well-formed instance go through each \<open>open_device\<close> path,
    including the stale handle of CP210x's interface loop and the TI3410 firmware
    download with its device reset.
  \<^item> this theory: the header and the properties that span the backends: a session
    (an open, then session calls through the table) keeps the instance live, the
    handle it holds open with its interface claimed, and without a suspend keeps the
    handle the open returned (CP210x excluded: its open can return a stale handle); and
    what set_modem does in each backend.

  \<^bold>\<open>What the lemmas show.\<close> For every backend: the behaviour of each operation on
  each branch including the error returns, with witnesses on concrete scripts; that
  \<open>open\<close> followed by \<open>destroy\<close> releases what \<open>open\<close> acquired and that a failing
  \<open>open\<close> unwinds (or, for TI3410, that destroy keeps the claim, a finding); the framing
  round trips (HID frames, CDC line coding); that the HID send puts the caller's bytes,
  never the frame it builds, on the wire; the buffer invariant of CDC-ACM and of
  the HID receive path; the firmware image construction (contiguity, gap error, the
  header's length and checksum, wrap-around of the 16-bit length); the bring-up and
  configuration sequences as exact call traces; termination of the send loops and the
  exact condition under which the flush drain loop terminates; that a location
  \<open>usbutil_list\<close> prints is found again by \<open>usbutil_find_by_loc\<close>; that the
  threaded \<open>usbutil_find_by_id\<close> refines its specification \<open>find_by_id_ref\<close> (the last
  device with the ids and, when requested, the serial) while leaving the process's
  handles as it found them; and, across the backends, liveness of an instance (its
  handle open with its interface claimed) as the invariant of whole sessions, for
  every backend whose open establishes it (all but CP210x, whose stale handle is a
  finding).

  \<^bold>\<open>Loops, fuel and bounds.\<close> The send loops and the receive loops with a deadline are
  \<open>function\<close>s that terminate because every iteration consumes an answer of the script
  (a gone device ends them with an error); the drain loop of flush can spin for ever
  on a real device and is a \<open>partial_function (option)\<close> whose \<open>None\<close> is that spin.
  The firmware download is a \<open>function\<close> on the bytes left to send. No fuel is used.

  \<^bold>\<open>Not modelled.\<close> libusb itself and the hardware (they are the world, not code);
  the external Intel-HEX decoder (its chunk list is an input); logging and
  \<open>printc\<close> output; \<open>libusb_init\<close> and \<open>libusb_unref_device\<close> (reference counting
  with no effect on the properties); the \<open>__Windows__\<close> and \<open>__APPLE__\<close> preprocessor
  branches (the Linux build is modelled); \<open>malloc\<close> failure;
  \<open>libusb_get_device_descriptor\<close>, which reads the descriptor libusb cached at
  enumeration and is modelled as the device's fields (it does not fail);
  \<open>usbutil_list\<close>'s per-device help text is the adapter table's, and its output
  is the string printed, not the stream.
\<close>

text \<open>C32: A transport session keeps the instance live: when the process's handles are consistent and the HID, TI3410, CDC-ACM or FTDI open function returns an instance, then after any sequence of calls through its table other than destroy and a failed resume, the world's handle bookkeeping is consistent and the handle the instance holds, if any, is open with the backend's interface claimed; and when no call was a suspend, the instance still holds the handle the open returned.\<close>

theorem backend_session_live:
  assumes "fresh_handles w0" and "backend_opened w0 b w" and "backend_kind b \<noteq> 3"
    and "backend_run b ops w = Some (rs, b', w')" and "list_all2 session_call ops rs"
  shows "backend_live b' w' \<and>
         (Op_suspend \<notin> set ops \<longrightarrow> backend_handle b' = backend_handle b \<and> backend_handle b \<noteq> None)"
proof -
  note o = backend_opened_live [OF assms(2,1,3)]
  from backend_run_live [OF assms(4) conjunct1 [OF o] assms(5)] o show ?thesis by auto
qed

theorem backend_session_live_witness:
  "fresh_handles hid_example_w0 \<and>
   backend_opened hid_example_w0 (B_bslhid hid_example_tr) hid_example_w1 \<and>
   backend_kind (B_bslhid hid_example_tr) \<noteq> 3 \<and>
   backend_run (B_bslhid hid_example_tr) [Op_set_modem 3, Op_suspend] hid_example_w1 =
     Some ([Inl E_unsupported, Inr []], B_bslhid (hid_example_tr\<lparr>hid_handle := None\<rparr>),
           libusb_close 0 (libusb_release_interface 0 0 hid_example_w1)) \<and>
   list_all2 session_call [Op_set_modem 3, Op_suspend] [Inl E_unsupported, Inr []] \<and>
   backend_live (B_bslhid (hid_example_tr\<lparr>hid_handle := None\<rparr>)) (libusb_close 0 (libusb_release_interface 0 0 hid_example_w1))"
proof -
  have f: "fresh_handles hid_example_w0" by (simp add: hid_example_w0_def empty_world_def fresh_handles_def)
  have o: "backend_opened hid_example_w0 (B_bslhid hid_example_tr) hid_example_w1"
    by (rule backend_opened.open_bslhid [OF hid_example_open])
  have k: "backend_kind (B_bslhid hid_example_tr) \<noteq> 3" by simp
  have run: "backend_run (B_bslhid hid_example_tr) [Op_set_modem 3, Op_suspend] hid_example_w1 =
     Some ([Inl E_unsupported, Inr []], B_bslhid (hid_example_tr\<lparr>hid_handle := None\<rparr>),
           libusb_close 0 (libusb_release_interface 0 0 hid_example_w1))"
    by (simp add: class_step_def optional_op_def bslhid_transport_class_def bslhid_set_modem_def
        bslhid_suspend_def unit_result_def hid_example_tr_def bslhid_zero_def)
  have c: "list_all2 session_call [Op_set_modem 3, Op_suspend] [Inl E_unsupported, Inr []]"
    by (simp add: session_call_def)
  from backend_session_live [OF f o k run c] f o k run c show ?thesis by simp
qed

text \<open>C40: set_modem called through the tables: the HID and TI3410 backends report it unsupported and the FTDI backend fails as uninitialised, none of them touching the bus; the CDC backend sends one SET_CONTROL_LINE_STATE request carrying the two lines directly (the value is the state mod 4), the CP210x backend one SET_MHS request with the write-enable bits 0x300 and each line's bit set exactly when that line is not requested, the value the FTDI code computes but never sends; no instance is changed.\<close>

theorem backend_set_modem_lines:
  assumes "backend_step b (Op_set_modem st) w = Some (r, b', w')"
  shows "b' = b \<and>
    (case b of
       B_bslhid _ \<Rightarrow> r = Inl E_unsupported \<and> w' = w
     | B_ti3410 _ \<Rightarrow> r = Inl E_unsupported \<and> w' = w
     | B_ftdi _ \<Rightarrow> r = Inl E_uninit \<and> w' = w
     | B_cdc _ \<Rightarrow> trace w' = trace w @ [Control 0x21 0x22 (word_of_nat (st mod 4)) 0 []]
     | B_cp210x _ \<Rightarrow> (\<exists>v. trace w' = trace w @ [Control 0x41 0x07 v 0 []] \<and> unat v = nat (ftdi_modem_value st) \<and>
          unat v = 0x300 + (if modem_dtr st then 0 else 1) + (if modem_rts st then 0 else 2)))"
proof (cases b)
  case (B_cdc s)
  obtain rc w1 where c: "libusb_control_transfer 0x21 0x22 (cdc_modem_value st) 0 [] 300 w = (rc, w1)"
    by (metis prod.exhaust)
  with assms B_cdc have "b' = b" "w' = w1"
    by (auto simp: class_step_def cdc_acm_class_def cdc_set_modem_def split: if_splits)
  with control_trace [OF c] B_cdc show ?thesis by (simp add: cdc_modem_direct)
next
  case (B_cp210x s)
  obtain rc w1 where c: "libusb_control_transfer 0x41 0x07 (cp_modem_value st) 0 [] 300 w = (rc, w1)"
    by (metis prod.exhaust)
  with assms B_cp210x have "b' = b" "w' = w1"
    by (auto simp: class_step_def cp210x_class_def cp_set_modem_def split: if_splits)
  with control_trace [OF c] B_cp210x modem_value_inverted [of st] show ?thesis by auto
qed (use assms in \<open>auto simp: class_step_def unit_result_def bslhid_transport_class_def bslhid_set_modem_def
       ti3410_transport_class_def ti3410_set_modem_def ftdi_class_def ftdi_set_modem_def\<close>)

theorem backend_set_modem_lines_witness:
  "backend_step (B_cp210x cp_zero) (Op_set_modem 1) (empty_world [] [Ack]) =
     Some (Inr [], B_cp210x cp_zero, (empty_world [] [])\<lparr>trace := [Control 0x41 0x07 0x302 0 []]\<rparr>) \<and>
   (\<exists>v. trace ((empty_world [] [])\<lparr>trace := [Control 0x41 0x07 0x302 0 []]\<rparr>) =
          trace (empty_world [] [Ack]) @ [Control 0x41 0x07 v 0 []] \<and> unat v = 0x302)"
proof -
  have st: "backend_step (B_cp210x cp_zero) (Op_set_modem 1) (empty_world [] [Ack]) =
     Some (Inr [], B_cp210x cp_zero, (empty_world [] [])\<lparr>trace := [Control 0x41 0x07 0x302 0 []]\<rparr>)"
    by (simp add: class_step_def cp210x_class_def cp_set_modem_def cp_modem_value_def modem_dtr_def modem_rts_def
        libusb_control_transfer_def take_reply_def log_call_def elapse_def reply_status_def empty_world_def unit_result_def)
  from backend_set_modem_lines [OF st] st show ?thesis
    by (simp add: modem_dtr_def modem_rts_def)
qed

end
